(* ===== verification/Keyed_Mutex.thy ===== *)
theory Keyed_Mutex
  imports Main
begin

text \<open>
  The reference-counted per-key mutex (\<^verbatim>\<open>src/session/keyedmutex.go\<close>) under every interleaving. A
  thread is at a program point of \<open>lock\<close> or of the unlock function it returned; \<open>fire t key s\<close> is
  the next atomic step of thread \<open>t\<close> (undefined while it is blocked on a mutex). Each
  \<open>sync.Mutex\<close> is its owner, if any; \<open>refMutex\<close> objects are numbered in allocation order.
\<close>

type_synonym tid = nat
type_synonym rid = nat

datatype pc =
    Idle
  | LockK string
  | InLock string
  | WaitM string rid
  | Crit string rid
  | RelWait string rid
  | InUnlock string rid

record km_state =
  kMu :: "tid option"
  kM :: "string \<Rightarrow> rid option"
  kRefs :: "rid \<Rightarrow> int"
  kRmu :: "rid \<Rightarrow> tid option"
  kNext :: rid
  kPc :: "tid \<Rightarrow> pc"

definition km_init :: km_state where
  "km_init = \<lparr>kMu = None, kM = Map.empty, kRefs = (\<lambda>r. 0), kRmu = (\<lambda>r. None), kNext = 0, kPc = (\<lambda>t. Idle)\<rparr>"

text \<open>The body of \<open>lock\<close> under \<open>k.mu\<close>: find or make the entry, count the reference, release.\<close>

definition lock_entry :: "tid \<Rightarrow> string \<Rightarrow> km_state \<Rightarrow> km_state" where
  "lock_entry t key s =
     (case kM s key of
        Some rm \<Rightarrow> s\<lparr>kRefs := (kRefs s)(rm := kRefs s rm + 1), kMu := None, kPc := (kPc s)(t := WaitM key rm)\<rparr>
      | None \<Rightarrow>
          let rm = kNext s in
          s\<lparr>kM := (kM s)(key \<mapsto> rm), kNext := Suc rm, kRmu := (kRmu s)(rm := None),
            kRefs := (kRefs s)(rm := 1), kMu := None, kPc := (kPc s)(t := WaitM key rm)\<rparr>)"

text \<open>The body of unlock under \<open>k.mu\<close>: drop the reference, delete the entry at zero, release.\<close>

definition unlock_entry :: "tid \<Rightarrow> string \<Rightarrow> rid \<Rightarrow> km_state \<Rightarrow> km_state" where
  "unlock_entry t key rm s =
     (let refs = kRefs s rm - 1 in
      s\<lparr>kRefs := (kRefs s)(rm := refs),
        kM := (if refs = 0 then (kM s)(key := None) else kM s),
        kMu := None, kPc := (kPc s)(t := Idle)\<rparr>)"

definition fire :: "tid \<Rightarrow> string \<Rightarrow> km_state \<Rightarrow> km_state option" where
  "fire t key s =
     (case kPc s t of
        Idle \<Rightarrow> Some (s\<lparr>kPc := (kPc s)(t := LockK key)\<rparr>)
      | LockK k \<Rightarrow> if kMu s = None then Some (s\<lparr>kMu := Some t, kPc := (kPc s)(t := InLock k)\<rparr>) else None
      | InLock k \<Rightarrow> Some (lock_entry t k s)
      | WaitM k rm \<Rightarrow>
          if kRmu s rm = None then Some (s\<lparr>kRmu := (kRmu s)(rm := Some t), kPc := (kPc s)(t := Crit k rm)\<rparr>) else None
      | Crit k rm \<Rightarrow> Some (s\<lparr>kRmu := (kRmu s)(rm := None), kPc := (kPc s)(t := RelWait k rm)\<rparr>)
      | RelWait k rm \<Rightarrow> if kMu s = None then Some (s\<lparr>kMu := Some t, kPc := (kPc s)(t := InUnlock k rm)\<rparr>) else None
      | InUnlock k rm \<Rightarrow> Some (unlock_entry t k rm s))"

inductive reach :: "km_state \<Rightarrow> bool" where
  init: "reach km_init"
| step: "reach s \<Longrightarrow> fire t key s = Some s' \<Longrightarrow> reach s'"

inductive_cases reach_cases: "reach s"

section \<open>Invariant\<close>

fun holds :: "pc \<Rightarrow> (string \<times> rid) option" where
  "holds (WaitM k rm) = Some (k, rm)"
| "holds (Crit k rm) = Some (k, rm)"
| "holds (RelWait k rm) = Some (k, rm)"
| "holds (InUnlock k rm) = Some (k, rm)"
| "holds _ = None"

fun in_k :: "pc \<Rightarrow> bool" where
  "in_k (InLock k) = True"
| "in_k (InUnlock k rm) = True"
| "in_k _ = False"

fun owns :: "pc \<Rightarrow> rid option" where
  "owns (Crit k rm) = Some rm"
| "owns _ = None"

definition holders :: "km_state \<Rightarrow> rid \<Rightarrow> tid set" where
  "holders s rm = {t. \<exists>k. holds (kPc s t) = Some (k, rm)}"

definition km_inv :: "km_state \<Rightarrow> bool" where
  "km_inv s \<longleftrightarrow>
     (\<forall>t. kMu s = Some t \<longleftrightarrow> in_k (kPc s t)) \<and>
     (\<forall>t k rm. holds (kPc s t) = Some (k, rm) \<longrightarrow> kM s k = Some rm) \<and>
     (\<forall>rm t. kRmu s rm = Some t \<longleftrightarrow> owns (kPc s t) = Some rm) \<and>
     (\<forall>k rm. kM s k = Some rm \<longrightarrow> rm < kNext s \<and> holders s rm \<noteq> {}) \<and>
     (\<forall>k k' rm. kM s k = Some rm \<longrightarrow> kM s k' = Some rm \<longrightarrow> k = k') \<and>
     (\<forall>rm. finite (holders s rm) \<and> (rm < kNext s \<longrightarrow> kRefs s rm = int (card (holders s rm))))"

lemma km_invD:
  assumes "km_inv s"
  shows "kMu s = Some t \<longleftrightarrow> in_k (kPc s t)"
    and "holds (kPc s t) = Some (k, rm) \<Longrightarrow> kM s k = Some rm"
    and "kRmu s rm = Some t \<longleftrightarrow> owns (kPc s t) = Some rm"
    and "kM s k = Some rm \<Longrightarrow> rm < kNext s"
    and "kM s k = Some rm \<Longrightarrow> holders s rm \<noteq> {}"
    and "kM s k = Some rm \<Longrightarrow> kM s k' = Some rm \<Longrightarrow> k = k'"
    and "finite (holders s rm)"
    and "rm < kNext s \<Longrightarrow> kRefs s rm = int (card (holders s rm))"
  using assms unfolding km_inv_def by blast+

lemma holders_upd:
  "holders (s\<lparr>kPc := (kPc s)(t := p)\<rparr>) rm =
     (if \<exists>k. holds p = Some (k, rm) then insert t (holders s rm) else holders s rm - {t})"
  by (auto simp: holders_def)

lemma holders_cong: "kPc s' = kPc s \<Longrightarrow> holders s' rm = holders s rm"
  by (simp add: holders_def)

lemma owns_holds: "owns p = Some rm \<Longrightarrow> \<exists>k. holds p = Some (k, rm)"
  by (cases p) auto

text \<open>A step that only moves the owner of a mutex keeps who holds which entry.\<close>

lemma km_inv_move:
  assumes inv: "km_inv s" and same: "kM s' = kM s" "kRefs s' = kRefs s" "kNext s' = kNext s"
    and pc: "kPc s' = (kPc s)(t := p)" "holds p = holds (kPc s t)"
    and mu: "\<forall>u. kMu s' = Some u \<longleftrightarrow> in_k (kPc s' u)"
    and rmu: "\<forall>rm u. kRmu s' rm = Some u \<longleftrightarrow> owns (kPc s' u) = Some rm"
  shows "km_inv s'"
proof -
  have h: "holds (kPc s' u) = holds (kPc s u)" for u using pc by simp
  then have "holders s' rm = holders s rm" for rm by (simp add: holders_def)
  with inv same h mu rmu show ?thesis by (simp add: km_inv_def)
qed

lemma holders_fresh: "km_inv s \<Longrightarrow> holders s (kNext s) = {}"
  using km_invD(2,4) by (fastforce simp: holders_def)

lemma lock_entry_inv:
  assumes inv: "km_inv s" and pc: "kPc s t = InLock key"
  shows "km_inv (lock_entry t key s)"
proof -
  note D = km_invD [OF inv]
  have mu: "kMu s = Some t" using D(1) pc by simp
  then have others: "\<not> in_k (kPc s u)" if "u \<noteq> t" for u using D(1) [of u] that by simp
  have t: "t \<notin> holders s rm" for rm using pc by (simp add: holders_def)
  show ?thesis
  proof (cases "kM s key")
    case None
    let ?rm = "kNext s"
    let ?s = "lock_entry t key s"
    have s: "kM ?s = (kM s)(key \<mapsto> ?rm)" "kNext ?s = Suc ?rm" "kRefs ?s = (kRefs s)(?rm := 1)" "kMu ?s = None"
      "kRmu ?s = (kRmu s)(?rm := None)" "kPc ?s = (kPc s)(t := WaitM key ?rm)"
      using None by (simp_all add: lock_entry_def Let_def)
    have hs: "holders ?s rm = (if rm = ?rm then {t} else holders s rm)" for rm
      using holders_fresh [OF inv] t [of rm] by (auto simp: holders_def s split: if_splits)
    have fresh: "kM s k \<noteq> Some ?rm" for k using D(4) [of k ?rm] by auto
    have unowned: "owns (kPc s u) \<noteq> Some ?rm" for u
      using owns_holds [of "kPc s u" ?rm] D(2) [of u _ ?rm] fresh by blast
    show ?thesis unfolding km_inv_def
    proof (intro conjI allI impI)
      show "kMu ?s = Some u \<longleftrightarrow> in_k (kPc ?s u)" for u using others by (simp add: s)
      show "kM ?s k = Some rm" if "holds (kPc ?s u) = Some (k, rm)" for u k rm
        using that D(2) [of u k rm] None by (auto simp: s split: if_splits)
      show "kRmu ?s rm = Some u \<longleftrightarrow> owns (kPc ?s u) = Some rm" for rm u
        using D(3) [of rm u] D(3) [of rm t] unowned pc by (auto simp: s)
      show "rm < kNext ?s" "holders ?s rm \<noteq> {}" if "kM ?s k = Some rm" for k rm
        using that D(4,5) [of k rm] by (auto simp: s hs split: if_splits)
      show "k = k'" if "kM ?s k = Some rm" "kM ?s k' = Some rm" for k k' rm
        using that D(6) [of k rm k'] fresh by (auto simp: s split: if_splits)
      show "finite (holders ?s rm)" "rm < kNext ?s \<Longrightarrow> kRefs ?s rm = int (card (holders ?s rm))" for rm
        using D(7,8) [of rm] by (auto simp: hs s)
    qed
  next
    case (Some rm0)
    let ?s = "lock_entry t key s"
    have s: "kM ?s = kM s" "kNext ?s = kNext s" "kRefs ?s = (kRefs s)(rm0 := kRefs s rm0 + 1)" "kMu ?s = None"
      "kRmu ?s = kRmu s" "kPc ?s = (kPc s)(t := WaitM key rm0)"
      using Some by (simp_all add: lock_entry_def)
    have hs: "holders ?s rm = (if rm = rm0 then insert t (holders s rm) else holders s rm)" for rm
      using t [of rm] by (auto simp: holders_def s split: if_splits)
    show ?thesis unfolding km_inv_def
    proof (intro conjI allI impI)
      show "kMu ?s = Some u \<longleftrightarrow> in_k (kPc ?s u)" for u using others by (simp add: s)
      show "kM ?s k = Some rm" if "holds (kPc ?s u) = Some (k, rm)" for u k rm
        using that D(2) [of u k rm] Some by (auto simp: s split: if_splits)
      show "kRmu ?s rm = Some u \<longleftrightarrow> owns (kPc ?s u) = Some rm" for rm u
        using D(3) [of rm u] D(3) [of rm t] pc by (auto simp: s)
      show "rm < kNext ?s" "holders ?s rm \<noteq> {}" if "kM ?s k = Some rm" for k rm
        using that D(4,5) [of k rm] by (auto simp: s hs)
      show "k = k'" if "kM ?s k = Some rm" "kM ?s k' = Some rm" for k k' rm
        using that D(6) [of k rm k'] by (simp add: s)
      show "finite (holders ?s rm)" "rm < kNext ?s \<Longrightarrow> kRefs ?s rm = int (card (holders ?s rm))" for rm
        using D(7,8) [of rm] t [of rm] by (auto simp: hs s)
    qed
  qed
qed

lemma unlock_entry_inv:
  assumes inv: "km_inv s" and pc: "kPc s t = InUnlock key rm0"
  shows "km_inv (unlock_entry t key rm0 s)"
proof -
  note D = km_invD [OF inv]
  let ?s = "unlock_entry t key rm0 s"
  have mu: "kMu s = Some t" using D(1) pc by simp
  then have others: "\<not> in_k (kPc s u)" if "u \<noteq> t" for u using D(1) [of u] that by simp
  have t: "t \<in> holders s rm \<longleftrightarrow> rm = rm0" for rm using pc by (auto simp: holders_def)
  have key: "kM s key = Some rm0" using D(2) [of t] pc by simp
  have refs: "kRefs s rm0 = int (card (holders s rm0))" using D(4,8) key by blast
  have pos: "0 < card (holders s rm0)" using D(7) t card_gt_0_iff by blast
  have s: "kM ?s = (if card (holders s rm0) = 1 then (kM s)(key := None) else kM s)" "kNext ?s = kNext s"
    "kRefs ?s = (kRefs s)(rm0 := kRefs s rm0 - 1)" "kMu ?s = None" "kRmu ?s = kRmu s" "kPc ?s = (kPc s)(t := Idle)"
    using refs by (auto simp: unlock_entry_def Let_def)
  have hs: "holders ?s rm = (if rm = rm0 then holders s rm0 - {t} else holders s rm)" for rm
    using t [of rm] by (auto simp: holders_def s split: if_splits)
  have card: "card (holders ?s rm0) = card (holders s rm0) - 1" using D(7) t by (simp add: hs)
  have "finite (holders ?s rm0)" using D(7) by (simp add: hs)
  then have "holders ?s rm0 = {} \<longleftrightarrow> card (holders ?s rm0) = 0" by simp
  also have "\<dots> \<longleftrightarrow> card (holders s rm0) = 1" using card pos by linarith
  finally have empty: "holders ?s rm0 = {} \<longleftrightarrow> card (holders s rm0) = 1" .
  show ?thesis unfolding km_inv_def
  proof (intro conjI allI impI)
    show "kMu ?s = Some u \<longleftrightarrow> in_k (kPc ?s u)" for u using others by (simp add: s)
    show "kM ?s k = Some rm" if h: "holds (kPc ?s u) = Some (k, rm)" for u k rm
    proof -
      have u: "u \<noteq> t" "kM s k = Some rm" using h D(2) [of u k rm] by (auto simp: s split: if_splits)
      moreover have "u \<in> holders ?s rm" using h by (auto simp: holders_def)
      ultimately show ?thesis using empty key by (auto simp: s)
    qed
    show "kRmu ?s rm = Some u \<longleftrightarrow> owns (kPc ?s u) = Some rm" for rm u
      using D(3) [of rm u] D(3) [of rm t] pc by (auto simp: s)
    show "rm < kNext ?s" if "kM ?s k = Some rm" for k rm
      using that D(4) [of k rm] by (auto simp: s split: if_splits)
    show "holders ?s rm \<noteq> {}" if m: "kM ?s k = Some rm" for k rm
    proof (cases "rm = rm0")
      case True
      have "kM s k = Some rm0" using m True by (auto simp: s split: if_splits)
      then have "k = key" by (rule D(6) [OF _ key])
      with m True empty show ?thesis by (auto simp: s)
    next
      case False
      then show ?thesis using m D(5) [of k rm] by (auto simp: s hs split: if_splits)
    qed
    show "k = k'" if "kM ?s k = Some rm" "kM ?s k' = Some rm" for k k' rm
      using that D(6) [of k rm k'] by (auto simp: s split: if_splits)
    show "finite (holders ?s rm)" "rm < kNext ?s \<Longrightarrow> kRefs ?s rm = int (card (holders ?s rm))" for rm
      using D(7,8) [of rm] card refs pos by (auto simp: hs s)
  qed
qed

lemma fire_inv:
  assumes inv: "km_inv s" and fire: "fire t key s = Some s'"
  shows "km_inv s'"
proof -
  note D = km_invD [OF inv]
  show ?thesis
  proof (cases "kPc s t")
    case (InLock k)
    with fire lock_entry_inv [OF inv] show ?thesis by (auto simp: fire_def)
  next
    case (InUnlock k rm)
    with fire unlock_entry_inv [OF inv] show ?thesis by (auto simp: fire_def)
  next
    case Idle
    show ?thesis
      by (rule km_inv_move [OF inv, where t = t and p = "LockK key"]; use fire D(1,3) Idle in \<open>auto simp: fire_def split: if_splits\<close>)
  next
    case (LockK k)
    show ?thesis
      by (rule km_inv_move [OF inv, where t = t and p = "InLock k"]; use fire D(1,3) LockK in \<open>auto simp: fire_def split: if_splits\<close>)
  next
    case (WaitM k rm)
    with fire have free: "owns (kPc s u) \<noteq> Some rm" for u
      using D(3) [of rm u] by (auto simp: fire_def split: if_splits)
    show ?thesis
      by (rule km_inv_move [OF inv, where t = t and p = "Crit k rm"]; use fire D(1,3) WaitM free in \<open>auto simp: fire_def split: if_splits\<close>)
  next
    case (Crit k rm)
    then have sole: "owns (kPc s u) \<noteq> Some rm" if "u \<noteq> t" for u
      using D(3) [of rm u] D(3) [of rm t] that by auto
    show ?thesis
      by (rule km_inv_move [OF inv, where t = t and p = "RelWait k rm"]; use fire D(1,3) Crit sole in \<open>auto simp: fire_def split: if_splits\<close>)
  next
    case (RelWait k rm)
    show ?thesis
      by (rule km_inv_move [OF inv, where t = t and p = "InUnlock k rm"]; use fire D(1,3) RelWait in \<open>auto simp: fire_def split: if_splits\<close>)
  qed
qed

lemma km_inv_init: "km_inv km_init"
  by (simp add: km_inv_def km_init_def holders_def)

lemma reach_inv: "reach s \<Longrightarrow> km_inv s"
  by (induction rule: reach.induct) (auto intro: km_inv_init fire_inv)

section \<open>What the mutex promises\<close>

fun run :: "(tid \<times> string) list \<Rightarrow> km_state \<Rightarrow> km_state option" where
  "run [] s = Some s"
| "run ((t, k) # sched) s = (case fire t k s of None \<Rightarrow> None | Some s' \<Rightarrow> run sched s')"

lemma run_reach: "reach s \<Longrightarrow> run sched s = Some s' \<Longrightarrow> reach s'"
  by (induction sched s rule: run.induct) (auto split: option.splits intro: reach.step)

text \<open>A run in which thread 0 is in the critical section of a key and thread 1 waits for it.\<close>

definition demo_run :: km_state where
  "demo_run = the (run [(0, ''a''), (1, ''a''), (0, []), (0, []), (1, []), (1, []), (0, [])] km_init)"

lemma demo_run_steps: "run [(0, ''a''), (1, ''a''), (0, []), (0, []), (1, []), (1, []), (0, [])] km_init = Some demo_run"
  by (simp add: demo_run_def fire_def km_init_def lock_entry_def Let_def)

lemma demo_run_reach: "reach demo_run"
  by (rule run_reach [OF reach.init demo_run_steps])

lemma demo_run_pc: "kPc demo_run 0 = Crit ''a'' 0" "kPc demo_run 1 = WaitM ''a'' 0"
  by (simp_all add: demo_run_def fire_def km_init_def lock_entry_def Let_def)

text \<open>Mutual exclusion: under every interleaving, two threads are never in the critical section of the
  same key at the same time, even though the entry of a key may be deleted and made again.\<close>

theorem keyed_mutual_exclusion:
  assumes "reach s" "kPc s t = Crit key rm" "kPc s u = Crit key rm'"
  shows "t = u"
proof -
  note D = km_invD [OF reach_inv [OF assms(1)]]
  have "kM s key = Some rm" "kM s key = Some rm'" using D(2) [of t] D(2) [of u] assms(2,3) by auto
  then have "kRmu s rm = Some t" "kRmu s rm = Some u" using D(3) assms(2,3) by auto
  then show ?thesis by simp
qed

theorem keyed_mutual_exclusion_witness:
  "kPc demo_run 0 = Crit ''a'' 0 \<and> kPc demo_run 1 \<noteq> Crit ''a'' 0"
  using keyed_mutual_exclusion [OF demo_run_reach demo_run_pc(1), of 1 0] demo_run_pc by auto

text \<open>C11. No leak: the map has an entry for a key exactly while some thread is between taking its reference
  and giving it back, the counter of that entry is the number of those threads, and once every thread
  is idle the map is empty.\<close>

theorem keyed_mutex_no_leak:
  assumes "reach s"
  shows "(kM s key \<noteq> None \<longleftrightarrow> (\<exists>t rm. holds (kPc s t) = Some (key, rm)))
    \<and> (\<forall>rm. kM s key = Some rm \<longrightarrow> kRefs s rm = int (card {t. holds (kPc s t) = Some (key, rm)}))
    \<and> ((\<forall>t. kPc s t = Idle) \<longrightarrow> kM s = Map.empty)"
proof -
  note D = km_invD [OF reach_inv [OF assms]]
  have own: "holders s rm = {t. holds (kPc s t) = Some (k, rm)}" if "kM s k = Some rm" for k rm
    using D(2) D(6) [OF that] by (fastforce simp: holders_def)
  have iff: "kM s k \<noteq> None \<longleftrightarrow> (\<exists>t rm. holds (kPc s t) = Some (k, rm))" for k
  proof
    assume "kM s k \<noteq> None"
    then obtain rm where "kM s k = Some rm" by blast
    then show "\<exists>t rm. holds (kPc s t) = Some (k, rm)" using own [of k rm] D(5) [of k rm] by blast
  qed (use D(2) in fastforce)
  have "kRefs s rm = int (card {t. holds (kPc s t) = Some (key, rm)})" if "kM s key = Some rm" for rm
    using own [OF that] D(8) [OF D(4) [OF that]] by simp
  moreover have "kM s = Map.empty" if "\<forall>t. kPc s t = Idle"
  proof
    show "kM s k = None" for k using iff [of k] that by simp
  qed
  ultimately show ?thesis using iff by blast
qed

theorem keyed_mutex_no_leak_witness:
  "kRefs demo_run 0 = int (card {t. holds (kPc demo_run t) = Some (''a'', 0)})"
proof -
  have "kM demo_run ''a'' = Some 0" by (simp add: demo_run_def fire_def km_init_def lock_entry_def Let_def)
  then show ?thesis using keyed_mutex_no_leak [OF demo_run_reach, of "''a''"] by blast
qed

lemma some_thread_steps:
  assumes "reach s" "kPc s t \<noteq> Idle"
  shows "\<exists>u s'. kPc s u \<noteq> Idle \<and> fire u key s = Some s'"
proof (cases "kMu s")
  case (Some u)
  then have "in_k (kPc s u)" using km_invD(1) [OF reach_inv [OF assms(1)]] by blast
  then show ?thesis by (intro exI [of _ u]) (cases "kPc s u"; auto simp: fire_def)
next
  case None
  show ?thesis
  proof (cases "\<exists>k rm u. kPc s t = WaitM k rm \<and> kRmu s rm = Some u")
    case True
    then obtain k rm u where "kRmu s rm = Some u" by blast
    then have "owns (kPc s u) = Some rm" using km_invD(3) [OF reach_inv [OF assms(1)]] by blast
    then show ?thesis by (intro exI [of _ u]) (cases "kPc s u"; auto simp: fire_def)
  next
    case False
    with None assms(2) show ?thesis by (intro exI [of _ t]) (cases "kPc s t"; auto simp: fire_def)
  qed
qed

section \<open>Every acquisition finishes\<close>

text \<open>The steps a thread still has before it is idle again.\<close>

fun remaining :: "pc \<Rightarrow> nat" where
  "remaining Idle = 0"
| "remaining (LockK k) = 6"
| "remaining (InLock k) = 5"
| "remaining (WaitM k rm) = 4"
| "remaining (Crit k rm) = 3"
| "remaining (RelWait k rm) = 2"
| "remaining (InUnlock k rm) = 1"

definition active :: "km_state \<Rightarrow> tid set" where
  "active s = {t. kPc s t \<noteq> Idle}"

definition work :: "km_state \<Rightarrow> nat" where
  "work s = (\<Sum>t \<in> active s. remaining (kPc s t))"

text \<open>A schedule in which no idle thread starts.\<close>

fun drains :: "(tid \<times> string) list \<Rightarrow> km_state \<Rightarrow> bool" where
  "drains [] s = True"
| "drains ((t, k) # sched) s = (kPc s t \<noteq> Idle \<and> (case fire t k s of None \<Rightarrow> True | Some s' \<Rightarrow> drains sched s'))"

lemma fire_pc:
  assumes "fire t key s = Some s'"
  obtains p where "kPc s' = (kPc s)(t := p)" "kPc s t \<noteq> Idle \<longrightarrow> Suc (remaining p) = remaining (kPc s t)"
  using assms that by (cases "kPc s t") (auto simp: fire_def lock_entry_def unlock_entry_def Let_def split: if_splits option.splits)

lemma reach_finite: "reach s \<Longrightarrow> finite (active s)"
proof (induction rule: reach.induct)
  case init
  then show ?case by (simp add: active_def km_init_def)
next
  case (step s t key s')
  from step.hyps(2) obtain p where "kPc s' = (kPc s)(t := p)" by (rule fire_pc)
  then have "active s' \<subseteq> insert t (active s)" by (auto simp: active_def)
  with step.IH show ?case by (meson finite.insertI finite_subset)
qed

lemma remaining_0 [simp]: "remaining p = 0 \<longleftrightarrow> p = Idle"
  by (cases p) auto

lemma work_split: "finite (active s) \<Longrightarrow> work s = remaining (kPc s t) + (\<Sum>u \<in> active s - {t}. remaining (kPc s u))"
  using sum.remove [of "active s" t "\<lambda>u. remaining (kPc s u)"] by (cases "t \<in> active s") (auto simp: work_def active_def)

lemma work_step:
  assumes "finite (active s)" "kPc s t \<noteq> Idle" "fire t key s = Some s'"
  shows "Suc (work s') = work s \<and> finite (active s')"
proof -
  from assms(3) obtain p where p: "kPc s' = (kPc s)(t := p)" "kPc s t \<noteq> Idle \<longrightarrow> Suc (remaining p) = remaining (kPc s t)" by (rule fire_pc)
  then have a: "active s' - {t} = active s - {t}" by (auto simp: active_def)
  have f: "finite (active s')" by (rule finite_subset [of _ "insert t (active s)"]) (use p assms(1) in \<open>auto simp: active_def\<close>)
  have "(\<Sum>u \<in> active s' - {t}. remaining (kPc s' u)) = (\<Sum>u \<in> active s - {t}. remaining (kPc s u))"
    unfolding a by (rule sum.cong) (auto simp: p)
  then show ?thesis using work_split [OF f, of t] work_split [OF assms(1), of t] p assms(2) f by simp
qed

lemma drain_work: "finite (active s) \<Longrightarrow> run sched s = Some s' \<Longrightarrow> drains sched s \<Longrightarrow> length sched + work s' = work s"
proof (induction sched s rule: run.induct)
  case (2 t k sched s)
  then obtain s1 where s1: "fire t k s = Some s1" "run sched s1 = Some s'" "kPc s t \<noteq> Idle" "drains sched s1"
    by (auto split: option.splits)
  from work_step [OF 2(2) s1(3,1)] 2(1) [OF s1(1)] s1 show ?case by simp
qed simp

lemma work_0: "finite (active s) \<Longrightarrow> work s = 0 \<longleftrightarrow> (\<forall>t. kPc s t = Idle)"
  by (auto simp: work_def active_def)

text \<open>C10. Every acquisition finishes. From every reachable state, a run in which no idle thread starts a new acquisition takes at most
  \<open>work s\<close> further steps (six for each thread that has just asked for its lock), under every scheduler, and a run
  that can go no further has brought every thread back to idle and emptied the map; such a run exists.\<close>

theorem keyed_mutex_terminates:
  assumes "reach s"
  shows "(\<forall>sched s'. run sched s = Some s' \<and> drains sched s \<longrightarrow> length sched \<le> work s
       \<and> ((\<forall>t. kPc s' t \<noteq> Idle \<longrightarrow> fire t [] s' = None) \<longrightarrow> (\<forall>t. kPc s' t = Idle) \<and> kM s' = Map.empty))
    \<and> (\<exists>sched s'. run sched s = Some s' \<and> drains sched s \<and> length sched = work s \<and> (\<forall>t. kPc s' t = Idle))"
proof -
  have empty: "kM s' = Map.empty" if "reach s'" "\<forall>t. kPc s' t = Idle" for s'
  proof
    fix k
    show "kM s' k = None"
      using km_invD(5) [OF reach_inv [OF that(1)], of k] that(2) by (cases "kM s' k") (auto simp: holders_def)
  qed
  have ex: "\<exists>sched s'. run sched s = Some s' \<and> drains sched s \<and> length sched = work s \<and> (\<forall>t. kPc s' t = Idle)" if "reach s" for s
    using that
  proof (induction "work s" arbitrary: s)
    case 0
    with work_0 [OF reach_finite [OF 0(2)]] show ?case by (intro exI [of _ "[]"] exI [of _ s]) simp
  next
    case (Suc n)
    then obtain t where "kPc s t \<noteq> Idle" using work_0 [OF reach_finite [OF Suc(3)]] by force
    with some_thread_steps [OF Suc(3)] obtain u s1 where u: "kPc s u \<noteq> Idle" "fire u [] s = Some s1" by blast
    from work_step [OF reach_finite [OF Suc(3)] u] Suc(2) have "n = work s1" by simp
    from Suc(1) [OF this reach.step [OF Suc(3) u(2)]] obtain sched s' where
      "run sched s1 = Some s'" "drains sched s1" "length sched = work s1" "\<forall>t. kPc s' t = Idle" by blast
    with u Suc(2) \<open>n = work s1\<close> show ?case by (intro exI [of _ "(u, []) # sched"] exI [of _ s']) simp
  qed
  have "length sched \<le> work s \<and> ((\<forall>t. kPc s' t \<noteq> Idle \<longrightarrow> fire t [] s' = None) \<longrightarrow> (\<forall>t. kPc s' t = Idle) \<and> kM s' = Map.empty)"
    if r: "run sched s = Some s' \<and> drains sched s" for sched s'
  proof -
    have "reach s'" using run_reach [OF assms] r by blast
    with drain_work [OF reach_finite [OF assms]] r some_thread_steps [of s' _ "[]"] empty show ?thesis by fastforce
  qed
  with ex [OF assms] show ?thesis by blast
qed

theorem keyed_mutex_terminates_witness: "\<exists>sched s'. run sched demo_run = Some s' \<and> length sched = work demo_run \<and> (\<forall>t. kPc s' t = Idle)"
  using keyed_mutex_terminates [OF demo_run_reach] by blast

section \<open>Refinement of one lock per key\<close>

text \<open>The specification, by acting thread: a thread acquires a free key for itself or releases a key it owns.\<close>

inductive keyed_lock :: "tid \<Rightarrow> (string \<Rightarrow> tid option) \<Rightarrow> (string \<Rightarrow> tid option) \<Rightarrow> bool" where
  acquire: "own key = None \<Longrightarrow> keyed_lock t own (own(key \<mapsto> t))"
| release: "own key = Some t \<Longrightarrow> keyed_lock t own (own(key := None))"

definition owner :: "km_state \<Rightarrow> string \<Rightarrow> tid option" where
  "owner s key = (case kM s key of None \<Rightarrow> None | Some rm \<Rightarrow> kRmu s rm)"

text \<open>The owner of a key is the thread in its critical section.\<close>

lemma owner_crit:
  assumes "km_inv s"
  shows "owner s key = Some u \<longleftrightarrow> (\<exists>rm. kPc s u = Crit key rm)"
proof
  note D = km_invD [OF assms]
  assume "owner s key = Some u"
  then obtain rm where m: "kM s key = Some rm" "kRmu s rm = Some u" by (auto simp: owner_def split: option.splits)
  then obtain k where k: "kPc s u = Crit k rm" using D(3) [of rm u] by (cases "kPc s u") auto
  then have "kM s k = Some rm" using D(2) [of u k rm] by simp
  then show "\<exists>rm. kPc s u = Crit key rm" using D(6) [OF m(1)] k by blast
next
  note D = km_invD [OF assms]
  assume "\<exists>rm. kPc s u = Crit key rm"
  then obtain rm where "kPc s u = Crit key rm" ..
  then show "owner s key = Some u" using D(2) [of u key rm] D(3) [of rm u] by (simp add: owner_def)
qed

text \<open>C9. The reference-counted mutex implements one independent lock per key: every atomic step of
  every interleaving either leaves all locks as they are, or acquires a free one for the thread that takes the step, or releases
  one that thread holds; and the owner of a key is exactly the thread in its critical section, so that no two threads are in the
  critical section of one key. Deleting and re-creating entries never lets a second owner in or an owner out.\<close>

theorem keyed_mutex_refines:
  assumes "reach s" "fire t k s = Some s'"
  shows "(owner s' = owner s \<or> keyed_lock t (owner s) (owner s'))
    \<and> (\<forall>key u. owner s key = Some u \<longleftrightarrow> (\<exists>rm. kPc s u = Crit key rm))
    \<and> (\<forall>key u v rm rm'. kPc s u = Crit key rm \<and> kPc s v = Crit key rm' \<longrightarrow> u = v)"
proof -
  note inv = reach_inv [OF assms(1)]
  note D = km_invD [OF inv]
  have "owner s' = owner s \<or> keyed_lock t (owner s) (owner s')"
  proof (cases "kPc s t")
    case (InLock key)
    have "kRmu s (kNext s) = None"
      using D(3) [of "kNext s"] owns_holds D(2,4) by (metis less_irrefl not_None_eq)
    moreover have "k' \<noteq> key \<Longrightarrow> kM s k' = Some rm \<Longrightarrow> rm \<noteq> kNext s" for k' rm using D(4) [of k' rm] by simp
    ultimately have "owner s' = owner s"
      using InLock assms(2)
      by (auto simp: fire_def lock_entry_def owner_def Let_def fun_eq_iff split: option.splits if_splits)
    then show ?thesis ..
  next
    case (InUnlock key rm)
    have key: "kM s key = Some rm" using D(2) [of t] InUnlock by simp
    have "kRmu s rm = None" if "kRefs s rm = 1"
    proof (rule ccontr)
      assume "kRmu s rm \<noteq> None"
      then obtain u where "owns (kPc s u) = Some rm" using D(3) by fastforce
      then have "u \<noteq> t" "u \<in> holders s rm" "t \<in> holders s rm"
        using owns_holds [of "kPc s u"] InUnlock by (auto simp: holders_def)
      moreover have "card (holders s rm) = 1" using D(8) [OF D(4) [OF key]] that by simp
      ultimately show False by (metis card_1_singletonE singletonD)
    qed
    then have "owner s' = owner s"
      using InUnlock assms(2) key
      by (auto simp: fire_def unlock_entry_def owner_def Let_def fun_eq_iff split: option.splits if_splits)
    then show ?thesis ..
  next
    case (WaitM key rm)
    then have key: "kM s key = Some rm" using D(2) [of t] by simp
    have other: "kM s k' \<noteq> Some rm" if "k' \<noteq> key" for k' using D(6) [OF _ key, of k'] that by blast
    have "kRmu s rm = None" "owner s' = (owner s)(key \<mapsto> t)"
      using WaitM assms(2) key other
      by (auto simp: fire_def owner_def fun_eq_iff split: if_splits option.splits)
    then show ?thesis using keyed_lock.acquire [of "owner s" key t] key by (simp add: owner_def)
  next
    case (Crit key rm)
    then have key: "kM s key = Some rm" using D(2) [of t] by simp
    have other: "kM s k' \<noteq> Some rm" if "k' \<noteq> key" for k' using D(6) [OF _ key, of k'] that by blast
    have "kRmu s rm = Some t" using D(3) Crit by simp
    moreover have "owner s' = (owner s)(key := None)"
      using Crit assms(2) key other
      by (auto simp: fire_def owner_def fun_eq_iff split: if_splits option.splits)
    ultimately show ?thesis using keyed_lock.release [of "owner s" key t] key by (simp add: owner_def)
  qed (use assms(2) in \<open>auto simp: fire_def owner_def fun_eq_iff split: if_splits option.splits\<close>)
  with owner_crit [OF inv] keyed_mutual_exclusion [OF assms(1)] show ?thesis by blast
qed

theorem keyed_mutex_refines_witness: "\<exists>s'. fire 0 [] demo_run = Some s' \<and> owner demo_run ''a'' = Some 0 \<and> owner s' ''a'' = None
    \<and> keyed_lock 0 (owner demo_run) (owner s')"
proof -
  obtain s' where s': "fire 0 [] demo_run = Some s'" using demo_run_pc(1) by (auto simp: fire_def)
  note t = keyed_mutex_refines [OF demo_run_reach s']
  have o1: "owner demo_run ''a'' = Some 0" using t demo_run_pc(1) by blast
  have "kPc s' 0 = RelWait ''a'' 0" "kM s' = kM demo_run" "kRmu s' = (kRmu demo_run)(0 := None)"
    using s' demo_run_pc(1) by (auto simp: fire_def)
  moreover have "kM demo_run ''a'' = Some 0" by (simp add: demo_run_def fire_def km_init_def lock_entry_def Let_def)
  ultimately have "owner s' ''a'' = None" by (simp add: owner_def)
  with t o1 s' show ?thesis by fastforce
qed

end
