(* ===== verification/Hog_Prelude.thy ===== *)
theory Hog_Prelude
  imports Main "HOL-Library.AList"
begin

text \<open>
  Shared ground of the development: results (a Go pair \<open>(value, error)\<close> as a sum),
  the traversals of slices that stop at the first error, Go maps as association lists,
  and the named collections the component theories feed.

  A Go map is a list of entries with distinct keys. The order of the list is the order in
  which one \<open>range\<close> loop happens to visit the map, so a theorem about all such lists holds
  for every iteration order the Go runtime may choose. A nil map is the empty list: reading,
  ranging and \<open>len\<close> do not tell the two apart.
\<close>

named_theorems go_simps \<open>equations of the Go library operations\<close>
named_theorems cfg_defs \<open>definitions of the configuration parsers\<close>
named_theorems gate_defs \<open>definitions of the request gates\<close>

section \<open>Results\<close>

type_synonym ('e, 'a) result = "'e + 'a"

definition bindR :: "('e, 'a) result \<Rightarrow> ('a \<Rightarrow> ('e, 'b) result) \<Rightarrow> ('e, 'b) result" where
  "bindR m f = (case m of Inl e \<Rightarrow> Inl e | Inr x \<Rightarrow> f x)"

text \<open>\<open>guardR c e\<close> is the early return \<open>if c { return e }\<close>.\<close>

definition guardR :: "bool \<Rightarrow> 'e \<Rightarrow> ('e, 'b) result \<Rightarrow> ('e, 'b) result" where
  "guardR c e k = (if c then Inl e else k)"

definition mapErr :: "('e \<Rightarrow> 'f) \<Rightarrow> ('e, 'a) result \<Rightarrow> ('f, 'a) result" where
  "mapErr g m = (case m of Inl e \<Rightarrow> Inl (g e) | Inr x \<Rightarrow> Inr x)"

fun traverseR :: "('a \<Rightarrow> ('e, 'b) result) \<Rightarrow> 'a list \<Rightarrow> ('e, 'b list) result" where
  "traverseR f [] = Inr []"
| "traverseR f (x # xs) =
     (case f x of Inl e \<Rightarrow> Inl e
      | Inr y \<Rightarrow> (case traverseR f xs of Inl e \<Rightarrow> Inl e | Inr ys \<Rightarrow> Inr (y # ys)))"

fun foldR :: "('s \<Rightarrow> 'a \<Rightarrow> ('e, 's) result) \<Rightarrow> 's \<Rightarrow> 'a list \<Rightarrow> ('e, 's) result" where
  "foldR f s [] = Inr s"
| "foldR f s (x # xs) = (case f s x of Inl e \<Rightarrow> Inl e | Inr s' \<Rightarrow> foldR f s' xs)"

section \<open>Go maps\<close>

type_synonym ('k, 'v) gomap = "('k \<times> 'v) list"

abbreviation gm_get :: "('k, 'v) gomap \<Rightarrow> 'k \<Rightarrow> 'v option" where
  "gm_get \<equiv> map_of"

abbreviation gm_set :: "'k \<Rightarrow> 'v \<Rightarrow> ('k, 'v) gomap \<Rightarrow> ('k, 'v) gomap" where
  "gm_set \<equiv> AList.update"

abbreviation gm_del :: "'k \<Rightarrow> ('k, 'v) gomap \<Rightarrow> ('k, 'v) gomap" where
  "gm_del \<equiv> AList.delete"

definition gm_ok :: "('k, 'v) gomap \<Rightarrow> bool" where
  "gm_ok m \<longleftrightarrow> distinct (map fst m)"

text \<open>Reading a missing key of a string-valued map gives the zero value.\<close>

definition gm_str :: "('k, string) gomap \<Rightarrow> 'k \<Rightarrow> string" where
  "gm_str m k = (case gm_get m k of None \<Rightarrow> [] | Some v \<Rightarrow> v)"

section \<open>Lemmas on results\<close>

lemma bindR_simps [simp]:
  "bindR (Inl e) f = Inl e"
  "bindR (Inr x) f = f x"
  by (simp_all add: bindR_def)

lemma bindR_eq_Inr: "bindR m f = Inr y \<longleftrightarrow> (\<exists>x. m = Inr x \<and> f x = Inr y)"
  by (cases m) auto

lemma guardR_simps [simp]:
  "guardR True e k = Inl e"
  "guardR False e k = k"
  by (simp_all add: guardR_def)

lemma guardR_eq_Inr: "guardR c e k = Inr y \<longleftrightarrow> \<not> c \<and> k = Inr y"
  by (simp add: guardR_def)

lemma mapErr_eq_Inr [simp]: "mapErr g m = Inr y \<longleftrightarrow> m = Inr y"
  by (cases m) (auto simp: mapErr_def)

lemma mapErr_Inr [simp]: "mapErr g (Inr y) = Inr y"
  by (simp add: mapErr_def)

lemma mapErr_Inl [simp]: "mapErr g (Inl e) = Inl (g e)"
  by (simp add: mapErr_def)

lemmas result_inr = bindR_eq_Inr guardR_eq_Inr mapErr_eq_Inr

lemma traverseR_Inr:
  "traverseR f xs = Inr ys \<longleftrightarrow> list_all2 (\<lambda>x y. f x = Inr y) xs ys"
proof (induction xs arbitrary: ys)
  case Nil
  then show ?case by auto
next
  case (Cons x xs)
  have "(\<exists>zs. traverseR f xs = Inr zs \<and> ys = y # zs) \<longleftrightarrow>
      (\<exists>zs. list_all2 (\<lambda>x y. f x = Inr y) xs zs \<and> ys = y # zs)" for y
    by (simp add: Cons.IH)
  then show ?case
    by (cases "f x"; cases "traverseR f xs") (auto simp: list_all2_Cons1)
qed

lemma traverseR_length: "traverseR f xs = Inr ys \<Longrightarrow> length ys = length xs"
  by (simp add: traverseR_Inr list_all2_lengthD)

lemma foldR_append:
  "foldR f s (xs @ ys) = bindR (foldR f s xs) (\<lambda>s'. foldR f s' ys)"
  by (induction xs arbitrary: s) (auto split: sum.splits)

lemma foldR_invariant:
  assumes "foldR f s xs = Inr s'" and "P s"
    and "\<And>s x s'. x \<in> set xs \<Longrightarrow> P s \<Longrightarrow> f s x = Inr s' \<Longrightarrow> P s'"
  shows "P s'"
  using assms
proof (induction xs arbitrary: s)
  case Nil
  then show ?case by simp
next
  case (Cons x xs)
  from Cons.prems(1) obtain t where t: "f s x = Inr t" and r: "foldR f t xs = Inr s'"
    by (auto split: sum.splits)
  have "P t" using Cons.prems(2,3) t by (meson list.set_intros(1))
  then show ?case using Cons.IH [OF r] Cons.prems(3) by (meson list.set_intros(2))
qed

section \<open>Lemmas on Go maps\<close>

lemma gm_ok_Nil [simp]: "gm_ok []"
  by (simp add: gm_ok_def)

lemma gm_ok_set [simp]: "gm_ok m \<Longrightarrow> gm_ok (gm_set k v m)"
  by (simp add: gm_ok_def distinct_update)

lemma gm_ok_del [simp]: "gm_ok m \<Longrightarrow> gm_ok (gm_del k m)"
  by (simp add: gm_ok_def distinct_delete)

lemma gm_get_set: "gm_get (gm_set k v m) k' = (if k' = k then Some v else gm_get m k')"
  by (simp add: update_conv')

lemma gm_get_del: "gm_get (gm_del k m) k' = (if k' = k then None else gm_get m k')"
  by (simp add: delete_conv')

lemma gm_get_filter_key:
  "gm_get (filter (\<lambda>(k, v). P k) m) k = (if P k then gm_get m k else None)"
  by (induction m) auto

lemma gm_get_In: "gm_ok m \<Longrightarrow> (k, v) \<in> set m \<longleftrightarrow> gm_get m k = Some v"
  by (auto simp: gm_ok_def)

lemma gm_get_None: "gm_get m k = None \<longleftrightarrow> k \<notin> fst ` set m"
  by (simp add: map_of_eq_None_iff)

end
