(* ===== verification/Go_Strings.thy ===== *)
theory Go_Strings
  imports Hog_Prelude
begin

text \<open>
  The operations of Go's \<open>strings\<close>, \<open>slices\<close> and \<open>unicode/utf8\<close> packages the
  gateway uses. A Go string is a sequence of bytes, so it is a HOL \<open>string\<close>, whose characters
  are bytes; \<open>len\<close> is \<open>length\<close>.

  Case mapping of the non-ASCII letters is a table of the Unicode standard. It is an argument
  (\<open>ulower\<close>, \<open>uupper\<close>) of every definition that uses it, and no law about it is assumed
  except where a theorem says so.
\<close>

section \<open>Prefixes, search, splitting\<close>

definition HasPrefix :: "string \<Rightarrow> string \<Rightarrow> bool" where
  "HasPrefix s p \<longleftrightarrow> take (length p) s = p"

definition TrimPrefix :: "string \<Rightarrow> string \<Rightarrow> string" where
  "TrimPrefix s p = (if HasPrefix s p then drop (length p) s else s)"

fun Index :: "string \<Rightarrow> string \<Rightarrow> nat option" where
  "Index [] sub = (if sub = [] then Some 0 else None)"
| "Index (c # s) sub =
     (if HasPrefix (c # s) sub then Some 0 else map_option Suc (Index s sub))"

definition Contains :: "string \<Rightarrow> string \<Rightarrow> bool" where
  "Contains s sub \<longleftrightarrow> Index s sub \<noteq> None"

definition Cut :: "string \<Rightarrow> string \<Rightarrow> (string \<times> string) option" where
  "Cut s sep = (case Index s sep of None \<Rightarrow> None
     | Some i \<Rightarrow> Some (take i s, drop (i + length sep) s))"

fun Split :: "char \<Rightarrow> string \<Rightarrow> string list" where
  "Split c [] = [[]]"
| "Split c (x # xs) =
     (if x = c then [] # Split c xs
      else case Split c xs of [] \<Rightarrow> [[x]] | p # ps \<Rightarrow> (x # p) # ps)"

fun Join :: "string list \<Rightarrow> string \<Rightarrow> string" where
  "Join [] sep = []"
| "Join [x] sep = x"
| "Join (x # y # ys) sep = x @ sep @ Join (y # ys) sep"

fun SplitFunc :: "(char \<Rightarrow> bool) \<Rightarrow> string \<Rightarrow> string list" where
  "SplitFunc f [] = [[]]"
| "SplitFunc f (x # xs) =
     (if f x then [] # SplitFunc f xs
      else case SplitFunc f xs of [] \<Rightarrow> [[x]] | p # ps \<Rightarrow> (x # p) # ps)"

definition FieldsFunc :: "string \<Rightarrow> (char \<Rightarrow> bool) \<Rightarrow> string list" where
  "FieldsFunc s f = filter (\<lambda>p. p \<noteq> []) (SplitFunc f s)"

section \<open>ASCII case mapping\<close>

definition ascii :: "char \<Rightarrow> bool" where
  "ascii c \<longleftrightarrow> (of_char c :: nat) < 128"

definition byte_lower :: "char \<Rightarrow> char" where
  "byte_lower c = (let n = of_char c :: nat in if 65 \<le> n \<and> n \<le> 90 then char_of (n + 32) else c)"

definition byte_upper :: "char \<Rightarrow> char" where
  "byte_upper c = (let n = of_char c :: nat in if 97 \<le> n \<and> n \<le> 122 then char_of (n - 32) else c)"

text \<open>
  \<open>strings.EqualFold(s, t)\<close> where \<open>t\<close> is ASCII and as long as \<open>s\<close>: the runes
  of \<open>s\<close> then match those of \<open>t\<close> one by one only if every byte of \<open>s\<close> is ASCII
  too, because a longer encoding leaves \<open>s\<close> with fewer runes than \<open>t\<close> and an invalid
  byte decodes to the replacement rune, which folds to itself only.
\<close>

definition EqualFold :: "string \<Rightarrow> string \<Rightarrow> bool" where
  "EqualFold s t \<longleftrightarrow> map byte_lower s = map byte_lower t"

section \<open>UTF-8\<close>

definition byte :: "char \<Rightarrow> nat" where
  "byte c = of_char c"

definition RuneError :: nat where
  "RuneError = 65533"

definition cont :: "nat \<Rightarrow> bool" where
  "cont b \<longleftrightarrow> 128 \<le> b \<and> b < 192"

text \<open>
  \<open>utf8.DecodeRuneInString\<close> on a non-empty string: the rune and its width. Overlong
  forms, surrogates, values past U+10FFFF and truncated sequences give \<open>(RuneError, 1)\<close>.
\<close>

definition DecodeRune :: "string \<Rightarrow> nat \<times> nat" where
  "DecodeRune s = (case map byte s of
       [] \<Rightarrow> (RuneError, 0)
     | b0 # r \<Rightarrow>
         if b0 < 128 then (b0, 1)
         else if 194 \<le> b0 \<and> b0 < 224 then
           (case r of b1 # _ \<Rightarrow>
              if cont b1 then ((b0 - 192) * 64 + (b1 - 128), 2) else (RuneError, 1)
            | _ \<Rightarrow> (RuneError, 1))
         else if 224 \<le> b0 \<and> b0 < 240 then
           (case r of b1 # b2 # _ \<Rightarrow>
              if cont b1 \<and> cont b2 \<and> (b0 = 224 \<longrightarrow> 160 \<le> b1) \<and> (b0 = 237 \<longrightarrow> b1 < 160)
              then ((b0 - 224) * 4096 + (b1 - 128) * 64 + (b2 - 128), 3) else (RuneError, 1)
            | _ \<Rightarrow> (RuneError, 1))
         else if 240 \<le> b0 \<and> b0 < 245 then
           (case r of b1 # b2 # b3 # _ \<Rightarrow>
              if cont b1 \<and> cont b2 \<and> cont b3 \<and> (b0 = 240 \<longrightarrow> 144 \<le> b1) \<and> (b0 = 244 \<longrightarrow> b1 < 144)
              then ((b0 - 240) * 262144 + (b1 - 128) * 4096 + (b2 - 128) * 64 + (b3 - 128), 4)
              else (RuneError, 1)
            | _ \<Rightarrow> (RuneError, 1))
         else (RuneError, 1))"

definition EncodeRune :: "nat \<Rightarrow> string" where
  "EncodeRune r =
     (if r < 128 then [char_of r]
      else if r < 2048 then [char_of (192 + r div 64), char_of (128 + r mod 64)]
      else if r < 65536 \<and> \<not> (55296 \<le> r \<and> r < 57344) then
        [char_of (224 + r div 4096), char_of (128 + r div 64 mod 64), char_of (128 + r mod 64)]
      else if 65536 \<le> r \<and> r < 1114112 then
        [char_of (240 + r div 262144), char_of (128 + r div 4096 mod 64),
         char_of (128 + r div 64 mod 64), char_of (128 + r mod 64)]
      else [CHR 0xEF, CHR 0xBF, CHR 0xBD])"

lemma DecodeRune_width_pos: "s \<noteq> [] \<Longrightarrow> 0 < snd (DecodeRune s)"
  by (cases s) (auto simp: DecodeRune_def split: list.splits)

text \<open>The runes of a \<open>range\<close> loop over a string.\<close>

function runes :: "string \<Rightarrow> nat list" where
  "runes s = (if s = [] then [] else fst (DecodeRune s) # runes (drop (snd (DecodeRune s)) s))"
  by pat_completeness auto
termination
  by (relation "measure length") (auto simp: DecodeRune_width_pos)

declare runes.simps [simp del]

definition mapRunes :: "(nat \<Rightarrow> nat) \<Rightarrow> string \<Rightarrow> string" where
  "mapRunes f s = concat (map (EncodeRune \<circ> f) (runes s))"

definition ToLower :: "(nat \<Rightarrow> nat) \<Rightarrow> string \<Rightarrow> string" where
  "ToLower ulower s = (if list_all ascii s then map byte_lower s else mapRunes ulower s)"

definition ToUpper :: "(nat \<Rightarrow> nat) \<Rightarrow> string \<Rightarrow> string" where
  "ToUpper uupper s = (if list_all ascii s then map byte_upper s else mapRunes uupper s)"

definition ascii_rune_lower :: "nat \<Rightarrow> nat" where
  "ascii_rune_lower r = (if 65 \<le> r \<and> r \<le> 90 then r + 32 else r)"

section \<open>Trimming white space\<close>

text \<open>
  \<open>unicode.IsSpace\<close>: the 25 code points of the property White\_Space. A string starts (or
  ends) with a space rune exactly when it starts (or ends) with that rune's encoding, so
  \<open>strings.TrimSpace\<close> removes those encodings from both ends.
\<close>

definition space_runes :: "nat list" where
  "space_runes = [9, 10, 11, 12, 13, 32, 133, 160, 5760, 8192, 8193, 8194, 8195, 8196, 8197,
     8198, 8199, 8200, 8201, 8202, 8232, 8233, 8239, 8287, 12288]"

fun strip_any :: "string list \<Rightarrow> string \<Rightarrow> string option" where
  "strip_any [] s = None"
| "strip_any (p # ps) s =
     (if p \<noteq> [] \<and> HasPrefix s p then Some (drop (length p) s) else strip_any ps s)"

lemma strip_any_shorter: "strip_any ps s = Some t \<Longrightarrow> length t < length s"
proof (induction ps)
  case Nil
  then show ?case by simp
next
  case (Cons p ps)
  show ?case
  proof (cases "p \<noteq> [] \<and> HasPrefix s p")
    case True
    then have "take (length p) s = p" and "0 < length p"
      by (auto simp: HasPrefix_def)
    then have "0 < length s"
      by (metis length_greater_0_conv take_eq_Nil)
    with True Cons.prems \<open>0 < length p\<close> show ?thesis by auto
  next
    case False
    with Cons show ?thesis by auto
  qed
qed

function trim_left :: "string list \<Rightarrow> string \<Rightarrow> string" where
  "trim_left ps s = (case strip_any ps s of None \<Rightarrow> s | Some t \<Rightarrow> trim_left ps t)"
  by pat_completeness auto
termination
  by (relation "measure (\<lambda>(ps, s). length s)") (auto dest: strip_any_shorter)

declare trim_left.simps [simp del]

definition TrimSpace :: "string \<Rightarrow> string" where
  "TrimSpace s =
     (let enc = map EncodeRune space_runes;
          l = trim_left enc s
      in rev (trim_left (map rev enc) (rev l)))"

section \<open>Laws\<close>

lemma HasPrefix_iff: "HasPrefix s p \<longleftrightarrow> (\<exists>t. s = p @ t)"
  unfolding HasPrefix_def by (metis append_eq_conv_conj append_take_drop_id)

lemma HasPrefix_Nil [simp]: "HasPrefix s []"
  by (simp add: HasPrefix_def)

lemma HasPrefix_append [simp]: "HasPrefix (p @ t) p"
  by (simp add: HasPrefix_def)

lemma HasPrefix_Cons [simp]: "HasPrefix (x # s) (y # p) \<longleftrightarrow> x = y \<and> HasPrefix s p"
  by (auto simp: HasPrefix_def)

lemma HasPrefix_Nil_left [simp]: "HasPrefix [] (y # p) \<longleftrightarrow> False"
  by (simp add: HasPrefix_def)

lemma TrimPrefix_append [simp]: "TrimPrefix (p @ t) p = t"
  by (simp add: TrimPrefix_def)

lemma Index_Some: "Index s sub = Some i \<Longrightarrow> s = take i s @ sub @ drop (i + length sub) s"
proof (induction s arbitrary: i)
  case Nil
  then show ?case by (auto split: if_splits)
next
  case (Cons c s)
  show ?case
  proof (cases "HasPrefix (c # s) sub")
    case True
    with Cons.prems have "i = 0" by simp
    with True show ?thesis
      by (simp add: HasPrefix_def) (metis append_take_drop_id)
  next
    case False
    with Cons.prems obtain j where j: "Index s sub = Some j" and "i = Suc j" by auto
    with Cons.IH [OF j] show ?thesis by simp
  qed
qed

lemma Index_le: "Index s sub = Some i \<Longrightarrow> i + length sub \<le> length s"
proof (induction s arbitrary: i)
  case Nil
  then show ?case by (auto split: if_splits)
next
  case (Cons c s)
  show ?case
  proof (cases "HasPrefix (c # s) sub")
    case True
    then obtain t where "c # s = sub @ t" by (auto simp: HasPrefix_iff)
    then have "length (c # s) = length sub + length t" by (metis length_append)
    with True Cons.prems show ?thesis by simp
  next
    case False
    with Cons show ?thesis by auto
  qed
qed

lemma Index_None: "Index s sub = None \<longleftrightarrow> (\<forall>a b. s \<noteq> a @ sub @ b)"
proof (induction s)
  case Nil
  then show ?case by auto
next
  case (Cons c s)
  show ?case
  proof (cases "HasPrefix (c # s) sub")
    case True
    then obtain t where "c # s = [] @ sub @ t" by (auto simp: HasPrefix_iff)
    then have "\<not> (\<forall>a b. c # s \<noteq> a @ sub @ b)" by blast
    with True show ?thesis by simp
  next
    case False
    have "(\<exists>a b. c # s = a @ sub @ b) \<longleftrightarrow> (\<exists>a b. s = a @ sub @ b)"
    proof
      assume "\<exists>a b. c # s = a @ sub @ b"
      then obtain a b where ab: "c # s = a @ sub @ b" by blast
      with False have "a \<noteq> []" by (auto simp: HasPrefix_iff)
      with ab show "\<exists>a b. s = a @ sub @ b" by (cases a) auto
    next
      assume "\<exists>a b. s = a @ sub @ b"
      then show "\<exists>a b. c # s = a @ sub @ b" by (metis append_Cons)
    qed
    with False Cons.IH show ?thesis by simp blast
  qed
qed

lemma Contains_iff: "Contains s sub \<longleftrightarrow> (\<exists>a b. s = a @ sub @ b)"
  by (simp add: Contains_def Index_None del: not_None_eq)

lemma Index_first:
  "Index s sub = Some i \<Longrightarrow> j < i \<Longrightarrow> \<not> HasPrefix (drop j s) sub"
proof (induction s arbitrary: i j)
  case Nil
  then show ?case by (auto split: if_splits)
next
  case (Cons c s)
  then show ?case by (cases j) (auto split: if_splits)
qed

lemma Split_nonempty [simp]: "Split c s \<noteq> []"
  by (cases s) (auto split: list.splits)

lemma Split_no_sep: "c \<notin> set s \<Longrightarrow> Split c s = [s]"
  by (induction s) auto

lemma Split_append: "c \<notin> set a \<Longrightarrow> Split c (a @ c # b) = a # Split c b"
  by (induction a) auto

lemma Join_Cons: "ys \<noteq> [] \<Longrightarrow> Join (x # ys) sep = x @ sep @ Join ys sep"
  by (cases ys) auto

lemma Join_Split: "Join (Split c s) [c] = s"
proof (induction s)
  case Nil
  then show ?case by simp
next
  case (Cons x s)
  obtain p ps where ps: "Split c s = p # ps"
    using Split_nonempty by (meson neq_Nil_conv)
  with Cons show ?case
    by (cases ps) auto
qed

lemma Split_pieces: "p \<in> set (Split c s) \<Longrightarrow> c \<notin> set p"
proof (induction s arbitrary: p)
  case Nil
  then show ?case by simp
next
  case (Cons x s)
  then show ?case
    by (cases "Split c s") (auto split: if_splits)
qed

lemma Split_subset: "p \<in> set (Split c s) \<Longrightarrow> set p \<subseteq> set s"
proof (induction s arbitrary: p)
  case Nil
  then show ?case by simp
next
  case (Cons x s)
  then show ?case
    by (cases "Split c s") (fastforce split: if_splits)+
qed

lemma ascii_lower: "ascii c \<Longrightarrow> ascii (byte_lower c)"
  by (auto simp: ascii_def byte_lower_def Let_def)

lemma byte_lower_idem [simp]: "byte_lower (byte_lower c) = byte_lower c"
  by (auto simp: byte_lower_def Let_def)

lemma ToLower_ascii: "list_all ascii s \<Longrightarrow> ToLower u s = map byte_lower s"
  by (simp add: ToLower_def)

lemma ToLower_ascii_idem: "list_all ascii s \<Longrightarrow> ToLower u (ToLower u s) = ToLower u s"
  by (simp add: ToLower_def list_all_length ascii_lower)

lemma runes_Nil [simp]: "runes [] = []"
  by (simp add: runes.simps)

lemma runes_ascii_Cons: "ascii c \<Longrightarrow> runes (c # s) = byte c # runes s"
  by (subst runes.simps) (simp add: DecodeRune_def ascii_def byte_def)

end
