(* ===== verification/Go_Codec.thy ===== *)
theory Go_Codec
  imports Go_Strings
begin

text \<open>
  The text encodings of Go's library that the gateway relies on, executable and with their
  round trips: \<open>strconv.Itoa\<close> / \<open>Atoi\<close>, \<open>encoding/hex\<close>, and the two base64
  alphabets of \<open>encoding/base64\<close> (\<open>RawURLEncoding\<close> without padding and
  \<open>StdEncoding\<close> with padding; both skip CR and LF and ignore trailing bits, as Go's
  non-strict decoders do).
\<close>

section \<open>Decimal integers\<close>

definition digit :: "nat \<Rightarrow> char" where
  "digit d = char_of (48 + d)"

fun Itoa :: "nat \<Rightarrow> string" where
  "Itoa n = (if n < 10 then [digit n] else Itoa (n div 10) @ [digit (n mod 10)])"

declare Itoa.simps [simp del]

definition isDigit :: "char \<Rightarrow> bool" where
  "isDigit c \<longleftrightarrow> 48 \<le> byte c \<and> byte c \<le> 57"

definition digits_val :: "string \<Rightarrow> nat" where
  "digits_val s = foldl (\<lambda>n c. n * 10 + (byte c - 48)) 0 s"

text \<open>\<open>strconv.Atoi\<close> on a 64-bit platform: an optional sign, digits only, in range.\<close>

definition Atoi :: "string \<Rightarrow> int option" where
  "Atoi s =
     (let neg = HasPrefix s ''-'';
          ds = (if HasPrefix s ''-'' \<or> HasPrefix s ''+'' then tl s else s);
          v = int (digits_val ds)
      in if ds = [] \<or> \<not> list_all isDigit ds then None
         else if neg then (if v \<le> 2 ^ 63 then Some (- v) else None)
         else (if v < 2 ^ 63 then Some v else None))"

definition Itoa_int :: "int \<Rightarrow> string" where
  "Itoa_int i = (if i < 0 then CHR ''-'' # Itoa (nat (- i)) else Itoa (nat i))"

section \<open>Hexadecimal\<close>

definition hex_digit :: "nat \<Rightarrow> char" where
  "hex_digit d = (if d < 10 then char_of (48 + d) else char_of (87 + d))"

definition hex_encode :: "string \<Rightarrow> string" where
  "hex_encode s = concat (map (\<lambda>c. [hex_digit (byte c div 16), hex_digit (byte c mod 16)]) s)"

section \<open>Base64\<close>

type_synonym alphabet = "char \<times> char"

definition url_alphabet :: alphabet where
  "url_alphabet = (CHR ''-'', CHR ''_'')"

definition std_alphabet :: alphabet where
  "std_alphabet = (CHR ''+'', CHR ''/'')"

definition b64_char :: "alphabet \<Rightarrow> nat \<Rightarrow> char" where
  "b64_char a n =
     (if n < 26 then char_of (65 + n) else if n < 52 then char_of (71 + n)
      else if n < 62 then char_of (n - 4) else if n = 62 then fst a else snd a)"

definition b64_val :: "alphabet \<Rightarrow> char \<Rightarrow> nat option" where
  "b64_val a c =
     (let n = byte c in
      if 65 \<le> n \<and> n \<le> 90 then Some (n - 65)
      else if 97 \<le> n \<and> n \<le> 122 then Some (n - 71)
      else if 48 \<le> n \<and> n \<le> 57 then Some (n + 4)
      else if c = fst a then Some 62 else if c = snd a then Some 63 else None)"

fun sextets :: "nat list \<Rightarrow> nat list" where
  "sextets [] = []"
| "sextets [a] = [a div 4, a mod 4 * 16]"
| "sextets [a, b] = [a div 4, a mod 4 * 16 + b div 16, b mod 16 * 4]"
| "sextets (a # b # c # r) =
     a div 4 # (a mod 4 * 16 + b div 16) # (b mod 16 * 4 + c div 64) # c mod 64 # sextets r"

fun octets :: "nat list \<Rightarrow> nat list option" where
  "octets [] = Some []"
| "octets [a] = None"
| "octets [a, b] = Some [a * 4 + b div 16]"
| "octets [a, b, c] = Some [a * 4 + b div 16, b mod 16 * 16 + c div 4]"
| "octets (a # b # c # d # r) =
     map_option (\<lambda>t. (a * 4 + b div 16) # (b mod 16 * 16 + c div 4) # (c mod 4 * 64 + d) # t)
       (octets r)"

fun those_map :: "('a \<Rightarrow> 'b option) \<Rightarrow> 'a list \<Rightarrow> 'b list option" where
  "those_map f [] = Some []"
| "those_map f (x # xs) =
     (case f x of None \<Rightarrow> None | Some y \<Rightarrow> map_option ((#) y) (those_map f xs))"

definition no_newlines :: "string \<Rightarrow> string" where
  "no_newlines s = filter (\<lambda>c. c \<noteq> CHR 0x0A \<and> c \<noteq> CHR 0x0D) s"

definition b64_raw_encode :: "alphabet \<Rightarrow> string \<Rightarrow> string" where
  "b64_raw_encode a s = map (b64_char a) (sextets (map byte s))"

definition b64_raw_decode :: "alphabet \<Rightarrow> string \<Rightarrow> string option" where
  "b64_raw_decode a s =
     (case those_map (b64_val a) (no_newlines s) of None \<Rightarrow> None
      | Some vs \<Rightarrow> map_option (map char_of) (octets vs))"

text \<open>With padding: the length is a multiple of four and one or two \<open>=\<close> may end the text.\<close>

definition b64_pad_decode :: "alphabet \<Rightarrow> string \<Rightarrow> string option" where
  "b64_pad_decode a s =
     (let t = no_newlines s;
          p = (if length t \<ge> 2 \<and> drop (length t - 2) t = ''=='' then 2
               else if length t \<ge> 1 \<and> last t = CHR ''='' then 1 else 0)
      in if length t mod 4 \<noteq> 0 then None else b64_raw_decode a (take (length t - p) t))"

abbreviation RawURLEncode :: "string \<Rightarrow> string" where
  "RawURLEncode \<equiv> b64_raw_encode url_alphabet"

abbreviation RawURLDecode :: "string \<Rightarrow> string option" where
  "RawURLDecode \<equiv> b64_raw_decode url_alphabet"

abbreviation StdDecode :: "string \<Rightarrow> string option" where
  "StdDecode \<equiv> b64_pad_decode std_alphabet"

section \<open>Round trips\<close>

lemma byte_less [simp]: "byte c < 256"
  using nat_of_char_less_256 [of c] by (simp add: byte_def)

lemma char_of_byte [simp]: "char_of (byte c) = c"
  by (simp add: byte_def)

lemma byte_char_of [simp]: "byte (char_of n) = n mod 256"
  by (simp add: byte_def)

lemma byte_inject: "byte a = byte b \<longleftrightarrow> a = b"
  by (metis char_of_byte)

lemma byte_digit [simp]: "d < 10 \<Longrightarrow> byte (digit d) = 48 + d"
  by (simp add: digit_def)

lemma isDigit_digit [simp]: "d < 10 \<Longrightarrow> isDigit (digit d)"
  by (simp add: isDigit_def)

lemma Itoa_digits: "list_all isDigit (Itoa n)"
proof (induction n rule: Itoa.induct)
  case (1 n)
  then show ?case by (subst Itoa.simps) auto
qed

lemma Itoa_nonempty [simp]: "Itoa n \<noteq> []"
  by (subst Itoa.simps) auto

lemma digits_val_snoc: "digits_val (s @ [c]) = digits_val s * 10 + (byte c - 48)"
  by (simp add: digits_val_def)

lemma digits_val_Itoa [simp]: "digits_val (Itoa n) = n"
proof (induction n rule: Itoa.induct)
  case (1 n)
  show ?case
  proof (cases "n < 10")
    case True
    then show ?thesis by (subst Itoa.simps) (simp add: digits_val_def)
  next
    case False
    then have "digits_val (Itoa n) = digits_val (Itoa (n div 10)) * 10 + n mod 10"
      by (subst Itoa.simps) (simp add: digits_val_snoc)
    with False "1" show ?thesis by simp
  qed
qed

lemma isDigit_not_sign: "isDigit c \<Longrightarrow> c \<noteq> CHR ''-'' \<and> c \<noteq> CHR ''+''"
  by (auto simp: isDigit_def byte_def)

lemma Itoa_no_sign: "\<not> HasPrefix (Itoa n) ''-'' \<and> \<not> HasPrefix (Itoa n) ''+''"
proof -
  obtain c s where cs: "Itoa n = c # s" by (meson Itoa_nonempty neq_Nil_conv)
  then have "isDigit c" using Itoa_digits [of n] by simp
  then show ?thesis using cs isDigit_not_sign by simp
qed

lemma Atoi_Itoa: "int n < 2 ^ 63 \<Longrightarrow> Atoi (Itoa n) = Some (int n)"
  by (simp add: Atoi_def Itoa_no_sign Itoa_digits)

lemma Itoa_inject: "Itoa m = Itoa n \<longleftrightarrow> m = n"
  by (metis digits_val_Itoa)

lemma b64_val_char:
  "n < 64 \<Longrightarrow> a = url_alphabet \<or> a = std_alphabet \<Longrightarrow> b64_val a (b64_char a n) = Some n"
  by (auto simp: b64_val_def b64_char_def Let_def url_alphabet_def std_alphabet_def byte_def)

lemma sextets_less: "\<forall>x \<in> set bs. x < 256 \<Longrightarrow> \<forall>x \<in> set (sextets bs). x < 64"
proof (induction bs rule: sextets.induct)
  case (4 a b c r)
  have "a mod 4 * 16 + b div 16 < 64" "b mod 16 * 4 + c div 64 < 64" "c mod 64 < 64"
    using "4.prems" by (simp_all, arith+)
  with 4 show ?case by auto
next
  case (3 a b)
  then have "a mod 4 * 16 + b div 16 < 64" by (simp, arith)
  with 3 show ?case by auto
qed auto

lemma pack_div: "(y::nat) < k \<Longrightarrow> (x * k + y) div k = x"
  by simp

lemma pack_mod: "(y::nat) < k \<Longrightarrow> (x * k + y) mod k = y"
  by simp

lemma octets_sextets: "\<forall>x \<in> set bs. x < 256 \<Longrightarrow> octets (sextets bs) = Some bs"
proof (induction bs rule: sextets.induct)
  case (4 a b c r)
  then have bd: "b div 16 < 16" and cd: "c div 64 < 4" by auto
  show ?case
    using "4.IH" "4.prems"
    by (simp add: pack_div [OF bd] pack_mod [OF bd] pack_div [OF cd] pack_mod [OF cd]
        del: div_mult_self3 mod_mult_self3)
next
  case (3 a b)
  then have bd: "b div 16 < 16" by auto
  show ?case by (simp add: pack_div [OF bd] pack_mod [OF bd] del: div_mult_self3 mod_mult_self3)
next
  case (2 a)
  then show ?case by simp
qed auto

lemma those_map_map:
  "(\<And>x. x \<in> set xs \<Longrightarrow> f (g x) = Some x) \<Longrightarrow> those_map f (map g xs) = Some xs"
  by (induction xs) auto

text \<open>Every byte of a base64url text is printable and none is a quote, comma, dot, semicolon or
  backslash, so the text passes unchanged through cookies, headers and dotted tokens.\<close>

definition plain_byte :: "char \<Rightarrow> bool" where
  "plain_byte c \<longleftrightarrow> 33 \<le> byte c \<and> byte c < 127 \<and> byte c \<notin> {34, 44, 46, 59, 92}"

lemma b64_char_plain: "n < 64 \<Longrightarrow> plain_byte (b64_char url_alphabet n)"
proof -
  assume "n < 64"
  then consider "n < 26" | "26 \<le> n" "n < 52" | "52 \<le> n" "n < 62" | "n = 62" | "n = 63"
    by linarith
  then show ?thesis
    by cases (auto simp: plain_byte_def b64_char_def url_alphabet_def byte_def)
qed

lemma RawURLEncode_plain: "c \<in> set (RawURLEncode s) \<Longrightarrow> plain_byte c"
  using b64_char_plain sextets_less [of "map byte s"]
  by (auto simp: b64_raw_encode_def)

lemma plain_not_newline: "plain_byte c \<Longrightarrow> c \<noteq> CHR 0x0A \<and> c \<noteq> CHR 0x0D"
  by (auto simp: plain_byte_def byte_def)

lemma RawURLEncode_no_dot: "CHR ''.'' \<notin> set (RawURLEncode s)"
  using RawURLEncode_plain [of "CHR ''.''" s] by (auto simp: plain_byte_def byte_def)

lemma RawURL_round_trip: "RawURLDecode (RawURLEncode s) = Some s"
proof -
  have less: "\<forall>x \<in> set (sextets (map byte s)). x < 64"
    by (rule sextets_less) simp
  have "no_newlines (RawURLEncode s) = RawURLEncode s"
    using RawURLEncode_plain plain_not_newline by (auto simp: no_newlines_def filter_id_conv)
  moreover have "those_map (b64_val url_alphabet) (RawURLEncode s) = Some (sextets (map byte s))"
    unfolding b64_raw_encode_def using less by (intro those_map_map b64_val_char) auto
  ultimately show ?thesis
    by (simp add: b64_raw_decode_def octets_sextets o_def)
qed

lemma RawURLEncode_inject: "RawURLEncode a = RawURLEncode b \<longleftrightarrow> a = b"
  by (metis RawURL_round_trip option.inject)

lemma RawURLEncode_nonempty: "s \<noteq> [] \<Longrightarrow> RawURLEncode s \<noteq> []"
  by (cases "map byte s" rule: sextets.cases) (auto simp: b64_raw_encode_def)

section \<open>Trimming a text that starts and ends with graphic characters\<close>

definition graphic :: "char \<Rightarrow> bool" where
  "graphic c \<longleftrightarrow> 33 \<le> byte c \<and> byte c < 127"

lemma space_enc_ends: "e \<in> set (map EncodeRune space_runes) \<Longrightarrow> e \<noteq> [] \<and> \<not> graphic (hd e) \<and> \<not> graphic (last e)"
  by (auto simp: space_runes_def EncodeRune_def graphic_def byte_def)

lemma strip_any_None: "\<forall>p \<in> set ps. p \<noteq> [] \<and> hd p \<noteq> c \<Longrightarrow> strip_any ps (c # s) = None"
proof (induction ps)
  case (Cons p ps)
  then show ?case by (cases p) auto
qed simp

lemma trim_left_graphic: "\<forall>p \<in> set ps. p \<noteq> [] \<and> hd p \<noteq> c \<Longrightarrow> trim_left ps (c # s) = c # s"
  by (subst trim_left.simps) (simp add: strip_any_None)

lemma TrimSpace_graphic:
  assumes "graphic (hd s)" "graphic (last s)" "s \<noteq> []"
  shows "TrimSpace s = s"
proof -
  let ?enc = "map EncodeRune space_runes"
  obtain c t where s: "s = c # t" using assms by (cases s) auto
  obtain d u where r: "rev s = d # u" using assms by (cases "rev s") auto
  have d: "d = last s" using r by (metis hd_rev list.sel(1))
  have e: "e \<noteq> [] \<and> hd e \<noteq> c \<and> hd (rev e) \<noteq> d" if "e \<in> set ?enc" for e
    using space_enc_ends [OF that] assms s d by (auto simp: hd_rev)
  have l: "trim_left ?enc s = s" unfolding s by (rule trim_left_graphic) (use e in auto)
  have rr: "trim_left (map rev ?enc) (rev s) = rev s" unfolding r by (rule trim_left_graphic) (use e in auto)
  show ?thesis by (simp only: TrimSpace_def Let_def l rr rev_rev_ident)
qed

end
