(* ===== verification/Go_Any.thy ===== *)
theory Go_Any
  imports Go_Codec "HOL-Library.List_Lexorder" "HOL-Library.Char_ord"
begin

text \<open>
  The dynamic values (\<open>any\<close>) that token claims, userinfo documents and policy inputs carry,
  and what \<open>fmt.Sprint\<close> prints for them. A number is represented by its printed text: the
  gateway prints claim numbers and does no arithmetic on them. \<open>VStrs\<close> is a
  \<open>[]string\<close>, \<open>VList\<close> a \<open>[]any\<close>.
\<close>

datatype any =
    VNil
  | VBool bool
  | VNum string
  | VStr string
  | VStrs "string list"
  | VList "any list"
  | VMap "(string \<times> any) list"

type_synonym claims = "(string, any) gomap"

function (sequential) Sprint :: "any \<Rightarrow> string" where
  "Sprint VNil = ''<nil>''"
| "Sprint (VBool b) = (if b then ''true'' else ''false'')"
| "Sprint (VNum s) = s"
| "Sprint (VStr s) = s"
| "Sprint (VStrs ss) = ''['' @ Join ss '' '' @ '']''"
| "Sprint (VList vs) = ''['' @ Join (map Sprint vs) '' '' @ '']''"
| "Sprint (VMap m) =
     ''map['' @ Join (map (\<lambda>(k, t). k @ '':'' @ t) (sort_key fst (map (\<lambda>(k, v). (k, Sprint v)) m))) '' '' @ '']''"
  by pat_completeness auto
termination
proof (relation "measure size", goal_cases)
  case 1
  show ?case by simp
next
  case (2 vs v)
  then show ?case by (simp add: less_Suc_eq_le size_list_estimation')
next
  case (3 m p k v)
  from 3(2) have "size v \<le> size_prod (\<lambda>x. 0) size p" by (cases p) auto
  also have "\<dots> < Suc (size_list (size_prod (\<lambda>x. 0) size) m)"
    using 3 by (simp add: less_Suc_eq_le size_list_estimation')
  finally show ?case by simp
qed

text \<open>\<open>v.(string)\<close>: the string a value holds, if it holds one.\<close>

definition as_string :: "any \<Rightarrow> string option" where
  "as_string v = (case v of VStr s \<Rightarrow> Some s | _ \<Rightarrow> None)"

text \<open>The string of a map entry, \<open>v, ok := m[k].(string)\<close>.\<close>

definition str_claim :: "claims \<Rightarrow> string \<Rightarrow> string option" where
  "str_claim m k = (case gm_get m k of None \<Rightarrow> None | Some v \<Rightarrow> as_string v)"

end
