(* ===== verification/Http_Model.thy ===== *)
theory Http_Model
  imports Go_Any
begin

text \<open>
  The part of \<open>net/http\<close> the gateway is written against: header maps with canonical
  keys, requests with their context values, response writers with their cookies, handlers and
  middlewares. A handler transforms a world (the response being written, the clock readings and
  random bytes still to come, the state of the external services, the access log) and either
  returns or panics.

  A request carries its parsed cookies (\<open>r.Cookies()\<close>) and path values beside the header
  map. \<open>http.SetCookie\<close> adds a structured cookie; a cookie with an invalid name is dropped
  and invalid bytes of the value are removed, as \<open>Cookie.String\<close> does. \<open>Redirect\<close>
  records the target it is given as the Location header; the cosmetic clean-up
  \<open>http.Redirect\<close> applies to dot segments and non-ASCII bytes of a local path is left out.
\<close>

section \<open>Headers\<close>

type_synonym header = "(string, string list) gomap"

definition tokenByte :: "char \<Rightarrow> bool" where
  "tokenByte c \<longleftrightarrow> (let n = byte c in
     48 \<le> n \<and> n \<le> 57 \<or> 65 \<le> n \<and> n \<le> 90 \<or> 97 \<le> n \<and> n \<le> 122
     \<or> n \<in> {33, 35, 36, 37, 38, 39, 42, 43, 45, 46, 94, 95, 96, 124, 126})"

fun canon_go :: "bool \<Rightarrow> string \<Rightarrow> string" where
  "canon_go u [] = []"
| "canon_go u (c # s) =
     (if u then byte_upper c else byte_lower c) # canon_go (c = CHR ''-'') s"

definition CanonicalHeaderKey :: "string \<Rightarrow> string" where
  "CanonicalHeaderKey s = (if list_all tokenByte s then canon_go True s else s)"

definition hGet :: "header \<Rightarrow> string \<Rightarrow> string" where
  "hGet h k = (case gm_get h (CanonicalHeaderKey k) of Some (v # _) \<Rightarrow> v | _ \<Rightarrow> [])"

definition hSet :: "string \<Rightarrow> string \<Rightarrow> header \<Rightarrow> header" where
  "hSet k v h = gm_set (CanonicalHeaderKey k) [v] h"

definition hDel :: "string \<Rightarrow> header \<Rightarrow> header" where
  "hDel k h = gm_del (CanonicalHeaderKey k) h"

definition hDelAll :: "string list \<Rightarrow> header \<Rightarrow> header" where
  "hDelAll ks h = foldl (\<lambda>h k. hDel k h) h ks"

text \<open>Headers as \<open>net/http\<close> delivers them: distinct keys, all canonical.\<close>

definition header_ok :: "header \<Rightarrow> bool" where
  "header_ok h \<longleftrightarrow> gm_ok h \<and> (\<forall>k \<in> fst ` set h. CanonicalHeaderKey k = k)"

section \<open>Requests\<close>

record principal =
  Subject :: string
  Passport :: claims
  Groups :: "string list"
  AccessToken :: string
  SessionID :: string

record reqctx =
  ctxPrincipal :: "principal option"
  ctxBearerError :: bool
  ctxAssertionHeader :: string

record request =
  rMethod :: string
  rPath :: string
  rRawQuery :: string
  rRequestURI :: string
  rHost :: string
  rRemoteAddr :: string
  rPattern :: string
  rProto :: string
  rHeader :: header
  rCookies :: "(string \<times> string) list"
  rPathValues :: "(string, string) gomap"
  rCtx :: reqctx

text \<open>\<open>session.WithPrincipal\<close> and \<open>session.FromContext\<close>. A nil pointer stored in the
  context counts as absent, so the context holds an option.\<close>

definition WithPrincipal :: "principal \<Rightarrow> request \<Rightarrow> request" where
  "WithPrincipal p r = r\<lparr>rCtx := (rCtx r)\<lparr>ctxPrincipal := Some p\<rparr>\<rparr>"

definition FromContext :: "request \<Rightarrow> principal option" where
  "FromContext r = ctxPrincipal (rCtx r)"

definition InGroup :: "request \<Rightarrow> string \<Rightarrow> bool" where
  "InGroup r g = (case FromContext r of Some p \<Rightarrow> g \<in> set (Groups p) | None \<Rightarrow> False)"

definition Claim :: "request \<Rightarrow> string \<Rightarrow> any option" where
  "Claim r name = (case FromContext r of Some p \<Rightarrow> gm_get (Passport p) name | None \<Rightarrow> None)"

definition reqGet :: "request \<Rightarrow> string \<Rightarrow> string" where
  "reqGet r k = hGet (rHeader r) k"

definition mapHeader :: "(header \<Rightarrow> header) \<Rightarrow> request \<Rightarrow> request" where
  "mapHeader f r = r\<lparr>rHeader := f (rHeader r)\<rparr>"

text \<open>\<open>r.Cookie(name)\<close>: the first cookie of that name.\<close>

definition reqCookie :: "request \<Rightarrow> string \<Rightarrow> string option" where
  "reqCookie r name = map_of (rCookies r) name"

section \<open>Responses\<close>

record setcookie =
  ckName :: string
  ckValue :: string
  ckPath :: string
  ckHttpOnly :: bool
  ckSecure :: bool
  ckSameSiteLax :: bool
  ckMaxAge :: int

record response =
  wHeader :: header
  wStatus :: "nat option"
  wLast :: "nat option"
  wBody :: string
  wCookies :: "setcookie list"

definition empty_response :: response where
  "empty_response = \<lparr>wHeader = [], wStatus = None, wLast = None, wBody = [], wCookies = []\<rparr>"

record 'st world =
  resp :: response
  clk :: "nat \<Rightarrow> int"
  tpos :: nat
  ent :: "nat \<Rightarrow> char"
  epos :: nat
  ext :: 'st
  alog :: "(string \<times> string) list list"

text \<open>\<open>time.Now()\<close>, in nanoseconds: the next clock reading. \<open>rand.Read\<close>: the next bytes.\<close>

definition now :: "'st world \<Rightarrow> int" where
  "now w = clk w (tpos w)"

definition tick :: "'st world \<Rightarrow> 'st world" where
  "tick w = w\<lparr>tpos := Suc (tpos w)\<rparr>"

definition randBytes :: "nat \<Rightarrow> 'st world \<Rightarrow> string" where
  "randBytes n w = map (ent w) [epos w ..< epos w + n]"

definition useRand :: "nat \<Rightarrow> 'st world \<Rightarrow> 'st world" where
  "useRand n w = w\<lparr>epos := epos w + n\<rparr>"

definition wGet :: "'st world \<Rightarrow> string \<Rightarrow> string" where
  "wGet w k = hGet (wHeader (resp w)) k"

definition wSet :: "string \<Rightarrow> string \<Rightarrow> 'st world \<Rightarrow> 'st world" where
  "wSet k v w = w\<lparr>resp := (resp w)\<lparr>wHeader := hSet k v (wHeader (resp w))\<rparr>\<rparr>"

definition wDel :: "string \<Rightarrow> 'st world \<Rightarrow> 'st world" where
  "wDel k w = w\<lparr>resp := (resp w)\<lparr>wHeader := hDel k (wHeader (resp w))\<rparr>\<rparr>"

text \<open>Only the first \<open>WriteHeader\<close> decides the status that is sent; \<open>wLast\<close>
  keeps the code of the last explicit call, which is what a recording writer sees. A
  \<open>Write\<close> without a \<open>WriteHeader\<close> sends 200.\<close>

definition sendStatus :: "nat \<Rightarrow> response \<Rightarrow> response" where
  "sendStatus code p = (case wStatus p of Some _ \<Rightarrow> p | None \<Rightarrow> p\<lparr>wStatus := Some code\<rparr>)"

definition WriteHeader :: "nat \<Rightarrow> 'st world \<Rightarrow> 'st world" where
  "WriteHeader code w = w\<lparr>resp := (sendStatus code (resp w))\<lparr>wLast := Some code\<rparr>\<rparr>"

definition Write :: "string \<Rightarrow> 'st world \<Rightarrow> 'st world" where
  "Write s w = (let p = sendStatus 200 (resp w) in w\<lparr>resp := p\<lparr>wBody := wBody p @ s\<rparr>\<rparr>)"

definition httpError :: "string \<Rightarrow> nat \<Rightarrow> 'st world \<Rightarrow> 'st world" where
  "httpError msg code w =
     Write (msg @ [CHR 0x0A])
       (WriteHeader code
         (wSet ''X-Content-Type-Options'' ''nosniff''
           (wSet ''Content-Type'' ''text/plain; charset=utf-8''
             (wDel ''Content-Length'' w))))"

definition NotFound :: "'st world \<Rightarrow> 'st world" where
  "NotFound w = httpError ''404 page not found'' 404 w"

definition Redirect :: "string \<Rightarrow> nat \<Rightarrow> 'st world \<Rightarrow> 'st world" where
  "Redirect url code w = WriteHeader code (wSet ''Location'' url w)"

definition valid_cookie_byte :: "char \<Rightarrow> bool" where
  "valid_cookie_byte c \<longleftrightarrow> 32 \<le> byte c \<and> byte c < 127 \<and> byte c \<notin> {34, 59, 92}"

definition SetCookie :: "setcookie \<Rightarrow> 'st world \<Rightarrow> 'st world" where
  "SetCookie c w =
     (if ckName c = [] \<or> \<not> list_all tokenByte (ckName c) then w
      else w\<lparr>resp := (resp w)\<lparr>wCookies := wCookies (resp w) @
               [c\<lparr>ckValue := filter valid_cookie_byte (ckValue c)\<rparr>]\<rparr>\<rparr>)"

text \<open>What a browser does with the cookies of a response: an entry with a negative Max-Age
  expires the cookie of that name, any other entry stores it.\<close>

fun apply_cookies :: "setcookie list \<Rightarrow> (string \<times> string) list \<Rightarrow> (string \<times> string) list" where
  "apply_cookies [] jar = jar"
| "apply_cookies (c # cs) jar =
     apply_cookies cs
       (if ckMaxAge c < 0 then gm_del (ckName c) jar else gm_set (ckName c) (ckValue c) jar)"

section \<open>Handlers and middlewares\<close>

datatype 'w outcome = Done 'w | Panicked string 'w

type_synonym 'st handler = "request \<Rightarrow> 'st world \<Rightarrow> 'st world outcome"

type_synonym 'st middleware = "'st handler \<Rightarrow> 'st handler"

text \<open>What a filtering middleware decides about a request: hand it on, possibly changed, or
  answer it without calling the next handler.\<close>

datatype 'st step = Pass request "'st world" | Answer "'st world"

definition run_step :: "'st step \<Rightarrow> 'st handler \<Rightarrow> 'st world outcome" where
  "run_step s next = (case s of Pass r w \<Rightarrow> next r w | Answer w \<Rightarrow> Done w)"

primrec world_of :: "'w outcome \<Rightarrow> 'w" where
  "world_of (Done w) = w"
| "world_of (Panicked m w) = w"

section \<open>Laws of headers\<close>

lemma byte_byte_upper: "byte (byte_upper c) = (if 97 \<le> byte c \<and> byte c \<le> 122 then byte c - 32 else byte c)"
  by (auto simp: byte_upper_def Let_def byte_def)

lemma byte_byte_lower: "byte (byte_lower c) = (if 65 \<le> byte c \<and> byte c \<le> 90 then byte c + 32 else byte c)"
  by (auto simp: byte_lower_def Let_def byte_def)

lemmas byte_case = byte_byte_upper byte_byte_lower

lemma byte_upper_token: "tokenByte c \<Longrightarrow> tokenByte (byte_upper c)"
proof (cases "97 \<le> byte c \<and> byte c \<le> 122")
  case True
  then have "65 \<le> byte (byte_upper c) \<and> byte (byte_upper c) \<le> 90" by (auto simp: byte_case)
  then show ?thesis by (simp add: tokenByte_def Let_def)
next
  case False
  then have "byte_upper c = c" by (auto simp: byte_inject [symmetric] byte_case)
  then show "tokenByte c \<Longrightarrow> ?thesis" by simp
qed

lemma byte_lower_token: "tokenByte c \<Longrightarrow> tokenByte (byte_lower c)"
proof (cases "65 \<le> byte c \<and> byte c \<le> 90")
  case True
  then have "97 \<le> byte (byte_lower c) \<and> byte (byte_lower c) \<le> 122" by (simp add: byte_case)
  then show ?thesis by (simp add: tokenByte_def Let_def)
next
  case False
  then have "byte_lower c = c" by (auto simp: byte_inject [symmetric] byte_case)
  then show "tokenByte c \<Longrightarrow> ?thesis" by simp
qed

lemma byte_upper_idem [simp]: "byte_upper (byte_upper c) = byte_upper c"
  by (auto simp: byte_inject [symmetric] byte_case)

lemma byte_case_dash [simp]:
  "byte_upper c = CHR ''-'' \<longleftrightarrow> c = CHR ''-''"
  "byte_lower c = CHR ''-'' \<longleftrightarrow> c = CHR ''-''"
  by (auto simp: byte_inject [symmetric] byte_case) (auto simp: byte_def)

lemma canon_go_token: "list_all tokenByte s \<Longrightarrow> list_all tokenByte (canon_go u s)"
  by (induction u s rule: canon_go.induct) (auto simp: byte_upper_token byte_lower_token)

lemma canon_go_idem: "canon_go u (canon_go u s) = canon_go u s"
  by (induction u s rule: canon_go.induct) auto

lemma CanonicalHeaderKey_idem [simp]:
  "CanonicalHeaderKey (CanonicalHeaderKey k) = CanonicalHeaderKey k"
  by (simp add: CanonicalHeaderKey_def canon_go_token canon_go_idem)

lemma hGet_hSet [simp]:
  "hGet (hSet k v h) k' =
     (if CanonicalHeaderKey k' = CanonicalHeaderKey k then v else hGet h k')"
  by (simp add: hGet_def hSet_def gm_get_set)

lemma hGet_hDel [simp]:
  "hGet (hDel k h) k' =
     (if CanonicalHeaderKey k' = CanonicalHeaderKey k then [] else hGet h k')"
  by (simp add: hGet_def hDel_def gm_get_del)

lemma gm_get_hDel:
  "gm_get (hDel k h) k' = (if k' = CanonicalHeaderKey k then None else gm_get h k')"
  by (simp add: hDel_def gm_get_del)

lemma gm_get_hSet:
  "gm_get (hSet k v h) k' = (if k' = CanonicalHeaderKey k then Some [v] else gm_get h k')"
  by (simp add: hSet_def gm_get_set)

lemma gm_get_hDelAll:
  "gm_get (hDelAll ks h) k =
     (if k \<in> CanonicalHeaderKey ` set ks then None else gm_get h k)"
proof (induction ks arbitrary: h)
  case Nil
  then show ?case by (simp add: hDelAll_def)
next
  case (Cons a ks)
  have "hDelAll (a # ks) h = hDelAll ks (hDel a h)" by (simp add: hDelAll_def)
  with Cons show ?case by (simp add: gm_get_hDel)
qed

lemma hGet_None: "gm_get h (CanonicalHeaderKey k) = None \<Longrightarrow> hGet h k = []"
  by (simp add: hGet_def)

lemma header_ok_hSet [simp]: "header_ok h \<Longrightarrow> header_ok (hSet k v h)"
  by (auto simp: header_ok_def hSet_def dom_update dom_map_of_conv_image_fst [symmetric] update_conv'
      split: if_splits)

lemma header_ok_hDel [simp]: "header_ok h \<Longrightarrow> header_ok (hDel k h)"
  by (auto simp: header_ok_def hDel_def dom_map_of_conv_image_fst [symmetric] delete_conv'
      split: if_splits)

section \<open>Laws of the response writer\<close>

lemma resp_simps [simp]:
  "wStatus (resp (wSet k v w)) = wStatus (resp w)"
  "wStatus (resp (wDel k w)) = wStatus (resp w)"
  "wCookies (resp (wSet k v w)) = wCookies (resp w)"
  "wCookies (resp (wDel k w)) = wCookies (resp w)"
  "wCookies (resp (WriteHeader c w)) = wCookies (resp w)"
  "wCookies (resp (Write s w)) = wCookies (resp w)"
  "wCookies (resp (httpError m c w)) = wCookies (resp w)"
  "wCookies (resp (Redirect u c w)) = wCookies (resp w)"
  "wHeader (resp (WriteHeader c w)) = wHeader (resp w)"
  "wHeader (resp (Write s w)) = wHeader (resp w)"
  by (simp_all add: wSet_def wDel_def WriteHeader_def Write_def sendStatus_def httpError_def Redirect_def Let_def
      split: option.splits)

lemma world_frame [simp]:
  "ext (wSet k v w) = ext w" "ext (wDel k w) = ext w" "ext (WriteHeader c w) = ext w"
  "ext (Write s w) = ext w" "ext (httpError m c w) = ext w" "ext (Redirect u c w) = ext w"
  "ext (SetCookie ck w) = ext w" "ext (tick w) = ext w" "ext (useRand n w) = ext w"
  by (simp_all add: wSet_def wDel_def WriteHeader_def Write_def sendStatus_def httpError_def Redirect_def Let_def
      SetCookie_def tick_def useRand_def split: option.splits)

lemma WriteHeader_status:
  "wStatus (resp (WriteHeader c w)) = (case wStatus (resp w) of None \<Rightarrow> Some c | Some s \<Rightarrow> Some s)"
  by (simp add: WriteHeader_def sendStatus_def split: option.splits)

lemma Write_status:
  "wStatus (resp (Write s w)) = (case wStatus (resp w) of None \<Rightarrow> Some 200 | Some c \<Rightarrow> Some c)"
  by (simp add: Write_def sendStatus_def Let_def split: option.splits)

lemma httpError_status:
  "wStatus (resp w) = None \<Longrightarrow> wStatus (resp (httpError m c w)) = Some c"
  by (simp add: httpError_def Write_status WriteHeader_status)

lemma Redirect_status:
  "wStatus (resp w) = None \<Longrightarrow> wStatus (resp (Redirect u c w)) = Some c"
  by (simp add: Redirect_def WriteHeader_status)

lemma wGet_wSet [simp]:
  "wGet (wSet k v w) k' = (if CanonicalHeaderKey k' = CanonicalHeaderKey k then v else wGet w k')"
  by (simp add: wGet_def wSet_def)

lemma wGet_frame [simp]:
  "wGet (WriteHeader c w) k = wGet w k" "wGet (Write s w) k = wGet w k"
  by (simp_all add: wGet_def)

lemma wGet_Redirect: "wGet (Redirect u c w) ''Location'' = u"
  by (simp add: Redirect_def)

lemma run_step_simps [simp]:
  "run_step (Pass r w) next = next r w"
  "run_step (Answer w) next = Done w"
  by (simp_all add: run_step_def)

lemma FromContext_WithPrincipal [simp]: "FromContext (WithPrincipal p r) = Some p"
  by (simp add: FromContext_def WithPrincipal_def)

lemma rHeader_WithPrincipal [simp]: "rHeader (WithPrincipal p r) = rHeader r"
  by (simp add: WithPrincipal_def)

lemma FromContext_mapHeader [simp]: "FromContext (mapHeader f r) = FromContext r"
  by (simp add: FromContext_def mapHeader_def)

lemma rHeader_mapHeader [simp]: "rHeader (mapHeader f r) = f (rHeader r)"
  by (simp add: mapHeader_def)

section \<open>A sample request and world\<close>

definition demo_request :: request where
  "demo_request = \<lparr>rMethod = ''GET'', rPath = ''/'', rRawQuery = [], rRequestURI = ''/'', rHost = ''h'',
     rRemoteAddr = ''10.0.0.1:5000'', rPattern = ''/'', rProto = ''HTTP/1.1'', rHeader = [], rCookies = [],
     rPathValues = [], rCtx = \<lparr>ctxPrincipal = None, ctxBearerError = False, ctxAssertionHeader = []\<rparr>\<rparr>"

definition demo_world :: "'st \<Rightarrow> 'st world" where
  "demo_world s = \<lparr>resp = empty_response, clk = (\<lambda>n. 0), tpos = 0, ent = (\<lambda>n. CHR ''r''), epos = 0,
     ext = s, alog = []\<rparr>"

definition demo_req :: "header \<Rightarrow> request" where
  "demo_req h = demo_request\<lparr>rHeader := h\<rparr>"

end
