(* ===== verification/Passport.thy ===== *)
theory Passport
  imports Http_Model
begin

text \<open>
  From verified claims to an identity (\<^verbatim>\<open>src/session/passport.go\<close>, the principal and userinfo
  decisions of \<^verbatim>\<open>src/session/identity.go\<close> and \<^verbatim>\<open>src/auth/config.go\<close>): the passport allowlist,
  the mapping of group DNs, the choice of the subject, and when userinfo must be fetched.
  \<open>ulower\<close> is Unicode's lower-case mapping.
\<close>

record groups_config =
  gcSource :: string
  gcMatch :: "string list"
  gcRender :: string
  gcAs :: string
  gcStrip :: "string list"

record assertion_issue =
  aiName :: string
  aiKeyID :: string
  aiSeed :: string
  aiTTL :: int
  aiHeader :: string

record assertion_accept =
  acIssuer :: string
  acHeader :: string
  acKeys :: "(string, string) gomap"
  acRequireBearer :: bool

record assertion_config =
  asIssue :: "assertion_issue option"
  asAccept :: "assertion_accept option"

record identity_config =
  idClaims :: "string list"
  idGroups :: "groups_config option"
  idUserInfo :: string
  idSubjectClaim :: string
  idAssertion :: "assertion_config option"

section \<open>Passport\<close>

definition projectPassport :: "string list \<Rightarrow> claims \<Rightarrow> claims \<Rightarrow> claims" where
  "projectPassport names idc ui =
     foldl (\<lambda>out name.
       case gm_get ui name of
         Some v \<Rightarrow> gm_set name v out
       | None \<Rightarrow> (case gm_get idc name of Some v \<Rightarrow> gm_set name v out | None \<Rightarrow> out)) [] names"

section \<open>Groups\<close>

definition toStringSlice :: "any \<Rightarrow> string list" where
  "toStringSlice v = (case v of
       VStrs t \<Rightarrow> t
     | VList t \<Rightarrow> concat (map (\<lambda>e. case as_string e of Some s \<Rightarrow> [s] | None \<Rightarrow> []) t)
     | _ \<Rightarrow> [])"

fun matchesAny :: "(nat \<Rightarrow> nat) \<Rightarrow> string \<Rightarrow> string list \<Rightarrow> bool" where
  "matchesAny ulower dn [] = False"
| "matchesAny ulower dn (p # ps) =
     (if Contains (ToLower ulower dn) (ToLower ulower p) then True else matchesAny ulower dn ps)"

fun cn_loop :: "string list \<Rightarrow> string" where
  "cn_loop [] = []"
| "cn_loop (part0 # parts) =
     (let part = TrimSpace part0 in
      if length part > 3 \<and> EqualFold (take 3 part) ''cn='' then drop 3 part else cn_loop parts)"

definition extractCN :: "string \<Rightarrow> string" where
  "extractCN dn = cn_loop (Split (CHR '','') dn)"

function foldPrefixLen_loop :: "(nat \<Rightarrow> nat) \<Rightarrow> nat \<Rightarrow> string \<Rightarrow> string \<Rightarrow> nat option" where
  "foldPrefixLen_loop ulower i v p =
     (if p = [] then Some i
      else if v = [] then None
      else let (rv, nv) = DecodeRune v; (rp, np) = DecodeRune p in
        if ulower rv \<noteq> ulower rp then None
        else foldPrefixLen_loop ulower (i + nv) (drop nv v) (drop np p))"
  by pat_completeness auto
termination
proof (relation "measure (\<lambda>(u, i, v, p). length p)")
  fix u :: "nat \<Rightarrow> nat" and i :: nat and v p x rv nv y rp np
  assume "p \<noteq> []" "y = DecodeRune p" "(rp, np) = y"
  then have "0 < np" "0 < length p" using DecodeRune_width_pos [of p] by (auto, metis snd_conv)
  then show "((u, i + nv, drop nv v, drop np p), (u, i, v, p)) \<in> measure (\<lambda>(u, i, v, p). length p)"
    by simp
qed simp

declare foldPrefixLen_loop.simps [simp del]

definition foldPrefixLen :: "(nat \<Rightarrow> nat) \<Rightarrow> string \<Rightarrow> string \<Rightarrow> nat option" where
  "foldPrefixLen ulower v p = foldPrefixLen_loop ulower 0 v p"

fun stripPrefixes :: "(nat \<Rightarrow> nat) \<Rightarrow> string \<Rightarrow> string list \<Rightarrow> string" where
  "stripPrefixes ulower v [] = v"
| "stripPrefixes ulower v (p # ps) =
     (if p = [] then stripPrefixes ulower v ps
      else case foldPrefixLen ulower v p of
        Some n \<Rightarrow> drop n v
      | None \<Rightarrow> stripPrefixes ulower v ps)"

definition renderGroup :: "(nat \<Rightarrow> nat) \<Rightarrow> groups_config \<Rightarrow> string \<Rightarrow> string" where
  "renderGroup ulower cfg dn =
     stripPrefixes ulower (if gcRender cfg = ''cn'' then extractCN dn else dn) (gcStrip cfg)"

fun groups_loop :: "(nat \<Rightarrow> nat) \<Rightarrow> groups_config \<Rightarrow> string list \<Rightarrow> string list \<Rightarrow> string list" where
  "groups_loop ulower cfg out [] = out"
| "groups_loop ulower cfg out (dn # dns) =
     (if \<not> matchesAny ulower dn (gcMatch cfg) then groups_loop ulower cfg out dns
      else let v = renderGroup ulower cfg dn in
        if v \<noteq> [] \<and> v \<notin> set out then groups_loop ulower cfg (out @ [v]) dns
        else groups_loop ulower cfg out dns)"

definition projectGroups :: "(nat \<Rightarrow> nat) \<Rightarrow> groups_config option \<Rightarrow> claims \<Rightarrow> claims \<Rightarrow> string list" where
  "projectGroups ulower cfg ui idc =
     (case cfg of None \<Rightarrow> []
      | Some g \<Rightarrow>
          (case (case gm_get ui (gcSource g) of None \<Rightarrow> gm_get idc (gcSource g) | Some v \<Rightarrow> Some v) of
             None \<Rightarrow> []
           | Some raw \<Rightarrow> groups_loop ulower g [] (toStringSlice raw)))"

section \<open>Subject and principal\<close>

definition resolveSubject :: "string \<Rightarrow> string \<Rightarrow> claims \<Rightarrow> claims \<Rightarrow> string" where
  "resolveSubject claim fallback idc ui =
     (if claim = [] \<or> claim = ''sub'' then fallback
      else case str_claim ui claim of
        Some (c # v) \<Rightarrow> c # v
      | _ \<Rightarrow> (case str_claim idc claim of Some (c # v) \<Rightarrow> c # v | _ \<Rightarrow> fallback))"

definition NewPrincipal :: "(nat \<Rightarrow> nat) \<Rightarrow> string \<Rightarrow> claims \<Rightarrow> claims \<Rightarrow> string \<Rightarrow> identity_config \<Rightarrow> principal" where
  "NewPrincipal ulower sub idc ui token cfg =
     \<lparr>Subject = resolveSubject (idSubjectClaim cfg) sub idc ui,
      Passport = projectPassport (idClaims cfg) idc ui,
      Groups = projectGroups ulower (idGroups cfg) ui idc,
      AccessToken = token,
      SessionID = []\<rparr>"

section \<open>When userinfo is needed\<close>

definition NeedUserInfoForToken :: "identity_config \<Rightarrow> claims \<Rightarrow> bool" where
  "NeedUserInfoForToken cfg tc =
     (if idUserInfo cfg = ''always'' then True
      else if idUserInfo cfg = ''never'' then False
      else if idSubjectClaim cfg \<noteq> [] \<and> idSubjectClaim cfg \<noteq> ''sub''
           \<and> (case str_claim tc (idSubjectClaim cfg) of None \<Rightarrow> True | Some v \<Rightarrow> v = []) then True
      else if (case idGroups cfg of None \<Rightarrow> False | Some g \<Rightarrow> gm_get tc (gcSource g) = None) then True
      else list_ex (\<lambda>c. gm_get tc c = None) (idClaims cfg))"

definition idTokenDefaultClaims :: "string list" where
  "idTokenDefaultClaims = [''sub'', ''email'', ''name'', ''given_name'', ''family_name'']"

definition NeedsUserInfo :: "identity_config \<Rightarrow> bool" where
  "NeedsUserInfo cfg =
     (if idUserInfo cfg = ''always'' then True
      else if idUserInfo cfg = ''never'' then False
      else if idGroups cfg \<noteq> None then True
      else list_ex (\<lambda>c. c \<notin> set idTokenDefaultClaims) (idClaims cfg))"

section \<open>Passport: exactly the allowlisted claims\<close>

lemma projectPassport_fold:
  "gm_get (foldl (\<lambda>out name.
       case gm_get ui name of
         Some v \<Rightarrow> gm_set name v out
       | None \<Rightarrow> (case gm_get idc name of Some v \<Rightarrow> gm_set name v out | None \<Rightarrow> out)) out0 names) n =
   (if n \<in> set names then (case gm_get ui n of Some v \<Rightarrow> Some v
        | None \<Rightarrow> (case gm_get idc n of Some v \<Rightarrow> Some v | None \<Rightarrow> gm_get out0 n))
    else gm_get out0 n)"
  by (induction names arbitrary: out0) (auto simp: gm_get_set split: option.splits)

lemma projectPassport_get:
  "gm_get (projectPassport names idc ui) n =
     (if n \<in> set names then (case gm_get ui n of Some v \<Rightarrow> Some v | None \<Rightarrow> gm_get idc n) else None)"
  by (simp add: projectPassport_def projectPassport_fold split: option.splits)

text \<open>The passport holds exactly the allowlisted claims that userinfo or the token carries, with
  userinfo's value where both carry one; no other claim of either source gets in.\<close>

theorem projectPassport_spec:
  "gm_get (projectPassport names idc ui) n =
     (if n \<in> set names then (case gm_get ui n of Some v \<Rightarrow> Some v | None \<Rightarrow> gm_get idc n) else None)"
  by (rule projectPassport_get)

section \<open>Groups: filtered, rendered, deduplicated in order\<close>

fun nub :: "'a list \<Rightarrow> 'a list \<Rightarrow> 'a list" where
  "nub seen [] = []"
| "nub seen (x # xs) = (if x \<in> set seen then nub seen xs else x # nub (seen @ [x]) xs)"

lemma nub_set: "set (nub seen xs) = set xs - set seen"
  by (induction seen xs rule: nub.induct) auto

lemma nub_distinct: "distinct (nub seen xs)"
  by (induction seen xs rule: nub.induct) (auto simp: nub_set)

lemma matchesAny_iff: "matchesAny u dn ps \<longleftrightarrow> (\<exists>p \<in> set ps. Contains (ToLower u dn) (ToLower u p))"
  by (induction ps) auto

lemma groups_loop_nub:
  "groups_loop u cfg out dns =
     out @ nub out (filter (\<lambda>v. v \<noteq> []) (map (renderGroup u cfg) (filter (\<lambda>dn. matchesAny u dn (gcMatch cfg)) dns)))"
  by (induction dns arbitrary: out) (auto simp: Let_def)

definition groups_source :: "groups_config \<Rightarrow> claims \<Rightarrow> claims \<Rightarrow> string list" where
  "groups_source g ui idc =
     (case gm_get ui (gcSource g) of Some v \<Rightarrow> toStringSlice v
      | None \<Rightarrow> (case gm_get idc (gcSource g) of Some v \<Rightarrow> toStringSlice v | None \<Rightarrow> []))"

text \<open>The groups of an identity are the renderings of those group DNs (from userinfo, else from the
  token) that contain one of the configured patterns up to case, in the order of their first
  occurrence, each once, and never an empty name.\<close>

theorem projectGroups_spec:
  "projectGroups u (Some g) ui idc =
     nub [] (filter (\<lambda>v. v \<noteq> []) (map (renderGroup u g)
       (filter (\<lambda>dn. \<exists>p \<in> set (gcMatch g). Contains (ToLower u dn) (ToLower u p)) (groups_source g ui idc))))
   \<and> distinct (projectGroups u (Some g) ui idc) \<and> [] \<notin> set (projectGroups u (Some g) ui idc)"
proof -
  have "projectGroups u (Some g) ui idc =
     nub [] (filter (\<lambda>v. v \<noteq> []) (map (renderGroup u g)
       (filter (\<lambda>dn. matchesAny u dn (gcMatch g)) (groups_source g ui idc))))"
    by (auto simp: projectGroups_def groups_source_def groups_loop_nub split: option.splits)
  then show ?thesis by (simp add: nub_distinct nub_set matchesAny_iff)
qed

section \<open>Prefix stripping\<close>

lemma foldPrefixLen_loop_ascii:
  assumes "list_all ascii q" "list_all ascii p" "map (\<lambda>a. u (byte a)) q = map (\<lambda>a. u (byte a)) p"
  shows "foldPrefixLen_loop u i (q @ t) p = Some (i + length q)"
  using assms
proof (induction q arbitrary: i p)
  case Nil
  then show ?case by (subst foldPrefixLen_loop.simps) simp
next
  case (Cons c q)
  then obtain d p' where p: "p = d # p'" "ascii d" "list_all ascii p'" "u (byte c) = u (byte d)"
    "map (\<lambda>a. u (byte a)) q = map (\<lambda>a. u (byte a)) p'" by (cases p) auto
  have "DecodeRune (c # q @ t) = (byte c, 1)" "DecodeRune (d # p') = (byte d, 1)"
    using Cons.prems(1) p(2) by (auto simp: DecodeRune_def ascii_def byte_def)
  with p Cons.prems(1) Cons.IH [of p' "Suc i"] show ?case
    by (subst foldPrefixLen_loop.simps) simp
qed

lemma ascii_table: "ascii c \<Longrightarrow> ascii_rune_lower (byte c) = byte (byte_lower c)"
  by (auto simp: ascii_def ascii_rune_lower_def byte_def byte_lower_def Let_def)

text \<open>A group name that starts with a configured ASCII prefix, in any letter case, loses exactly
  that prefix, once: the first prefix of the list that fits decides.\<close>

theorem stripPrefixes_spec:
  assumes ascii_q: "list_all ascii q" and ascii_p: "list_all ascii p" and "p \<noteq> []"
    and same: "map byte_lower q = map byte_lower p"
    and table: "\<And>c. ascii c \<Longrightarrow> u (byte c) = byte (byte_lower c)"
    and earlier: "\<forall>p' \<in> set ps. p' = [] \<or> foldPrefixLen u (q @ t) p' = None"
  shows "stripPrefixes u (q @ t) (ps @ p # qs) = t"
proof -
  have "map (\<lambda>a. u (byte a)) s = map byte (map byte_lower s)" if "list_all ascii s" for s
    using that table by (induction s) auto
  then have "map (\<lambda>a. u (byte a)) q = map (\<lambda>a. u (byte a)) p" using ascii_q ascii_p same by metis
  then have "foldPrefixLen u (q @ t) p = Some (length q)"
    using foldPrefixLen_loop_ascii [OF ascii_q ascii_p, of u 0 t] by (simp add: foldPrefixLen_def)
  then have "stripPrefixes u (q @ t) (p # qs) = t" using \<open>p \<noteq> []\<close> by simp
  with earlier show ?thesis by (induction ps) auto
qed

theorem stripPrefixes_spec_witness:
  "stripPrefixes ascii_rune_lower (''HoG-'' @ ''admin'') ([''x-'', []] @ ''hog-'' # [''a'']) = ''admin''"
proof (rule stripPrefixes_spec)
  show "map byte_lower ''HoG-'' = map byte_lower ''hog-''" by code_simp
  show "\<forall>p' \<in> set [''x-'', []]. p' = [] \<or> foldPrefixLen ascii_rune_lower (''HoG-'' @ ''admin'') p' = None"
    by code_simp
qed (simp_all add: ascii_def ascii_table)

section \<open>Subject\<close>

lemma resolveSubject_cases:
  "resolveSubject claim fallback idc ui =
     (if claim \<in> {[], ''sub''} then fallback
      else if \<exists>v. str_claim ui claim = Some v \<and> v \<noteq> [] then the (str_claim ui claim)
      else if \<exists>v. str_claim idc claim = Some v \<and> v \<noteq> [] then the (str_claim idc claim) else fallback)"
  by (auto simp: resolveSubject_def split: option.splits list.splits)

text \<open>The subject is the configured claim's string from userinfo, else from the token, else the
  token's own sub; so it is never emptied by a missing, empty or non-string claim: it is empty only if
  the token has no sub and neither source carries the configured claim as a non-empty string.\<close>

theorem resolveSubject_never_emptied:
  "resolveSubject claim fallback idc ui = [] \<longleftrightarrow>
     fallback = [] \<and> (claim \<in> {[], ''sub''} \<or>
       (\<forall>v. str_claim ui claim = Some v \<or> str_claim idc claim = Some v \<longrightarrow> v = []))"
  by (auto simp: resolveSubject_cases)

theorem resolveSubject_never_emptied_witness:
  "resolveSubject ''upn'' ''u1'' [(''upn'', VNum ''7'')] [(''upn'', VStr [])] \<noteq> []"
  by (subst resolveSubject_never_emptied) simp

section \<open>Skipping userinfo loses nothing\<close>

text \<open>When automatic mode decides that a Bearer token needs no userinfo, the principal built from the
  token alone carries every configured passport claim, has its group source, and takes its subject
  from the configured claim.\<close>

theorem skip_userinfo_complete:
  assumes "\<not> NeedUserInfoForToken cfg tc" "idUserInfo cfg = ''auto''"
  shows "(\<forall>c \<in> set (idClaims cfg). gm_get (Passport (NewPrincipal u sub tc [] tok cfg)) c = gm_get tc c
            \<and> gm_get tc c \<noteq> None)
    \<and> (\<forall>g. idGroups cfg = Some g \<longrightarrow> gm_get tc (gcSource g) \<noteq> None)
    \<and> (idSubjectClaim cfg \<notin> {[], ''sub''} \<longrightarrow>
         str_claim tc (idSubjectClaim cfg) = Some (Subject (NewPrincipal u sub tc [] tok cfg))
         \<and> Subject (NewPrincipal u sub tc [] tok cfg) \<noteq> [])"
proof -
  have none: "str_claim [] c = None" for c by (simp add: str_claim_def)
  show ?thesis
    using assms
    by (auto simp: NeedUserInfoForToken_def NewPrincipal_def projectPassport_get resolveSubject_cases
        list_ex_iff none split: if_splits option.splits)
qed

definition demo_identity :: identity_config where
  "demo_identity = \<lparr>idClaims = [''email''],
     idGroups = Some \<lparr>gcSource = ''memberOf'', gcMatch = [''OU=Hog''], gcRender = ''cn'', gcAs = [], gcStrip = []\<rparr>,
     idUserInfo = ''auto'', idSubjectClaim = ''upn'', idAssertion = None\<rparr>"

definition demo_claims :: claims where
  "demo_claims = [(''sub'', VStr ''s1''), (''upn'', VStr ''ann@x''), (''email'', VStr ''a@x''),
     (''memberOf'', VList [VStr ''cn=Ops,ou=hog''])]"

theorem skip_userinfo_complete_witness:
  "Subject (NewPrincipal ascii_rune_lower ''s1'' demo_claims [] [] demo_identity) = ''ann@x''"
  using skip_userinfo_complete [of demo_identity demo_claims ascii_rune_lower "''s1''" "[]"]
  by (simp add: demo_identity_def demo_claims_def NeedUserInfoForToken_def str_claim_def as_string_def)

end
