(* ===== verification/Session_Core.thy ===== *)
theory Session_Core
  imports Passport
begin

text \<open>
  The session data model (\<^verbatim>\<open>src/session/config.go\<close>, \<^verbatim>\<open>session.go\<close>, \<^verbatim>\<open>fingerprint.go\<close>,
  \<^verbatim>\<open>principal.go\<close>) and the parsers of the \<open>session\<close>, \<open>identity\<close> and \<open>stateProvider\<close>
  blocks (\<^verbatim>\<open>identity.go\<close>, \<^verbatim>\<open>stateconfig.go\<close>). \<open>dec\<close> is \<open>yaml.Node.Decode\<close> and
  \<open>parseDuration\<close> is \<open>time.ParseDuration\<close> (nanoseconds). A nil YAML pointer is \<open>None\<close>.
\<close>

section \<open>Providers' data\<close>

record tokens =
  tkIDToken :: string
  tkAccessToken :: string
  tkRefreshToken :: string
  tkExpiry :: int

record identity =
  idtSubject :: string
  idtEmail :: string
  idtName :: string
  idtClaims :: claims

section \<open>Session configuration\<close>

record session_config =
  scCookieName :: string
  scKey :: string
  scTTL :: int
  scFingerprintHeaders :: "string list"
  scPassportClaims :: "string list"
  scGroups :: "groups_config option"
  scInfoPath :: string
  scPostLogoutRedirect :: string
  scSubjectClaim :: string

record raw_session =
  rsCookieName :: string
  rsKey :: string
  rsTTL :: string
  rsFingerprintHeaders :: "string list"
  rsInfoPath :: string
  rsPostLogoutRedirect :: string

datatype session_cfg_error =
    SessionDecode string
  | SessionKeyLength nat
  | SessionTTL string

definition orDefault :: "string \<Rightarrow> string \<Rightarrow> string" where
  "orDefault v d = (if v = [] then d else v)"

definition seconds :: "int \<Rightarrow> int" where
  "seconds n = n * 1000000000"

definition FromYAML :: "('n \<Rightarrow> (string, raw_session) result) \<Rightarrow> (string \<Rightarrow> (string, int) result)
    \<Rightarrow> 'n \<Rightarrow> (session_cfg_error, session_config) result" where
  "FromYAML dec parseDuration node =
     bindR (mapErr SessionDecode (dec node)) (\<lambda>raw.
     guardR (length (rsKey raw) \<noteq> 32) (SessionKeyLength (length (rsKey raw))) (
     bindR (if rsTTL raw \<noteq> [] then mapErr SessionTTL (parseDuration (rsTTL raw)) else Inr (seconds 28800)) (\<lambda>ttl.
     Inr \<lparr>scCookieName = orDefault (rsCookieName raw) ''hog_session'',
          scKey = rsKey raw,
          scTTL = ttl,
          scFingerprintHeaders =
            (if rsFingerprintHeaders raw = [] then [''User-Agent''] else rsFingerprintHeaders raw),
          scPassportClaims = [],
          scGroups = None,
          scInfoPath = orDefault (rsInfoPath raw) ''/auth/session'',
          scPostLogoutRedirect = orDefault (rsPostLogoutRedirect raw) ''/'',
          scSubjectClaim = []\<rparr>)))"

section \<open>Identity configuration\<close>

record raw_issue =
  riName :: string
  riKeyID :: string
  riKey :: string
  riTTL :: string
  riHeader :: string

record raw_accept =
  raIssuer :: string
  raHeader :: string
  raRequireBearer :: "bool option"
  raKeys :: "(string \<times> string) list"

record raw_assertion =
  rxIssue :: "raw_issue option"
  rxAccept :: "raw_accept option"

record raw_identity =
  rdClaims :: "string list option"
  rdGroups :: "groups_config option"
  rdUserInfo :: string
  rdSubjectClaim :: string
  rdAssertion :: "raw_assertion option"

datatype key_error = KeyBase64 | KeyLength nat nat

datatype identity_error =
    IdentityDecode string
  | IdentityUserInfo string
  | IdentityRender string
  | AssertionEmpty
  | IssueName
  | IssueKeyID
  | IssueKeyMissing
  | IssueKey key_error
  | IssueTTL string
  | IssueTTLNotPositive string
  | AcceptIssuer
  | AcceptNoKeys
  | AcceptKeyID
  | AcceptDuplicate string
  | AcceptKey string key_error

definition decodeKey :: "string \<Rightarrow> nat \<Rightarrow> (key_error, string) result" where
  "decodeKey s wantLen =
     bindR (case StdDecode s of
              Some b \<Rightarrow> Inr b
            | None \<Rightarrow> (case RawURLDecode s of Some b \<Rightarrow> Inr b | None \<Rightarrow> Inl KeyBase64)) (\<lambda>b.
     guardR (length b \<noteq> wantLen) (KeyLength wantLen (length b)) (Inr b))"

definition parse_issue :: "(string \<Rightarrow> (string, int) result) \<Rightarrow> raw_issue \<Rightarrow> (identity_error, assertion_issue) result" where
  "parse_issue parseDuration iss =
     guardR (riName iss = []) IssueName (
     guardR (riKeyID iss = []) IssueKeyID (
     guardR (riKey iss = []) IssueKeyMissing (
     bindR (mapErr IssueKey (decodeKey (riKey iss) 32)) (\<lambda>seed.
     bindR (if riTTL iss \<noteq> [] then
              bindR (mapErr IssueTTL (parseDuration (riTTL iss))) (\<lambda>d.
              guardR (d \<le> 0) (IssueTTLNotPositive (riTTL iss)) (Inr d))
            else Inr (seconds 60)) (\<lambda>ttl.
     Inr \<lparr>aiName = riName iss, aiKeyID = riKeyID iss, aiSeed = seed, aiTTL = ttl,
          aiHeader = orDefault (riHeader iss) ''X-Hog-Identity''\<rparr>)))))"

definition accept_key :: "(string, string) gomap \<Rightarrow> string \<times> string \<Rightarrow> (identity_error, (string, string) gomap) result" where
  "accept_key keys k =
     guardR (fst k = []) AcceptKeyID (
     guardR (gm_get keys (fst k) \<noteq> None) (AcceptDuplicate (fst k)) (
     bindR (mapErr (AcceptKey (fst k)) (decodeKey (snd k) 32)) (\<lambda>pub.
     Inr (gm_set (fst k) pub keys))))"

definition parse_accept :: "raw_accept \<Rightarrow> (identity_error, assertion_accept) result" where
  "parse_accept acc =
     guardR (raIssuer acc = []) AcceptIssuer (
     guardR (raKeys acc = []) AcceptNoKeys (
     bindR (foldR accept_key [] (raKeys acc)) (\<lambda>keys.
     Inr \<lparr>acIssuer = raIssuer acc, acHeader = orDefault (raHeader acc) ''X-Hog-Identity'', acKeys = keys,
          acRequireBearer = (case raRequireBearer acc of Some b \<Rightarrow> b | None \<Rightarrow> True)\<rparr>)))"

definition optR :: "('a \<Rightarrow> ('e, 'b) result) \<Rightarrow> 'a option \<Rightarrow> ('e, 'b option) result" where
  "optR f x = (case x of None \<Rightarrow> Inr None | Some a \<Rightarrow> bindR (f a) (\<lambda>b. Inr (Some b)))"

definition parseAssertion :: "(string \<Rightarrow> (string, int) result) \<Rightarrow> raw_assertion \<Rightarrow> (identity_error, assertion_config) result" where
  "parseAssertion parseDuration raw =
     guardR (rxIssue raw = None \<and> rxAccept raw = None) AssertionEmpty (
     bindR (optR (parse_issue parseDuration) (rxIssue raw)) (\<lambda>i.
     bindR (optR parse_accept (rxAccept raw)) (\<lambda>a.
     Inr \<lparr>asIssue = i, asAccept = a\<rparr>)))"

definition defaultPassportClaims :: "string list" where
  "defaultPassportClaims = [''email'', ''name'', ''given_name'', ''family_name'']"

definition parse_groups :: "groups_config \<Rightarrow> (identity_error, groups_config) result" where
  "parse_groups raw =
     (let g = raw\<lparr>gcRender := orDefault (gcRender raw) ''cn'', gcAs := orDefault (gcAs raw) ''groups''\<rparr> in
      guardR (gcRender g \<noteq> ''cn'' \<and> gcRender g \<noteq> ''dn'') (IdentityRender (gcRender g)) (Inr g))"

definition zero_identity :: raw_identity where
  "zero_identity = \<lparr>rdClaims = None, rdGroups = None, rdUserInfo = [], rdSubjectClaim = [], rdAssertion = None\<rparr>"

definition ParseIdentity :: "('n \<Rightarrow> (string, raw_identity) result) \<Rightarrow> (string \<Rightarrow> (string, int) result)
    \<Rightarrow> 'n option \<Rightarrow> (identity_error, identity_config) result" where
  "ParseIdentity dec parseDuration node =
     bindR (case node of None \<Rightarrow> Inr zero_identity | Some n \<Rightarrow> mapErr IdentityDecode (dec n)) (\<lambda>raw.
     let ui = orDefault (rdUserInfo raw) ''auto'' in
     guardR (ui \<notin> {''auto'', ''always'', ''never''}) (IdentityUserInfo ui) (
     bindR (optR parse_groups (rdGroups raw)) (\<lambda>g.
     bindR (optR (parseAssertion parseDuration) (rdAssertion raw)) (\<lambda>a.
     Inr \<lparr>idClaims = (case rdClaims raw of None \<Rightarrow> defaultPassportClaims | Some c \<Rightarrow> c),
          idGroups = g, idUserInfo = ui, idSubjectClaim = orDefault (rdSubjectClaim raw) ''sub'',
          idAssertion = a\<rparr>))))"

section \<open>State provider configuration\<close>

record 'n state_provider =
  spType :: string
  spRefreshSkew :: int
  spKeyPrefix :: string
  spConfig :: "'n option"

record 'n raw_state_provider =
  rpType :: string
  rpRefreshSkew :: string
  rpKeyPrefix :: string
  rpConfig :: "'n option"

datatype state_cfg_error = StateDecode string | StateType | StateSkew string | StateSkewNegative int

definition ParseStateProvider :: "('n \<Rightarrow> (string, 'n raw_state_provider) result) \<Rightarrow> (string \<Rightarrow> (string, int) result)
    \<Rightarrow> 'n \<Rightarrow> (state_cfg_error, 'n state_provider) result" where
  "ParseStateProvider dec parseDuration node =
     bindR (mapErr StateDecode (dec node)) (\<lambda>raw.
     guardR (rpType raw = []) StateType (
     bindR (if rpRefreshSkew raw \<noteq> [] then
              bindR (mapErr StateSkew (parseDuration (rpRefreshSkew raw))) (\<lambda>d.
              guardR (d < 0) (StateSkewNegative d) (Inr d))
            else Inr (seconds 60)) (\<lambda>skew.
     Inr \<lparr>spType = rpType raw, spRefreshSkew = skew,
          spKeyPrefix = (if rpKeyPrefix raw = [] then ''hog:sess:'' else rpKeyPrefix raw),
          spConfig = rpConfig raw\<rparr>)))"

section \<open>Sessions\<close>

record session =
  sSubject :: string
  sPassport :: claims
  sGroups :: "string list"
  sAccessToken :: string
  sExpiry :: int
  sIssuedAt :: int
  sFingerprint :: string
  sCorrelationID :: string

text \<open>\<open>Expired\<close> at the clock reading \<open>t\<close>; the caller consumes the reading.\<close>

definition Expired :: "session \<Rightarrow> int \<Rightarrow> bool" where
  "Expired s t \<longleftrightarrow> sExpiry s < t"

record public_view =
  pvSubject :: string
  pvPassport :: claims
  pvGroups :: "string list"
  pvIssuedAt :: int
  pvExpiresAt :: int
  pvExpiresIn :: int

text \<open>\<open>int(d.Seconds())\<close>: whole seconds, towards zero (exact for the durations of a session).\<close>

definition whole_seconds :: "int \<Rightarrow> int" where
  "whole_seconds d = (if d \<ge> 0 then d div 1000000000 else - (- d div 1000000000))"

definition PublicView :: "session \<Rightarrow> int \<Rightarrow> public_view" where
  "PublicView s t =
     \<lparr>pvSubject = sSubject s, pvPassport = sPassport s, pvGroups = sGroups s,
      pvIssuedAt = sIssuedAt s, pvExpiresAt = sExpiry s, pvExpiresIn = whole_seconds (sExpiry s - t)\<rparr>"

definition session_Principal :: "session \<Rightarrow> principal" where
  "session_Principal s =
     \<lparr>Subject = sSubject s, Passport = sPassport s, Groups = sGroups s,
      AccessToken = sAccessToken s, SessionID = sCorrelationID s\<rparr>"

section \<open>Fingerprints\<close>

definition fingerprint_text :: "string list \<Rightarrow> request \<Rightarrow> string" where
  "fingerprint_text headers r = concat (map (\<lambda>h. h @ ''='' @ reqGet r h @ [CHR 0x0A]) headers)"

definition computeFingerprint :: "(string \<Rightarrow> string) \<Rightarrow> string list \<Rightarrow> request \<Rightarrow> string" where
  "computeFingerprint sha256 headers r = RawURLEncode (sha256 (fingerprint_text headers r))"

definition fingerprintEqual :: "string \<Rightarrow> string \<Rightarrow> bool" where
  "fingerprintEqual a b \<longleftrightarrow> a = b"

lemmas [cfg_defs] = FromYAML_def ParseIdentity_def parseAssertion_def parse_issue_def parse_accept_def
  parse_groups_def accept_key_def decodeKey_def optR_def ParseStateProvider_def orDefault_def

section \<open>What a parsed configuration guarantees\<close>

definition accept_wf :: "assertion_accept \<Rightarrow> bool" where
  "accept_wf a \<longleftrightarrow> acIssuer a \<noteq> [] \<and> acHeader a \<noteq> [] \<and> acKeys a \<noteq> [] \<and> gm_ok (acKeys a)
     \<and> list_all (\<lambda>(kid, pub). kid \<noteq> [] \<and> length pub = 32) (acKeys a)"

definition issue_wf :: "assertion_issue \<Rightarrow> bool" where
  "issue_wf i \<longleftrightarrow> aiName i \<noteq> [] \<and> aiKeyID i \<noteq> [] \<and> length (aiSeed i) = 32 \<and> aiTTL i > 0 \<and> aiHeader i \<noteq> []"

definition identity_wf :: "identity_config \<Rightarrow> bool" where
  "identity_wf c \<longleftrightarrow> idUserInfo c \<in> {''auto'', ''always'', ''never''} \<and> idSubjectClaim c \<noteq> []
     \<and> (case idGroups c of None \<Rightarrow> True | Some g \<Rightarrow> gcRender g \<in> {''cn'', ''dn''} \<and> gcAs g \<noteq> [])
     \<and> (case idAssertion c of None \<Rightarrow> True
        | Some a \<Rightarrow> (asIssue a \<noteq> None \<or> asAccept a \<noteq> None)
            \<and> (case asIssue a of None \<Rightarrow> True | Some i \<Rightarrow> issue_wf i)
            \<and> (case asAccept a of None \<Rightarrow> True | Some x \<Rightarrow> accept_wf x))"

lemma optR_Inr: "optR f x = Inr y \<longleftrightarrow> (case x of None \<Rightarrow> y = None | Some a \<Rightarrow> (\<exists>b. f a = Inr b \<and> y = Some b))"
  by (auto simp: optR_def result_inr split: option.splits)

lemma orDefault_empty [simp]: "orDefault v d = [] \<longleftrightarrow> v = [] \<and> d = []"
  by (simp add: orDefault_def)

lemma decodeKey_length: "decodeKey s n = Inr b \<Longrightarrow> length b = n"
  by (auto simp: decodeKey_def result_inr)

lemma parse_issue_wf: "parse_issue pd raw = Inr i \<Longrightarrow> issue_wf i"
  by (auto simp: parse_issue_def issue_wf_def result_inr seconds_def dest: decodeKey_length split: if_splits)

definition keys_wf :: "(string, string) gomap \<Rightarrow> bool" where
  "keys_wf keys \<longleftrightarrow> gm_ok keys \<and> gm_get keys [] = None \<and> (\<forall>kid pub. gm_get keys kid = Some pub \<longrightarrow> length pub = 32)"

lemma accept_key_wf: "accept_key keys k = Inr keys' \<Longrightarrow> keys_wf keys \<Longrightarrow> keys_wf keys'"
  by (auto simp: accept_key_def keys_wf_def result_inr gm_get_set dest: decodeKey_length split: if_splits)

lemma accept_key_nonempty: "accept_key keys k = Inr keys' \<Longrightarrow> keys' \<noteq> []"
  by (auto simp: accept_key_def result_inr dest: arg_cong [of _ _ "\<lambda>m. gm_get m (fst k)"] simp: gm_get_set)

lemma accept_keys_nonempty: "foldR accept_key keys ks = Inr keys' \<Longrightarrow> keys \<noteq> [] \<or> ks \<noteq> [] \<Longrightarrow> keys' \<noteq> []"
  by (induction ks arbitrary: keys) (auto dest: accept_key_nonempty split: sum.splits)

lemma parse_accept_wf:
  assumes "parse_accept raw = Inr a"
  shows "accept_wf a"
proof -
  from assms obtain keys where keys: "foldR accept_key [] (raKeys raw) = Inr keys" "raKeys raw \<noteq> []"
    and a: "acIssuer a \<noteq> []" "acHeader a \<noteq> []" "acKeys a = keys"
    by (auto simp: parse_accept_def result_inr)
  have "keys_wf keys"
    by (rule foldR_invariant [OF keys(1)]) (auto simp: keys_wf_def [of "[]"] dest: accept_key_wf)
  then have "gm_ok keys" "list_all (\<lambda>(kid, pub). kid \<noteq> [] \<and> length pub = 32) keys"
    by (auto simp: keys_wf_def list_all_iff gm_get_In)
  with a accept_keys_nonempty [OF keys(1)] keys(2) show ?thesis by (simp add: accept_wf_def)
qed

lemma parseAssertion_wf:
  "parseAssertion pd raw = Inr a \<Longrightarrow> (asIssue a \<noteq> None \<or> asAccept a \<noteq> None)
     \<and> (case asIssue a of None \<Rightarrow> True | Some i \<Rightarrow> issue_wf i)
     \<and> (case asAccept a of None \<Rightarrow> True | Some x \<Rightarrow> accept_wf x)"
  by (auto simp: parseAssertion_def result_inr optR_Inr split: option.splits)
     (metis parse_issue_wf parse_accept_wf)+

lemma parse_groups_wf: "parse_groups raw = Inr g \<Longrightarrow> gcRender g \<in> {''cn'', ''dn''} \<and> gcAs g \<noteq> []"
  by (auto simp: parse_groups_def Let_def result_inr)

text \<open>Every identity block the gateway accepts is usable: a known userinfo mode, a subject claim,
  a known group rendering; if there is an assertion block then it issues or accepts, a signing side has a
  name, a key id, a 32-byte seed and a positive lifetime, and a verifying side has an issuer and at
  least one key, with distinct non-empty ids and 32 bytes each.\<close>

theorem ParseIdentity_wf:
  assumes "ParseIdentity dec pd node = Inr cfg"
  shows "identity_wf cfg"
proof -
  from assms obtain raw :: raw_identity where raw: "bindR (optR parse_groups (rdGroups raw)) (\<lambda>g.
      bindR (optR (parseAssertion pd) (rdAssertion raw)) (\<lambda>a.
      Inr \<lparr>idClaims = (case rdClaims raw of None \<Rightarrow> defaultPassportClaims | Some c \<Rightarrow> c), idGroups = g,
        idUserInfo = orDefault (rdUserInfo raw) ''auto'', idSubjectClaim = orDefault (rdSubjectClaim raw) ''sub'',
        idAssertion = a\<rparr>)) = Inr cfg"
    and ui: "orDefault (rdUserInfo raw) ''auto'' \<in> {''auto'', ''always'', ''never''}"
    unfolding ParseIdentity_def Let_def bindR_eq_Inr [of "case_option _ _ _"] guardR_eq_Inr by blast
  then obtain g a where g: "optR parse_groups (rdGroups raw) = Inr g"
    and a: "optR (parseAssertion pd) (rdAssertion raw) = Inr a"
    and cfg: "idUserInfo cfg = orDefault (rdUserInfo raw) ''auto''" "idGroups cfg = g" "idAssertion cfg = a"
      "idSubjectClaim cfg = orDefault (rdSubjectClaim raw) ''sub''"
    by (auto simp: bindR_eq_Inr)
  have "case g of None \<Rightarrow> True | Some g \<Rightarrow> gcRender g \<in> {''cn'', ''dn''} \<and> gcAs g \<noteq> []"
    using g parse_groups_wf by (auto simp: optR_Inr split: option.splits)
  moreover have "case a of None \<Rightarrow> True
        | Some a \<Rightarrow> (asIssue a \<noteq> None \<or> asAccept a \<noteq> None)
            \<and> (case asIssue a of None \<Rightarrow> True | Some i \<Rightarrow> issue_wf i)
            \<and> (case asAccept a of None \<Rightarrow> True | Some x \<Rightarrow> accept_wf x)"
  proof (cases a)
    case (Some x)
    with a obtain rx where "parseAssertion pd rx = Inr x" by (auto simp: optR_Inr split: option.splits)
    from parseAssertion_wf [OF this] Some show ?thesis by simp
  qed simp
  ultimately show ?thesis using ui cfg by (simp add: identity_wf_def)
qed

definition demo_raw_identity :: raw_identity where
  "demo_raw_identity = \<lparr>rdClaims = Some [''email''], rdGroups = Some \<lparr>gcSource = ''g'', gcMatch = [''x''],
       gcRender = [], gcAs = [], gcStrip = []\<rparr>, rdUserInfo = [], rdSubjectClaim = [],
     rdAssertion = Some \<lparr>rxIssue = Some \<lparr>riName = ''edge'', riKeyID = ''k1'', riKey = replicate 42 CHR ''A'' @ ''A='',
         riTTL = ''30s'', riHeader = []\<rparr>,
       rxAccept = Some \<lparr>raIssuer = ''edge'', raHeader = [], raRequireBearer = None,
         raKeys = [(''k1'', replicate 43 CHR ''A'')]\<rparr>\<rparr>\<rparr>"

theorem ParseIdentity_wf_witness:
  "\<exists>cfg. ParseIdentity (\<lambda>n. Inr demo_raw_identity) (\<lambda>s. Inr (seconds 30)) (Some ()) = Inr cfg \<and> identity_wf cfg"
proof -
  have "\<not> isl (ParseIdentity (\<lambda>n. Inr demo_raw_identity) (\<lambda>s. Inr (seconds 30)) (Some ()))"
    by code_simp
  then obtain cfg where "ParseIdentity (\<lambda>n. Inr demo_raw_identity) (\<lambda>s. Inr (seconds 30)) (Some ()) = Inr cfg"
    by (cases "ParseIdentity (\<lambda>n. Inr demo_raw_identity) (\<lambda>s. Inr (seconds 30)) (Some ())") auto
  with ParseIdentity_wf [OF this] show ?thesis by blast
qed

section \<open>What a fingerprint binds\<close>

lemma line_split:
  "CHR 0x0A \<notin> set a \<Longrightarrow> CHR 0x0A \<notin> set b \<Longrightarrow> a @ CHR 0x0A # s = b @ CHR 0x0A # t \<longleftrightarrow> a = b \<and> s = t"
  by (auto simp: append_eq_append_conv2 Cons_eq_append_conv append_eq_Cons_conv)

lemma fingerprint_text_inject:
  assumes "\<forall>h \<in> set hs. CHR 0x0A \<notin> set (reqGet r h) \<and> CHR 0x0A \<notin> set (reqGet r' h)"
  shows "fingerprint_text hs r = fingerprint_text hs r' \<longleftrightarrow> (\<forall>h \<in> set hs. reqGet r h = reqGet r' h)"
  using assms by (induction hs) (auto simp: fingerprint_text_def line_split)

text \<open>Two requests have the same fingerprint exactly when they agree on every fingerprint header,
  provided the hash does not collide on the two texts (header values hold no line feed): a session
  cookie replayed from a client that differs in one configured header has another fingerprint.\<close>

theorem fingerprint_binds_headers:
  assumes lines: "\<forall>h \<in> set hs. CHR 0x0A \<notin> set (reqGet r h) \<and> CHR 0x0A \<notin> set (reqGet r' h)"
    and no_collision: "sha (fingerprint_text hs r) = sha (fingerprint_text hs r') \<longrightarrow>
      fingerprint_text hs r = fingerprint_text hs r'"
  shows "fingerprintEqual (computeFingerprint sha hs r) (computeFingerprint sha hs r') \<longleftrightarrow>
    (\<forall>h \<in> set hs. reqGet r h = reqGet r' h)"
  using no_collision fingerprint_text_inject [OF lines]
  by (auto simp: fingerprintEqual_def computeFingerprint_def RawURLEncode_inject)

theorem fingerprint_binds_headers_witness:
  "\<not> fingerprintEqual (computeFingerprint rev [''User-Agent''] (demo_req [(''User-Agent'', [''a''])]))
       (computeFingerprint rev [''User-Agent''] (demo_req [(''User-Agent'', [''b''])]))"
  by (subst fingerprint_binds_headers) code_simp+

end
