(* ===== verification/Cookie_Codec.thy ===== *)
theory Cookie_Codec
  imports Session_Core
begin

text \<open>
  Sealed values and chunked cookies (\<^verbatim>\<open>src/session/cookie.go\<close>). AES-GCM and the JSON codec
  are arguments, bundled in \<open>session_env\<close>: \<open>eSeal key nonce plain aad\<close> is ciphertext and tag,
  \<open>eOpen\<close> its inverse or an authentication failure. A GCM nonce has 12 bytes; \<open>aes.NewCipher\<close> and
  \<open>cipher.NewGCM\<close> do not fail on a 32-byte key, nor does \<open>rand.Read\<close> (Go 1.24 and later).
\<close>

record storedSession =
  stSession :: session
  stRefreshToken :: string
  stAccessExpiry :: int

record session_env =
  eLower :: "nat \<Rightarrow> nat"
  eSha256 :: "string \<Rightarrow> string"
  eSeal :: "string \<Rightarrow> string \<Rightarrow> string \<Rightarrow> string \<Rightarrow> string"
  eOpen :: "string \<Rightarrow> string \<Rightarrow> string \<Rightarrow> string \<Rightarrow> string option"
  eMarshal :: "session \<Rightarrow> string option"
  eUnmarshal :: "string \<Rightarrow> session option"
  eMarshalStored :: "storedSession \<Rightarrow> string option"
  eUnmarshalStored :: "string \<Rightarrow> storedSession option"
  eMarshalView :: "public_view \<Rightarrow> string"

section \<open>Sealer\<close>

definition nonceSize :: nat where
  "nonceSize = 12"

definition newSealer32 :: "string \<Rightarrow> string option" where
  "newSealer32 key = (if length key \<noteq> 32 then None else Some key)"

definition seal :: "session_env \<Rightarrow> string \<Rightarrow> string \<Rightarrow> string \<Rightarrow> 'st world \<Rightarrow> string \<times> 'st world" where
  "seal E key plaintext aad w =
     (let nonce = randBytes nonceSize w in
      (RawURLEncode (nonce @ eSeal E key nonce plaintext aad), useRand nonceSize w))"

definition open_sealed :: "session_env \<Rightarrow> string \<Rightarrow> string \<Rightarrow> string \<Rightarrow> string option" where
  "open_sealed E key val aad =
     (case RawURLDecode val of
        None \<Rightarrow> None
      | Some raw \<Rightarrow>
          if length raw < nonceSize then None
          else eOpen E key (take nonceSize raw) (drop nonceSize raw) aad)"

section \<open>Chunked cookies\<close>

definition maxChunk :: nat where
  "maxChunk = 3900"

definition chunk_cookie :: "string \<Rightarrow> string \<Rightarrow> bool \<Rightarrow> setcookie" where
  "chunk_cookie n v secure =
     \<lparr>ckName = n, ckValue = v, ckPath = ''/'', ckHttpOnly = True, ckSecure = secure, ckSameSiteLax = True,
      ckMaxAge = 0\<rparr>"

function write_chunks :: "string \<Rightarrow> bool \<Rightarrow> nat \<Rightarrow> string \<Rightarrow> 'st world \<Rightarrow> 'st world" where
  "write_chunks name secure i val w =
     (if val = [] then w
      else let n = min (length val) maxChunk in
        write_chunks name secure (Suc i) (drop n val)
          (SetCookie (chunk_cookie (name @ ''.'' @ Itoa i) (take n val) secure) w))"
  by pat_completeness auto
termination
  by (relation "measure (\<lambda>(name, secure, i, val, w). length val)") (auto simp: maxChunk_def)

declare write_chunks.simps [simp del]

definition writeChunkedCookie :: "string \<Rightarrow> string \<Rightarrow> bool \<Rightarrow> 'st world \<Rightarrow> 'st world" where
  "writeChunkedCookie name val secure w = write_chunks name secure 0 val w"

definition collect_part :: "string \<Rightarrow> (int, string) gomap \<Rightarrow> string \<times> string \<Rightarrow> (int, string) gomap" where
  "collect_part pre parts c =
     (if HasPrefix (fst c) pre then
        (case Atoi (drop (length pre) (fst c)) of
           Some idx \<Rightarrow> if idx \<ge> 0 then gm_set idx (snd c) parts else parts
         | None \<Rightarrow> parts)
      else parts)"

text \<open>The reassembly loop. It stops at the first missing index, so no more rounds than there are parts.\<close>

fun join_parts :: "nat \<Rightarrow> (int, string) gomap \<Rightarrow> nat \<Rightarrow> string \<Rightarrow> nat \<times> string" where
  "join_parts 0 parts n b = (n, b)"
| "join_parts (Suc fuel) parts n b =
     (case gm_get parts (int n) of
        None \<Rightarrow> (n, b)
      | Some v \<Rightarrow> join_parts fuel parts (Suc n) (b @ v))"

definition readChunkedCookie :: "request \<Rightarrow> string \<Rightarrow> string option" where
  "readChunkedCookie r name =
     (let parts = foldl (collect_part (name @ ''.'')) [] (rCookies r);
          (n, b) = join_parts (Suc (length parts)) parts 0 []
      in if n = 0 then None else Some b)"

definition clearChunkedCookie :: "request \<Rightarrow> string \<Rightarrow> bool \<Rightarrow> 'st world \<Rightarrow> 'st world" where
  "clearChunkedCookie r name secure w =
     foldl (\<lambda>w c. if HasPrefix (fst c) (name @ ''.'')
                  then SetCookie ((chunk_cookie (fst c) [] secure)\<lparr>ckMaxAge := - 1\<rparr>) w else w) w (rCookies r)"

text \<open>The bound of the loop is enough: it always ends at a missing index, and more rounds change nothing.\<close>

lemma missing_index: "\<exists>n \<le> length parts. gm_get parts (int n) = None"
proof (rule ccontr)
  assume "\<not> ?thesis"
  then have "int ` {.. length parts} \<subseteq> fst ` set parts" by (auto simp: gm_get_None)
  then have "card (int ` {.. length parts}) \<le> card (fst ` set parts)" by (intro card_mono) simp_all
  also have "\<dots> \<le> length parts" by (metis card_length length_map set_map)
  finally show False by (simp add: card_image inj_on_def)
qed

lemma join_parts_stops:
  assumes "gm_get parts (int n) = None" "m \<le> n" "n - m < f"
  shows "join_parts (f + k) parts m b = join_parts f parts m b \<and> gm_get parts (int (fst (join_parts f parts m b))) = None"
  using assms
proof (induction f arbitrary: m b)
  case (Suc f)
  show ?case
  proof (cases "gm_get parts (int m)")
    case (Some v)
    with Suc.prems have "Suc m \<le> n" "n - Suc m < f" by (cases "m = n"; simp)+
    with Suc.IH [of "Suc m" "b @ v"] Suc.prems(1) Some show ?thesis by simp
  qed simp
qed simp

lemma join_parts_enough:
  "join_parts (Suc (length parts) + k) parts 0 b = join_parts (Suc (length parts)) parts 0 b"
  "gm_get parts (int (fst (join_parts (Suc (length parts)) parts 0 b))) = None"
proof -
  obtain n where "n \<le> length parts" "gm_get parts (int n) = None" using missing_index by blast
  with join_parts_stops [of parts n 0 "Suc (length parts)" k b]
  show "join_parts (Suc (length parts) + k) parts 0 b = join_parts (Suc (length parts)) parts 0 b"
    "gm_get parts (int (fst (join_parts (Suc (length parts)) parts 0 b))) = None" by simp_all
qed

section \<open>Sealing\<close>

text \<open>What AES-GCM promises: opening what was sealed under the same key, nonce and associated data.\<close>

definition aead_opens :: "session_env \<Rightarrow> string \<Rightarrow> bool" where
  "aead_opens E key \<longleftrightarrow>
     (\<forall>nonce plain aad. length nonce = nonceSize \<longrightarrow>
        eOpen E key nonce (eSeal E key nonce plain aad) aad = Some plain)"

text \<open>And that other associated data is refused.\<close>

definition aead_binds :: "session_env \<Rightarrow> string \<Rightarrow> bool" where
  "aead_binds E key \<longleftrightarrow>
     (\<forall>nonce plain aad aad'. length nonce = nonceSize \<longrightarrow> aad \<noteq> aad' \<longrightarrow>
        eOpen E key nonce (eSeal E key nonce plain aad) aad' = None)"

lemma length_randBytes [simp]: "length (randBytes n w) = n"
  by (simp add: randBytes_def)

lemma open_seal:
  assumes "aead_opens E key"
  shows "open_sealed E key (fst (seal E key plain aad w)) aad = Some plain"
  using assms by (simp add: open_sealed_def seal_def Let_def RawURL_round_trip aead_opens_def)

lemma open_seal_other:
  assumes "aead_binds E key" "aad \<noteq> aad'"
  shows "open_sealed E key (fst (seal E key plain aad w)) aad' = None"
  using assms by (simp add: open_sealed_def seal_def Let_def RawURL_round_trip aead_binds_def)

section \<open>Chunks\<close>

text \<open>the chunks of a value, as a list.\<close>

function chunks :: "string \<Rightarrow> string list" where
  "chunks val = (if val = [] then [] else take maxChunk val # chunks (drop maxChunk val))"
  by pat_completeness auto
termination by (relation "measure length") (auto simp: maxChunk_def)

declare chunks.simps [simp del]

lemma chunks_Nil [simp]: "chunks [] = []"
  by (simp add: chunks.simps)

lemma chunks_nonempty: "v \<noteq> [] \<Longrightarrow> chunks v = take maxChunk v # chunks (drop maxChunk v)"
  by (subst chunks.simps) simp

lemma concat_chunks: "concat (chunks v) = v"
  by (induction v rule: chunks.induct) (subst chunks.simps, simp)

lemma chunks_bound: "c \<in> set (chunks v) \<Longrightarrow> length c \<le> maxChunk \<and> set c \<subseteq> set v"
proof (induction v rule: chunks.induct)
  case (1 v)
  then show ?case
    by (cases "v = []") (auto simp: chunks_nonempty dest: in_set_takeD in_set_dropD)
qed

lemma length_chunks: "length (chunks v) \<le> length v"
proof (induction v rule: chunks.induct)
  case (1 v)
  then show ?case by (cases "v = []") (auto simp: chunks_nonempty maxChunk_def Suc_le_eq intro: le_less_trans)
qed

definition numbered :: "string \<Rightarrow> nat \<Rightarrow> string list \<Rightarrow> (string \<times> string) list" where
  "numbered name i cs = map (\<lambda>(j, c). (name @ ''.'' @ Itoa j, c)) (enumerate i cs)"

lemma numbered_simps [simp]:
  "numbered name i [] = []"
  "numbered name i (c # cs) = (name @ ''.'' @ Itoa i, c) # numbered name (Suc i) cs"
  by (simp_all add: numbered_def)

text \<open>The cookies a response sets.\<close>

definition cookies_of :: "'st world \<Rightarrow> setcookie list" where
  "cookies_of w = wCookies (resp w)"

lemma tokens_Itoa: "list_all tokenByte (Itoa n)"
proof -
  have "tokenByte c" if "isDigit c" for c using that by (simp add: isDigit_def tokenByte_def Let_def)
  then show ?thesis using Itoa_digits [of n] by (auto simp: list_all_iff)
qed

lemma chunk_name_ok: "list_all tokenByte name \<Longrightarrow> list_all tokenByte (name @ ''.'' @ Itoa i)"
  by (simp add: tokens_Itoa) (simp add: tokenByte_def byte_def)

lemma SetCookie_cookies:
  "ckName c \<noteq> [] \<Longrightarrow> list_all tokenByte (ckName c) \<Longrightarrow> list_all valid_cookie_byte (ckValue c) \<Longrightarrow>
     cookies_of (SetCookie c w) = cookies_of w @ [c]"
  by (simp add: SetCookie_def cookies_of_def list_all_iff)

lemma write_chunks_cookies:
  assumes "list_all tokenByte name" "list_all valid_cookie_byte val"
  shows "cookies_of (write_chunks name secure i val w) =
    cookies_of w @ map (\<lambda>(n, v). chunk_cookie n v secure) (numbered name i (chunks val))"
  using assms
proof (induction name secure i val w rule: write_chunks.induct)
  case (1 name secure i val w)
  show ?case
  proof (cases "val = []")
    case True
    then show ?thesis by (simp add: write_chunks.simps)
  next
    case False
    let ?n = "min (length val) maxChunk"
    have eq: "take ?n val = take maxChunk val" "drop ?n val = drop maxChunk val"
      by (auto simp: min_def)
    have valid: "list_all valid_cookie_byte (take maxChunk val)" "list_all valid_cookie_byte (drop maxChunk val)"
      using 1(3) by (auto simp: list_all_iff dest: in_set_takeD in_set_dropD)
    have "cookies_of (SetCookie (chunk_cookie (name @ ''.'' @ Itoa i) (take maxChunk val) secure) w) =
        cookies_of w @ [chunk_cookie (name @ ''.'' @ Itoa i) (take maxChunk val) secure]"
      using valid chunk_name_ok [OF 1(2)] by (subst SetCookie_cookies) (simp_all add: chunk_cookie_def)
    then show ?thesis
      using False 1(1) [OF False refl] 1(2) valid
      by (subst write_chunks.simps) (simp add: eq chunks_nonempty)
  qed
qed

lemma SetCookie_frame [simp]:
  "wStatus (resp (SetCookie c w)) = wStatus (resp w)" "wHeader (resp (SetCookie c w)) = wHeader (resp w)"
  "wBody (resp (SetCookie c w)) = wBody (resp w)"
  "clk (SetCookie c w) = clk w" "tpos (SetCookie c w) = tpos w" "ent (SetCookie c w) = ent w"
  "epos (SetCookie c w) = epos w"
  by (simp_all add: SetCookie_def)

lemma write_chunks_frame [simp]:
  "wStatus (resp (write_chunks name secure i val w)) = wStatus (resp w) \<and>
   ext (write_chunks name secure i val w) = ext w \<and> clk (write_chunks name secure i val w) = clk w \<and>
   tpos (write_chunks name secure i val w) = tpos w"
proof (induction name secure i val w rule: write_chunks.induct)
  case (1 name secure i val w)
  show ?case
  proof (cases "val = []")
    case True
    then show ?thesis by (simp add: write_chunks.simps)
  next
    case False
    with 1 [OF False refl] show ?thesis by (subst (1 2 3 4) write_chunks.simps) (simp add: Let_def)
  qed
qed

section \<open>Clearing\<close>

definition expire_cookie :: "bool \<Rightarrow> string \<Rightarrow> setcookie" where
  "expire_cookie secure n = (chunk_cookie n [] secure)\<lparr>ckMaxAge := - 1\<rparr>"

lemma clear_fold_cookies:
  assumes "list_all (\<lambda>c. list_all tokenByte (fst c)) cs"
  shows "cookies_of (foldl (\<lambda>w c. if HasPrefix (fst c) (name @ ''.'')
        then SetCookie ((chunk_cookie (fst c) [] secure)\<lparr>ckMaxAge := - 1\<rparr>) w else w) w cs) =
    cookies_of w @ map (expire_cookie secure \<circ> fst) (filter (\<lambda>c. HasPrefix (fst c) (name @ ''.'')) cs)"
  using assms
proof (induction cs arbitrary: w)
  case (Cons c cs)
  then show ?case
    by (cases "HasPrefix (fst c) (name @ ''.'')")
       (auto simp: SetCookie_cookies chunk_cookie_def expire_cookie_def HasPrefix_iff)
qed simp

lemma clear_cookies:
  assumes "list_all (\<lambda>c. list_all tokenByte (fst c)) (rCookies r)"
  shows "cookies_of (clearChunkedCookie r name secure w) =
    cookies_of w @ map (expire_cookie secure \<circ> fst) (filter (\<lambda>c. HasPrefix (fst c) (name @ ''.'')) (rCookies r))"
  using clear_fold_cookies [OF assms] by (simp add: clearChunkedCookie_def)

lemma clear_fold_frame:
  "wStatus (resp (foldl (\<lambda>w c. if P c then SetCookie (f c) w else w) w cs)) = wStatus (resp w) \<and>
   ext (foldl (\<lambda>w c. if P c then SetCookie (f c) w else w) w cs) = ext w \<and>
   clk (foldl (\<lambda>w c. if P c then SetCookie (f c) w else w) w cs) = clk w \<and>
   tpos (foldl (\<lambda>w c. if P c then SetCookie (f c) w else w) w cs) = tpos w"
  by (induction cs arbitrary: w) auto

lemma clear_frame [simp]:
  "wStatus (resp (clearChunkedCookie r name secure w)) = wStatus (resp w)"
  "ext (clearChunkedCookie r name secure w) = ext w"
  "clk (clearChunkedCookie r name secure w) = clk w"
  "tpos (clearChunkedCookie r name secure w) = tpos w"
  by (simp_all add: clearChunkedCookie_def clear_fold_frame)

section \<open>The browser's jar\<close>

lemma apply_cookies_append: "apply_cookies (a @ b) jar = apply_cookies b (apply_cookies a jar)"
  by (induction a arbitrary: jar) auto

lemma delete_filter: "gm_del k jar = filter (\<lambda>c. fst c \<noteq> k) jar"
  by (induction jar) auto

lemma apply_expire:
  "apply_cookies (map (expire_cookie secure \<circ> fst) cs) jar = filter (\<lambda>c. fst c \<notin> fst ` set cs) jar"
  by (induction cs arbitrary: jar)
     (auto simp: expire_cookie_def delete_filter chunk_cookie_def intro: filter_cong)

lemma update_fresh: "k \<notin> fst ` set jar \<Longrightarrow> gm_set k v jar = jar @ [(k, v)]"
  by (induction jar) auto

lemma apply_write:
  assumes "distinct (map fst cs)" "fst ` set cs \<inter> fst ` set jar = {}"
  shows "apply_cookies (map (\<lambda>(n, v). chunk_cookie n v secure) cs) jar = jar @ cs"
  using assms
proof (induction cs arbitrary: jar)
  case (Cons c cs)
  obtain k v where c: "c = (k, v)" by (cases c)
  have "apply_cookies (map (\<lambda>(n, v). chunk_cookie n v secure) cs) (jar @ [(k, v)]) = (jar @ [(k, v)]) @ cs"
    using Cons.prems c by (intro Cons.IH) auto
  moreover have "gm_set k v jar = jar @ [(k, v)]" using Cons.prems c by (intro update_fresh) auto
  ultimately show ?case by (simp add: c chunk_cookie_def)
qed simp

lemma numbered_map_fst: "map fst (numbered name i cs) = map (\<lambda>j. name @ ''.'' @ Itoa j) [i ..< i + length cs]"
  by (induction cs arbitrary: i) (simp_all add: upt_rec)

lemma numbered_names: "fst ` set (numbered name i cs) = (\<lambda>j. name @ ''.'' @ Itoa j) ` {i ..< i + length cs}"
  using arg_cong [OF numbered_map_fst [of name i cs], of set] by simp

lemma numbered_distinct: "distinct (map fst (numbered name i cs))"
  by (simp add: numbered_map_fst distinct_map inj_on_def Itoa_inject)

section \<open>Reassembly\<close>

lemma collect_foreign:
  "list_all (\<lambda>c. \<not> HasPrefix (fst c) pre) cs \<Longrightarrow> foldl (collect_part pre) parts cs = parts"
  by (induction cs) (auto simp: collect_part_def)

lemma collect_own: "foldl (collect_part pre) parts (filter (\<lambda>c. HasPrefix (fst c) pre) cs) = foldl (collect_part pre) parts cs"
  by (induction cs arbitrary: parts) (auto simp: collect_part_def)

text \<open>Cookies with other names play no part in the reassembly.\<close>

lemma read_own_chunks:
  assumes "filter (\<lambda>c. HasPrefix (fst c) (name @ ''.'')) (rCookies r) = filter (\<lambda>c. HasPrefix (fst c) (name @ ''.'')) (rCookies r')"
  shows "readChunkedCookie r name = readChunkedCookie r' name"
  using assms collect_own [of "name @ ''.''" "[]" "rCookies r"] collect_own [of "name @ ''.''" "[]" "rCookies r'"]
  by (simp add: readChunkedCookie_def)

lemma collect_numbered:
  assumes "i + length cs < 2 ^ 63"
  shows "gm_get (foldl (collect_part (name @ ''.'')) parts (numbered name i cs)) n =
    (if int i \<le> n \<and> n < int (i + length cs) then Some (cs ! nat (n - int i)) else gm_get parts n)"
  using assms
proof (induction cs arbitrary: i parts)
  case (Cons c cs)
  have i: "int i < 2 ^ 63" using Cons.prems by (metis add_lessD1 of_nat_less_iff of_nat_numeral of_nat_power)
  have step: "collect_part (name @ ''.'') parts (name @ CHR ''.'' # Itoa i, c) = gm_set (int i) c parts"
    using HasPrefix_append [of "name @ ''.''" "Itoa i"] by (simp add: collect_part_def Atoi_Itoa [OF i])
  have "nat (n - int i) = Suc (nat (n - int (Suc i)))" if "int (Suc i) \<le> n" using that by linarith
  then show ?case
    using Cons.IH [of "Suc i" "gm_set (int i) c parts"] Cons.prems by (auto simp: step gm_get_set)
qed auto

lemma join_parts_concat:
  assumes "\<forall>k. gm_get parts (int k) = (if k < length cs then Some (cs ! k) else None)"
    and "n \<le> length cs" "length cs - n \<le> fuel"
  shows "join_parts fuel parts n b = (length cs, b @ concat (drop n cs))"
  using assms(2,3)
proof (induction fuel arbitrary: n b)
  case 0
  then show ?case by simp
next
  case (Suc fuel)
  show ?case
  proof (cases "n < length cs")
    case True
    then have "drop n cs = cs ! n # drop (Suc n) cs" by (rule Cons_nth_drop_Suc [symmetric])
    with True Suc.IH [of "Suc n" "b @ cs ! n"] Suc.prems assms(1) show ?thesis by simp
  next
    case False
    then show ?thesis using assms(1) Suc.prems by simp
  qed
qed

lemma parts_length: "gm_ok parts \<Longrightarrow> \<forall>k < m. gm_get parts (int k) \<noteq> None \<Longrightarrow> m \<le> length parts"
proof -
  assume ok: "gm_ok parts" and all: "\<forall>k < m. gm_get parts (int k) \<noteq> None"
  have "int ` {..<m} \<subseteq> fst ` set parts"
    using all by (auto simp: gm_get_None simp del: not_None_eq)
  then have "card (int ` {..<m}) \<le> card (fst ` set parts)" by (rule card_mono [OF finite_imageI [OF finite_set]])
  also have "card (int ` {..<m}) = m" by (simp add: card_image)
  also have "card (fst ` set parts) = length parts"
    using ok distinct_card [of "map fst parts"] by (simp add: gm_ok_def)
  finally show ?thesis .
qed

lemma collect_ok: "gm_ok parts \<Longrightarrow> gm_ok (foldl (collect_part pre) parts cs)"
  by (induction cs arbitrary: parts) (auto simp: collect_part_def split: option.splits)

lemma read_numbered:
  assumes "rCookies r = jar @ numbered name 0 cs" "list_all (\<lambda>c. \<not> HasPrefix (fst c) (name @ ''.'')) jar"
    and "length cs < 2 ^ 63" "cs \<noteq> []"
  shows "readChunkedCookie r name = Some (concat cs)"
proof -
  let ?parts = "foldl (collect_part (name @ ''.'')) [] (rCookies r)"
  have eq: "?parts = foldl (collect_part (name @ ''.'')) [] (numbered name 0 cs)"
    using assms(1) collect_foreign [OF assms(2)] by simp
  have get: "\<forall>k. gm_get ?parts (int k) = (if k < length cs then Some (cs ! k) else None)"
    using assms(3) unfolding eq by (simp add: collect_numbered)
  have "length cs \<le> length ?parts"
    by (rule parts_length) (simp_all add: collect_ok get)
  then have "join_parts (Suc (length ?parts)) ?parts 0 [] = (length cs, concat cs)"
    using join_parts_concat [OF get, of 0 "Suc (length ?parts)" "[]"] by simp
  then show ?thesis using assms(4) by (simp add: readChunkedCookie_def)
qed

lemma read_none:
  assumes "list_all (\<lambda>c. \<not> HasPrefix (fst c) (name @ ''.'')) (rCookies r)"
  shows "readChunkedCookie r name = None"
  using collect_foreign [OF assms] by (simp add: readChunkedCookie_def)

lemma chunked_transport:
  assumes "list_all tokenByte name" "list_all valid_cookie_byte val" "val \<noteq> []" "length val < 2 ^ 63"
    and "list_all (\<lambda>c. list_all tokenByte (fst c)) (rCookies r)" "wCookies (resp w) = []"
    and "w' = writeChunkedCookie name val secure (clearChunkedCookie r name secure w)"
    and "rCookies r' = apply_cookies (wCookies (resp w')) (rCookies r)"
  shows "readChunkedCookie r' name = Some val \<and> (\<forall>c \<in> set (wCookies (resp w')). length (ckValue c) \<le> maxChunk)"
proof -
  let ?pre = "\<lambda>c. HasPrefix (fst c) (name @ ''.'')"
  let ?jar = "filter (\<lambda>c. \<not> ?pre c) (rCookies r)"
  let ?new = "numbered name 0 (chunks val)"
  have cookies: "wCookies (resp w') = map (expire_cookie secure \<circ> fst) (filter ?pre (rCookies r))
      @ map (\<lambda>(n, v). chunk_cookie n v secure) ?new"
    using write_chunks_cookies [OF assms(1,2), of secure 0 "clearChunkedCookie r name secure w"]
      clear_cookies [OF assms(5), of name secure w] assms(6)
    by (simp add: assms(7) writeChunkedCookie_def cookies_of_def)
  have cleared: "filter (\<lambda>c. fst c \<notin> fst ` set (filter ?pre (rCookies r))) (rCookies r) = ?jar"
    by (rule filter_cong) auto
  have "fst ` set ?new \<inter> fst ` set ?jar = {}"
  proof -
    have "HasPrefix k (name @ ''.'')" if "k \<in> fst ` set ?new" for k
      using that HasPrefix_append [of "name @ ''.''"] by (auto simp: numbered_names)
    then show ?thesis by fastforce
  qed
  then have jar: "rCookies r' = ?jar @ ?new"
    unfolding assms(8) cookies apply_cookies_append apply_expire cleared
    by (intro apply_write numbered_distinct)
  have "length (chunks val) < 2 ^ 63" using length_chunks [of val] assms(4) by simp
  with jar have "readChunkedCookie r' name = Some val"
    using read_numbered [OF jar] assms(3) by (simp add: list_all_iff concat_chunks chunks_nonempty [symmetric])
      (simp add: chunks_nonempty)
  moreover have "length (ckValue c) \<le> maxChunk" if "c \<in> set (wCookies (resp w'))" for c
    using that chunks_bound [OF nth_mem, of _ val] unfolding cookies numbered_def
    by (auto simp: expire_cookie_def chunk_cookie_def in_set_enumerate_eq)
  ultimately show ?thesis by blast
qed

lemmas chunked_read = chunked_transport [THEN conjunct1]

text \<open>C37. Whatever cookies the browser held, after a response that clears the session cookie and then
  writes a value in chunks, the next request carries exactly that value: the chunks fit the size
  budget, stale chunks of a longer value are gone, and reassembly gives the value back.\<close>

theorem chunked_cookie_round_trip:
  assumes "list_all tokenByte name" "list_all valid_cookie_byte val" "val \<noteq> []" "length val < 2 ^ 63"
    and "list_all (\<lambda>c. list_all tokenByte (fst c)) (rCookies r)" "wCookies (resp w) = []"
    and "w' = writeChunkedCookie name val secure (clearChunkedCookie r name secure w)"
    and "rCookies r' = apply_cookies (wCookies (resp w')) (rCookies r)"
  shows "readChunkedCookie r' name = Some val \<and> (\<forall>c \<in> set (wCookies (resp w')). length (ckValue c) \<le> maxChunk)"
  by (rule chunked_transport [OF assms])

theorem chunked_cookie_round_trip_witness:
  "readChunkedCookie (demo_request\<lparr>rCookies := apply_cookies (wCookies (resp
       (writeChunkedCookie ''s'' ''abc'' True (clearChunkedCookie
          (demo_request\<lparr>rCookies := [(''s.0'', ''x''), (''s.1'', ''y''), (''t'', ''z'')]\<rparr>) ''s'' True (demo_world ())))))
       [(''s.0'', ''x''), (''s.1'', ''y''), (''t'', ''z'')]\<rparr>) ''s'' = Some ''abc''"
  using chunked_cookie_round_trip [where name = "''s''" and val = "''abc''" and secure = True and w = "demo_world ()"
      and r = "demo_request\<lparr>rCookies := [(''s.0'', ''x''), (''s.1'', ''y''), (''t'', ''z'')]\<rparr>", OF _ _ _ _ _ _ refl]
  by (simp add: demo_world_def empty_response_def valid_cookie_byte_def byte_def tokenByte_def)

lemma numbered_snoc: "numbered name i (cs @ [x]) = numbered name i cs @ [(name @ ''.'' @ Itoa (i + length cs), x)]"
  by (induction cs arbitrary: i) simp_all

text \<open>A cookie that happens to carry the next chunk index is joined to the value: one cookie tossed onto
  the domain under \<open><name>.<number of chunks>\<close> changes what is read, so the value no longer opens.\<close>

theorem injected_next_chunk:
  assumes "rCookies r = jar @ numbered name 0 (chunks val) @ [(name @ ''.'' @ Itoa (length (chunks val)), x)]"
    and "list_all (\<lambda>c. \<not> HasPrefix (fst c) (name @ ''.'')) jar" "length val < 2 ^ 62"
  shows "readChunkedCookie r name = Some (val @ x)"
proof -
  have "rCookies r = jar @ numbered name 0 (chunks val @ [x])"
    using assms(1) by (simp add: numbered_snoc)
  moreover have "length (chunks val @ [x]) < 2 ^ 63" using assms(3) length_chunks [of val] by simp
  ultimately show ?thesis
    using read_numbered [OF _ assms(2), of r "chunks val @ [x]"] by (simp add: concat_chunks)
qed

theorem injected_next_chunk_witness:
  "readChunkedCookie (demo_request\<lparr>rCookies := [(''s.0'', ''abc''), (''s.1'', ''!'')]\<rparr>) ''s'' = Some (''abc'' @ ''!'')"
proof (rule injected_next_chunk [where jar = "[]"])
  show "rCookies (demo_request\<lparr>rCookies := [(''s.0'', ''abc''), (''s.1'', ''!'')]\<rparr>) =
      [] @ numbered ''s'' 0 (chunks ''abc'') @ [(''s'' @ ''.'' @ Itoa (length (chunks ''abc'')), ''!'')]"
    by code_simp
qed simp_all

end
