(* ===== verification/Session_Manager.thy ===== *)
theory Session_Manager
  imports Cookie_Codec
begin

text \<open>
  Session managers (\<^verbatim>\<open>src/session/manager.go\<close>, \<^verbatim>\<open>info.go\<close>). The interface
  \<open>Manager\<close> is a record of its three methods, and the locale \<open>session_manager\<close> states what its
  clients (the session gate, the login endpoints, the info handler) rely on. \<open>cookieManager\<close> is
  the stateless implementation: the whole session sealed into chunked cookies.
\<close>

datatype read_error = ErrNoSession | ErrInvalidSession

record 'st manager =
  mIssue :: "request \<Rightarrow> identity \<Rightarrow> claims \<Rightarrow> tokens \<Rightarrow> 'st world \<Rightarrow> string option \<times> 'st world"
  mRead :: "request \<Rightarrow> 'st world \<Rightarrow> (read_error, session) result \<times> 'st world"
  mClear :: "request \<Rightarrow> 'st world \<Rightarrow> 'st world"

definition sessionAAD :: string where
  "sessionAAD = ''hog/session/v1''"

definition secureFromRequest :: "request \<Rightarrow> bool" where
  "secureFromRequest r = (let p = reqGet r ''X-Forwarded-Proto'' in if p \<noteq> [] then p = ''https'' else True)"

definition makeSession :: "session_env \<Rightarrow> session_config \<Rightarrow> identity \<Rightarrow> claims \<Rightarrow> tokens \<Rightarrow> request
    \<Rightarrow> 'st world \<Rightarrow> session \<times> 'st world" where
  "makeSession E cfg idt userinfo tok r w =
     (\<lparr>sSubject = resolveSubject (scSubjectClaim cfg) (idtSubject idt) (idtClaims idt) userinfo,
       sPassport = projectPassport (scPassportClaims cfg) (idtClaims idt) userinfo,
       sGroups = projectGroups (eLower E) (scGroups cfg) userinfo (idtClaims idt),
       sAccessToken = tkAccessToken tok,
       sExpiry = now w + scTTL cfg,
       sIssuedAt = now w,
       sFingerprint = computeFingerprint (eSha256 E) (scFingerprintHeaders cfg) r,
       sCorrelationID = []\<rparr>, tick w)"

section \<open>The cookie manager\<close>

definition cookie_Issue :: "session_env \<Rightarrow> session_config \<Rightarrow> request \<Rightarrow> identity \<Rightarrow> claims \<Rightarrow> tokens
    \<Rightarrow> 'st world \<Rightarrow> string option \<times> 'st world" where
  "cookie_Issue E cfg r idt userinfo tok w =
     (let (s, w1) = makeSession E cfg idt userinfo tok r w in
      case eMarshal E s of
        None \<Rightarrow> (Some ''json: marshal'', w1)
      | Some payload \<Rightarrow>
          let (val, w2) = seal E (scKey cfg) payload sessionAAD w1;
              secure = secureFromRequest r
          in (None, writeChunkedCookie (scCookieName cfg) val secure
                (clearChunkedCookie r (scCookieName cfg) secure w2)))"

definition cookie_Read :: "session_env \<Rightarrow> session_config \<Rightarrow> request \<Rightarrow> 'st world
    \<Rightarrow> (read_error, session) result \<times> 'st world" where
  "cookie_Read E cfg r w =
     (case readChunkedCookie r (scCookieName cfg) of
        None \<Rightarrow> (Inl ErrNoSession, w)
      | Some val \<Rightarrow>
          (case open_sealed E (scKey cfg) val sessionAAD of
             None \<Rightarrow> (Inl ErrInvalidSession, w)
           | Some payload \<Rightarrow>
               (case eUnmarshal E payload of
                  None \<Rightarrow> (Inl ErrInvalidSession, w)
                | Some s \<Rightarrow>
                    if Expired s (now w) then (Inl ErrInvalidSession, tick w)
                    else if \<not> fingerprintEqual (sFingerprint s)
                              (computeFingerprint (eSha256 E) (scFingerprintHeaders cfg) r)
                    then (Inl ErrInvalidSession, tick w)
                    else (Inr s, tick w))))"

definition cookie_Clear :: "session_config \<Rightarrow> request \<Rightarrow> 'st world \<Rightarrow> 'st world" where
  "cookie_Clear cfg r w = clearChunkedCookie r (scCookieName cfg) (secureFromRequest r) w"

definition cookieManager :: "session_env \<Rightarrow> session_config \<Rightarrow> 'st manager" where
  "cookieManager E cfg = \<lparr>mIssue = cookie_Issue E cfg, mRead = cookie_Read E cfg, mClear = cookie_Clear cfg\<rparr>"

definition NewManager :: "session_env \<Rightarrow> session_config \<Rightarrow> 'st manager option" where
  "NewManager E cfg = (case newSealer32 (scKey cfg) of None \<Rightarrow> None | Some k \<Rightarrow> Some (cookieManager E cfg))"

section \<open>The info endpoint\<close>

definition InfoHandler :: "session_env \<Rightarrow> 'st manager \<Rightarrow> 'st handler" where
  "InfoHandler E m r w =
     (if rMethod r \<noteq> ''GET'' then Done (httpError ''method not allowed'' 405 (wSet ''Allow'' ''GET'' w))
      else case mRead m r w of
        (Inl e, w1) \<Rightarrow> Done (httpError ''unauthorized'' 401 w1)
      | (Inr s, w1) \<Rightarrow>
          let w2 = wSet ''Content-Type'' ''application/json'' w1 in
          Done (Write (eMarshalView E (PublicView s (now w2)) @ [CHR 0x0A]) (tick w2)))"

section \<open>What clients rely on\<close>

definition cookie_tokens :: "request \<Rightarrow> bool" where
  "cookie_tokens r \<longleftrightarrow> list_all (\<lambda>c. list_all tokenByte (fst c)) (rCookies r)"

text \<open>The request a browser sends next: it has applied the cookies of the response.\<close>

definition follows :: "request \<Rightarrow> 'st world \<Rightarrow> request \<Rightarrow> bool" where
  "follows r w r' \<longleftrightarrow> rCookies r' = apply_cookies (wCookies (resp w)) (rCookies r)"

locale session_manager =
  fixes m :: "'st manager" and name :: string
  assumes read_resp: "resp (snd (mRead m r w)) = resp w"
    and issue_status: "wStatus (resp (snd (mIssue m r idt ui tok w))) = wStatus (resp w)"
    and issue_error: "fst (mIssue m r idt ui tok w) \<noteq> None \<Longrightarrow> resp (snd (mIssue m r idt ui tok w)) = resp w"
    and clear_status: "wStatus (resp (mClear m r w)) = wStatus (resp w)"
    and clear_none: "name \<noteq> [] \<Longrightarrow> list_all tokenByte name \<Longrightarrow> cookie_tokens r \<Longrightarrow> wCookies (resp w) = [] \<Longrightarrow>
      follows r (mClear m r w) r' \<Longrightarrow> fst (mRead m r' w') = Inl ErrNoSession"
begin

lemma info_status:
  assumes "wStatus (resp w) = None"
  shows "\<exists>w'. InfoHandler E m r w = Done w' \<and>
    wStatus (resp w') = Some (if rMethod r \<noteq> ''GET'' then 405 else case fst (mRead m r w) of Inl e \<Rightarrow> 401 | Inr s \<Rightarrow> 200)"
proof (cases "mRead m r w")
  case (Pair res w1)
  then have "resp w1 = resp w" using read_resp [of r w] by simp
  with assms Pair show ?thesis
    by (auto simp: InfoHandler_def Let_def httpError_status Write_status tick_def wSet_def split: sum.splits)
qed

lemma info_after_clear:
  assumes "name \<noteq> []" "list_all tokenByte name" "cookie_tokens r" "wCookies (resp w) = []"
    and "follows r (mClear m r w) r'" "rMethod r' = ''GET''" "wStatus (resp w') = None"
  shows "\<exists>w''. InfoHandler E m r' w' = Done w'' \<and> wStatus (resp w'') = Some 401"
  using info_status [OF assms(7), of E r'] clear_none [OF assms(1-5)] assms(6) by simp

end

section \<open>The cookie manager keeps the contract\<close>

lemma seal_frame [simp]:
  "resp (snd (seal E k p a w)) = resp w" "ext (snd (seal E k p a w)) = ext w"
  "clk (snd (seal E k p a w)) = clk w" "tpos (snd (seal E k p a w)) = tpos w"
  by (simp_all add: seal_def Let_def useRand_def)

lemma tick_frame [simp]: "resp (tick w) = resp w" "clk (tick w) = clk w" "tpos (tick w) = Suc (tpos w)"
  "ent (tick w) = ent w" "epos (tick w) = epos w"
  by (simp_all add: tick_def)

lemma makeSession_frame [simp]:
  "snd (makeSession E cfg idt ui tok r w) = tick w"
  by (simp add: makeSession_def)

lemma cookie_Read_world: "snd (cookie_Read E cfg r w) \<in> {w, tick w}"
  by (auto simp: cookie_Read_def split: option.splits)

lemma clear_then_none:
  assumes "cookie_tokens r" "wCookies (resp w) = []" "follows r (clearChunkedCookie r name secure w) r'"
  shows "readChunkedCookie r' name = None"
proof -
  let ?pre = "\<lambda>c. HasPrefix (fst c) (name @ ''.'')"
  have "rCookies r' = filter (\<lambda>c. fst c \<notin> fst ` set (filter ?pre (rCookies r))) (rCookies r)"
    using assms clear_cookies [of r name secure w]
    by (simp add: follows_def cookie_tokens_def cookies_of_def apply_expire)
  then show ?thesis by (intro read_none) (auto simp: list_all_iff image_iff)
qed

interpretation cookieM: session_manager "cookieManager E cfg" "scCookieName cfg" for E cfg
proof
  fix r :: request and w w' :: "'a world" and idt ui tok r'
  show "resp (snd (mRead (cookieManager E cfg) r w)) = resp w"
    using cookie_Read_world [of E cfg r w] by (auto simp: cookieManager_def)
  show "wStatus (resp (snd (mIssue (cookieManager E cfg) r idt ui tok w))) = wStatus (resp w)"
    by (simp add: cookieManager_def cookie_Issue_def Let_def split_beta writeChunkedCookie_def split: option.split)
  show "resp (snd (mIssue (cookieManager E cfg) r idt ui tok w)) = resp w"
    if "fst (mIssue (cookieManager E cfg) r idt ui tok w) \<noteq> None"
    using that by (auto simp: cookieManager_def cookie_Issue_def Let_def split_beta split: option.splits)
  show "wStatus (resp (mClear (cookieManager E cfg) r w)) = wStatus (resp w)"
    by (simp add: cookieManager_def cookie_Clear_def)
  show "fst (mRead (cookieManager E cfg) r' w') = Inl ErrNoSession"
    if "cookie_tokens r" "wCookies (resp w) = []" "follows r (mClear (cookieManager E cfg) r w) r'"
    using clear_then_none [OF that(1,2)] that(3) by (simp add: cookieManager_def cookie_Clear_def cookie_Read_def)
qed

section \<open>Round trip, binding and separation\<close>

lemma valid_cookie_RawURL: "list_all valid_cookie_byte (RawURLEncode s)"
proof -
  have "valid_cookie_byte c" if "plain_byte c" for c using that by (simp add: valid_cookie_byte_def plain_byte_def)
  then show ?thesis using RawURLEncode_plain [of _ s] by (simp add: list_all_iff)
qed

text \<open>A session issued into a browser is read back from any request that presents the same session cookies.\<close>

lemma cookie_session_read:
  assumes issued: "cookie_Issue E cfg r idt ui tok w = (None, w')"
    and aead: "aead_opens E (scKey cfg)"
    and json: "eMarshal E (fst (makeSession E cfg idt ui tok r w)) = Some payload"
      "eUnmarshal E payload = Some (fst (makeSession E cfg idt ui tok r w))"
    and size: "length (fst (seal E (scKey cfg) payload sessionAAD (tick w))) < 2 ^ 63"
    and names: "list_all tokenByte (scCookieName cfg)" "cookie_tokens r" "wCookies (resp w) = []"
    and browser: "follows r w' r0" "readChunkedCookie r' (scCookieName cfg) = readChunkedCookie r0 (scCookieName cfg)"
      "\<forall>h \<in> set (scFingerprintHeaders cfg). reqGet r' h = reqGet r h"
    and time: "now w2 \<le> now w + scTTL cfg"
  shows "cookie_Read E cfg r' w2 = (Inr (fst (makeSession E cfg idt ui tok r w)), tick w2)"
proof -
  let ?s = "fst (makeSession E cfg idt ui tok r w)"
  let ?sealed = "seal E (scKey cfg) payload sessionAAD (tick w)"
  have w': "w' = writeChunkedCookie (scCookieName cfg) (fst ?sealed) (secureFromRequest r)
      (clearChunkedCookie r (scCookieName cfg) (secureFromRequest r) (snd ?sealed))"
    using issued json(1) by (simp add: cookie_Issue_def Let_def split_beta)
  have "list_all valid_cookie_byte (fst ?sealed)" "fst ?sealed \<noteq> []"
    by (simp_all add: seal_def Let_def valid_cookie_RawURL RawURLEncode_nonempty randBytes_def nonceSize_def)
  then have "readChunkedCookie r0 (scCookieName cfg) = Some (fst ?sealed)"
    using chunked_read [OF names(1) _ _ size _ _ w'] names(2,3) browser(1)
    by (simp add: cookie_tokens_def follows_def)
  then have "readChunkedCookie r' (scCookieName cfg) = Some (fst ?sealed)" by (simp add: browser(2))
  moreover have "open_sealed E (scKey cfg) (fst ?sealed) sessionAAD = Some payload"
    by (rule open_seal [OF aead])
  moreover have "fingerprint_text (scFingerprintHeaders cfg) r' = fingerprint_text (scFingerprintHeaders cfg) r"
    using browser(3) by (simp add: fingerprint_text_def cong: map_cong)
  ultimately show ?thesis
    using json(2) time
    by (simp add: cookie_Read_def Expired_def fingerprintEqual_def makeSession_def computeFingerprint_def)
qed

text \<open>C7. A session issued into a browser comes back: whatever cookies the browser held before, the next
  request from a client with the same fingerprint headers, before the session's expiry, is read as
  exactly the session that was issued.\<close>

theorem cookie_session_round_trip:
  assumes issued: "cookie_Issue E cfg r idt ui tok w = (None, w')"
    and aead: "aead_opens E (scKey cfg)"
    and json: "eMarshal E (fst (makeSession E cfg idt ui tok r w)) = Some payload"
      "eUnmarshal E payload = Some (fst (makeSession E cfg idt ui tok r w))"
    and size: "length (fst (seal E (scKey cfg) payload sessionAAD (tick w))) < 2 ^ 63"
    and names: "list_all tokenByte (scCookieName cfg)" "cookie_tokens r" "wCookies (resp w) = []"
    and browser: "follows r w' r'" "\<forall>h \<in> set (scFingerprintHeaders cfg). reqGet r' h = reqGet r h"
    and time: "now w2 \<le> now w + scTTL cfg"
  shows "cookie_Read E cfg r' w2 = (Inr (fst (makeSession E cfg idt ui tok r w)), tick w2)"
  by (rule cookie_session_read [OF issued aead json size names browser(1) refl browser(2) time])

text \<open>A concrete environment that satisfies the laws assumed of AES-GCM and of the codec.\<close>

definition demo_header :: "string \<Rightarrow> string" where
  "demo_header aad = replicate (length aad) CHR ''x'' @ CHR ''y'' # aad"

definition demo_env :: "session \<Rightarrow> storedSession \<Rightarrow> session_env" where
  "demo_env s rec = \<lparr>eLower = ascii_rune_lower, eSha256 = (\<lambda>t. t),
     eSeal = (\<lambda>k n p a. demo_header a @ p),
     eOpen = (\<lambda>k n c a. if HasPrefix c (demo_header a) then Some (drop (length (demo_header a)) c) else None),
     eMarshal = (\<lambda>s. Some ''j''), eUnmarshal = (\<lambda>t. Some s),
     eMarshalStored = (\<lambda>s. Some ''j''), eUnmarshalStored = (\<lambda>t. Some rec),
     eMarshalView = (\<lambda>v. pvSubject v)\<rparr>"

lemma demo_header_prefix: "HasPrefix (demo_header a @ p) (demo_header b) \<longleftrightarrow> a = b"
proof -
  have "HasPrefix (replicate m CHR ''x'' @ CHR ''y'' # u) (replicate n CHR ''x'' @ CHR ''y'' # v)
      \<longleftrightarrow> m = n \<and> HasPrefix u v" for m n u v
    by (induction m arbitrary: n) (case_tac n; auto)+
  then show ?thesis by (auto simp: demo_header_def HasPrefix_def)
qed

lemma demo_env_opens: "aead_opens (demo_env s rec) k"
  by (simp add: aead_opens_def demo_env_def)

lemma demo_env_binds: "aead_binds (demo_env s rec) k"
  by (simp add: aead_binds_def demo_env_def demo_header_prefix)

definition demo_session_config :: session_config where
  "demo_session_config = \<lparr>scCookieName = ''hog'', scKey = replicate 32 CHR ''k'', scTTL = seconds 3600,
     scFingerprintHeaders = [''User-Agent''], scPassportClaims = [''email''], scGroups = None,
     scInfoPath = ''/auth/session'', scPostLogoutRedirect = ''/'', scSubjectClaim = []\<rparr>"

definition demo_idt :: identity where
  "demo_idt = \<lparr>idtSubject = ''ann'', idtEmail = ''a@x'', idtName = ''Ann'', idtClaims = [(''email'', VStr ''a@x'')]\<rparr>"

definition demo_tokens :: tokens where
  "demo_tokens = \<lparr>tkIDToken = ''it'', tkAccessToken = ''at'', tkRefreshToken = ''rt'', tkExpiry = seconds 600\<rparr>"

definition demo_session :: session where
  "demo_session = \<lparr>sSubject = ''ann'', sPassport = [(''email'', VStr ''a@x'')], sGroups = [], sAccessToken = ''at'',
     sExpiry = seconds 3600, sIssuedAt = 0, sFingerprint = RawURLEncode (''User-Agent='' @ [CHR 0x0A]),
     sCorrelationID = []\<rparr>"

definition demo_stored :: storedSession where
  "demo_stored = \<lparr>stSession = demo_session, stRefreshToken = ''rt'', stAccessExpiry = seconds 600\<rparr>"

abbreviation demo_E :: session_env where
  "demo_E \<equiv> demo_env demo_session demo_stored"

lemma demo_makeSession:
  "fst (makeSession demo_E demo_session_config demo_idt [] demo_tokens demo_request (demo_world ())) = demo_session"
  by code_simp

definition demo_issued :: "unit world" where
  "demo_issued = snd (cookie_Issue demo_E demo_session_config demo_request demo_idt [] demo_tokens (demo_world ()))"

theorem cookie_session_round_trip_witness:
  "cookie_Read demo_E demo_session_config
     (demo_request\<lparr>rCookies := apply_cookies (wCookies (resp demo_issued)) []\<rparr>) (demo_world ())
   = (Inr demo_session, tick (demo_world ()))"
proof -
  have "length (fst (seal demo_E (scKey demo_session_config) ''j'' sessionAAD (tick (demo_world ())))) = 56"
    by code_simp
  then have "length (fst (seal demo_E (scKey demo_session_config) ''j'' sessionAAD (tick (demo_world ())))) < 2 ^ 63"
    by simp
  moreover have "cookie_Issue demo_E demo_session_config demo_request demo_idt [] demo_tokens (demo_world ()) = (None, demo_issued)"
    by (simp add: demo_issued_def cookie_Issue_def Let_def split_beta demo_env_def)
  ultimately show ?thesis
    using cookie_session_round_trip [where E = demo_E and cfg = demo_session_config and r = demo_request and idt = demo_idt
        and ui = "[]" and tok = demo_tokens and w = "demo_world ()" and w' = demo_issued and payload = "''j''"
        and ?w2.0 = "demo_world ()" and r' = "demo_request\<lparr>rCookies := apply_cookies (wCookies (resp demo_issued)) []\<rparr>",
        OF _ demo_env_opens]
    by (simp add: demo_makeSession) (simp add: demo_env_def demo_session_config_def demo_request_def demo_world_def empty_response_def
      cookie_tokens_def follows_def reqGet_def now_def seconds_def tokenByte_def byte_def)
qed

text \<open>A value the gateway sealed for another purpose (a login cookie, a stored record) under the same
  key is never read as a session, whichever cookies carry it.\<close>

theorem foreign_seal_rejected:
  assumes "aead_binds E (scKey cfg)" "aad \<noteq> sessionAAD"
    and "readChunkedCookie r (scCookieName cfg) = Some (fst (seal E (scKey cfg) plain aad w0))"
  shows "cookie_Read E cfg r w = (Inl ErrInvalidSession, w)"
  using assms(3) open_seal_other [OF assms(1,2), of plain w0] by (simp add: cookie_Read_def)

theorem foreign_seal_rejected_witness:
  "cookie_Read demo_E demo_session_config (demo_request\<lparr>rCookies := [(''hog.0'',
      fst (seal demo_E (replicate 32 CHR ''k'') ''j'' ''hog/login/v1'' (demo_world ())))]\<rparr>) (demo_world ())
   = (Inl ErrInvalidSession, demo_world ())"
proof (rule foreign_seal_rejected [OF demo_env_binds, where aad = "''hog/login/v1''"])
  show "''hog/login/v1'' \<noteq> sessionAAD" by code_simp
  show "readChunkedCookie (demo_request\<lparr>rCookies := [(''hog.0'',
      fst (seal demo_E (replicate 32 CHR ''k'') ''j'' ''hog/login/v1'' (demo_world ())))]\<rparr>) (scCookieName demo_session_config)
    = Some (fst (seal demo_E (scKey demo_session_config) ''j'' ''hog/login/v1'' (demo_world ())))"
    by code_simp
qed

text \<open>After the cookie manager clears a session, the browser's next request has none: the info endpoint
  answers 401.\<close>

theorem cookie_cleared_session_gone:
  fixes w w' :: "'st world"
  assumes "scCookieName cfg \<noteq> []" "list_all tokenByte (scCookieName cfg)" "cookie_tokens r" "wCookies (resp w) = []"
    and "follows r (cookie_Clear cfg r w) r'" "rMethod r' = ''GET''" "wStatus (resp w') = None"
  shows "\<exists>w''. InfoHandler E (cookieManager E cfg) r' w' = Done w'' \<and> wStatus (resp w'') = Some 401"
  using cookieM.info_after_clear [OF assms(1-4) _ assms(6,7), of E] assms(5) by (simp add: cookieManager_def)

theorem cookie_cleared_session_gone_witness:
  "\<exists>w''. InfoHandler demo_E (cookieManager demo_E demo_session_config) (demo_request\<lparr>rCookies := []\<rparr>) (demo_world ())
      = Done w'' \<and> wStatus (resp w'') = Some 401"
  by (rule cookie_cleared_session_gone [where r = "demo_request\<lparr>rCookies := [(''hog.0'', ''x''), (''hog.1'', ''y'')]\<rparr>"
        and w = "demo_world ()"]) code_simp+

text \<open>The info endpoint reveals no secret: two sessions that differ at most in access token, fingerprint
  and correlation id give the same response.\<close>

theorem info_reveals_no_secret:
  assumes "mRead m r w = (Inr s, w1)" "mRead m' r w = (Inr s', w1)"
    and "s' = s\<lparr>sAccessToken := t, sFingerprint := f, sCorrelationID := c\<rparr>"
  shows "InfoHandler E m r w = InfoHandler E m' r w"
  using assms by (simp add: InfoHandler_def PublicView_def Let_def)

definition fixed_manager :: "session \<Rightarrow> unit manager" where
  "fixed_manager s = \<lparr>mIssue = (\<lambda>r i u t w. (None, w)), mRead = (\<lambda>r w. (Inr s, w)), mClear = (\<lambda>r w. w)\<rparr>"

theorem info_reveals_no_secret_witness:
  "InfoHandler demo_E (fixed_manager demo_session) demo_request (demo_world ()) =
   InfoHandler demo_E (fixed_manager (demo_session\<lparr>sAccessToken := ''other'', sFingerprint := [], sCorrelationID := []\<rparr>))
     demo_request (demo_world ())"
  by (rule info_reveals_no_secret) (simp_all add: fixed_manager_def)

end
