(* ===== verification/State_Manager.thy ===== *)
theory State_Manager
  imports Session_Manager
begin

text \<open>
  The server-side session manager (\<^verbatim>\<open>src/session/statemanager.go\<close>, \<^verbatim>\<open>store.go\<close>): the
  cookie holds a random id, the record is sealed before it reaches the store, and the access token is
  refreshed silently near its expiry. The store plugin and the provider are arguments that act on
  the external state \<open>ext\<close> of the world. One call is modelled as one thread runs it while
  it holds the per-session lock; the lock itself, and the interleavings it rules out, are the subject of
  \<open>Keyed_Mutex\<close>. Warnings to the process log are left out.
\<close>

datatype store_error = ErrStateNotFound | StoreFailed string

record 'st store =
  ssGet :: "string \<Rightarrow> 'st \<Rightarrow> (store_error, string) result \<times> 'st"
  ssSet :: "string \<Rightarrow> string \<Rightarrow> int \<Rightarrow> 'st \<Rightarrow> string option \<times> 'st"
  ssDelete :: "string \<Rightarrow> 'st \<Rightarrow> string option \<times> 'st"

text \<open>\<open>Refresher.Refresh\<close>: an error, or a (possibly nil) pointer to tokens.\<close>

type_synonym 'st refresher = "string \<Rightarrow> 'st \<Rightarrow> (string, tokens option) result \<times> 'st"

record 'st stateManager =
  smCfg :: session_config
  smStore :: "'st store"
  smProvider :: "'st refresher option"
  smSkew :: int
  smPrefix :: string

definition stateAAD :: string where
  "stateAAD = ''hog/store/v1''"

definition state_key :: "session_env \<Rightarrow> 'st stateManager \<Rightarrow> string \<Rightarrow> string" where
  "state_key E m sid = smPrefix m @ RawURLEncode (eSha256 E sid)"

definition correlationID :: "session_env \<Rightarrow> string \<Rightarrow> string" where
  "correlationID E sid = take 12 (RawURLEncode (eSha256 E (''hog/sesscorr/v1:'' @ sid)))"

definition liftExt :: "('st \<Rightarrow> 'a \<times> 'st) \<Rightarrow> 'st world \<Rightarrow> 'a \<times> 'st world" where
  "liftExt f w = (let (a, s) = f (ext w) in (a, w\<lparr>ext := s\<rparr>))"

definition state_seal :: "session_env \<Rightarrow> 'st stateManager \<Rightarrow> storedSession \<Rightarrow> 'st world \<Rightarrow> string option \<times> 'st world" where
  "state_seal E m rec w =
     (case eMarshalStored E rec of
        None \<Rightarrow> (None, w)
      | Some plain \<Rightarrow> (let (val, w') = seal E (scKey (smCfg m)) plain stateAAD w in (Some val, w')))"

definition state_load :: "session_env \<Rightarrow> 'st stateManager \<Rightarrow> string \<Rightarrow> 'st world \<Rightarrow> storedSession option \<times> 'st world" where
  "state_load E m key w =
     (case liftExt (ssGet (smStore m) key) w of
        (Inl e, w') \<Rightarrow> (None, w')
      | (Inr data, w') \<Rightarrow>
          (case open_sealed E (scKey (smCfg m)) data stateAAD of
             None \<Rightarrow> (None, w')
           | Some plain \<Rightarrow> (eUnmarshalStored E plain, w')))"

definition id_cookie :: "session_config \<Rightarrow> request \<Rightarrow> string \<Rightarrow> int \<Rightarrow> setcookie" where
  "id_cookie cfg r val maxAge =
     \<lparr>ckName = scCookieName cfg, ckValue = val, ckPath = ''/'', ckHttpOnly = True,
      ckSecure = secureFromRequest r, ckSameSiteLax = True, ckMaxAge = maxAge\<rparr>"

definition state_Issue :: "session_env \<Rightarrow> 'st stateManager \<Rightarrow> request \<Rightarrow> identity \<Rightarrow> claims \<Rightarrow> tokens
    \<Rightarrow> 'st world \<Rightarrow> string option \<times> 'st world" where
  "state_Issue E m r idt userinfo tok w =
     (let (s, w1) = makeSession E (smCfg m) idt userinfo tok r w;
          rec = \<lparr>stSession = s, stRefreshToken = tkRefreshToken tok, stAccessExpiry = tkExpiry tok\<rparr>
      in case state_seal E m rec w1 of
           (None, w2) \<Rightarrow> (Some ''seal failed'', w2)
         | (Some data, w2) \<Rightarrow>
             let sid = RawURLEncode (randBytes 32 w2); w3 = useRand 32 w2 in
             (case liftExt (ssSet (smStore m) (state_key E m sid) data (scTTL (smCfg m))) w3 of
                (Some err, w4) \<Rightarrow> (Some err, w4)
              | (None, w4) \<Rightarrow>
                  (None, SetCookie (id_cookie (smCfg m) r sid (whole_seconds (scTTL (smCfg m)))) w4)))"

text \<open>\<open>maybeRefresh\<close>, from its first check to its return; \<open>None\<close> is the nil record.\<close>

definition refreshed :: "storedSession \<Rightarrow> tokens \<Rightarrow> storedSession" where
  "refreshed rec tok =
     rec\<lparr>stSession := (stSession rec)\<lparr>sAccessToken := tkAccessToken tok\<rparr>,
         stAccessExpiry := tkExpiry tok,
         stRefreshToken := (if tkRefreshToken tok \<noteq> [] then tkRefreshToken tok else stRefreshToken rec)\<rparr>"

definition restore :: "session_env \<Rightarrow> 'st stateManager \<Rightarrow> string \<Rightarrow> storedSession \<Rightarrow> 'st world \<Rightarrow> 'st world" where
  "restore E m key rec w =
     (let remaining = sExpiry (stSession rec) - now w; w1 = tick w in
      if remaining > 0 then
        (case state_seal E m rec w1 of
           (None, w2) \<Rightarrow> w2
         | (Some data, w2) \<Rightarrow> snd (liftExt (ssSet (smStore m) key data remaining) w2))
      else w1)"

definition rotate :: "session_env \<Rightarrow> 'st stateManager \<Rightarrow> 'st refresher \<Rightarrow> string \<Rightarrow> storedSession \<Rightarrow> 'st world
    \<Rightarrow> storedSession option \<times> 'st world" where
  "rotate E m refresh key rec w =
     (case liftExt (refresh (stRefreshToken rec)) w of
        (Inr (Some tok), w1) \<Rightarrow> (Some (refreshed rec tok), restore E m key (refreshed rec tok) w1)
      | (_, w1) \<Rightarrow> (if now w1 < stAccessExpiry rec then Some rec else None, tick w1))"

definition maybeRefresh :: "session_env \<Rightarrow> 'st stateManager \<Rightarrow> string \<Rightarrow> storedSession \<Rightarrow> 'st world
    \<Rightarrow> storedSession option \<times> 'st world" where
  "maybeRefresh E m key rec w =
     (case smProvider m of
        None \<Rightarrow> (Some rec, w)
      | Some refresh \<Rightarrow>
          if stRefreshToken rec = [] then (Some rec, w)
          else if \<not> now w > stAccessExpiry rec - smSkew m then (Some rec, tick w)
          else
            (case state_load E m key (tick w) of
               (Some fresh, w1) \<Rightarrow>
                 if now w1 < stAccessExpiry fresh - smSkew m then (Some fresh, tick w1)
                 else rotate E m refresh key rec (tick w1)
             | (None, w1) \<Rightarrow> rotate E m refresh key rec w1))"

definition state_Read :: "session_env \<Rightarrow> 'st stateManager \<Rightarrow> request \<Rightarrow> 'st world
    \<Rightarrow> (read_error, session) result \<times> 'st world" where
  "state_Read E m r w =
     (case reqCookie r (scCookieName (smCfg m)) of
        None \<Rightarrow> (Inl ErrNoSession, w)
      | Some sid \<Rightarrow>
          if sid = [] then (Inl ErrNoSession, w)
          else (case state_load E m (state_key E m sid) w of
             (None, w1) \<Rightarrow> (Inl ErrInvalidSession, w1)
           | (Some rec, w1) \<Rightarrow>
               if Expired (stSession rec) (now w1) then (Inl ErrInvalidSession, tick w1)
               else if \<not> fingerprintEqual (sFingerprint (stSession rec))
                         (computeFingerprint (eSha256 E) (scFingerprintHeaders (smCfg m)) r)
               then (Inl ErrInvalidSession, tick w1)
               else (case maybeRefresh E m (state_key E m sid) rec (tick w1) of
                  (None, w2) \<Rightarrow> (Inl ErrInvalidSession, w2)
                | (Some rec', w2) \<Rightarrow> (Inr ((stSession rec')\<lparr>sCorrelationID := correlationID E sid\<rparr>), w2))))"

definition state_Clear :: "session_env \<Rightarrow> 'st stateManager \<Rightarrow> request \<Rightarrow> 'st world \<Rightarrow> 'st world" where
  "state_Clear E m r w =
     (let w1 = (case reqCookie r (scCookieName (smCfg m)) of
                  None \<Rightarrow> w
                | Some sid \<Rightarrow> if sid = [] then w else snd (liftExt (ssDelete (smStore m) (state_key E m sid)) w))
      in SetCookie (id_cookie (smCfg m) r [] (- 1)) w1)"

definition stateManager_ops :: "session_env \<Rightarrow> 'st stateManager \<Rightarrow> 'st manager" where
  "stateManager_ops E m = \<lparr>mIssue = state_Issue E m, mRead = state_Read E m, mClear = state_Clear E m\<rparr>"

definition NewStateManager :: "session_config \<Rightarrow> 'st store \<Rightarrow> 'st refresher option \<Rightarrow> int \<Rightarrow> string \<Rightarrow> 'st stateManager option" where
  "NewStateManager cfg store provider refreshSkew keyPrefix =
     (case newSealer32 (scKey cfg) of None \<Rightarrow> None
      | Some k \<Rightarrow> Some \<lparr>smCfg = cfg, smStore = store, smProvider = provider,
          smSkew = (if refreshSkew \<le> 0 then seconds 60 else refreshSkew),
          smPrefix = (if keyPrefix = [] then ''hog:sess:'' else keyPrefix)\<rparr>)"

section \<open>The state manager keeps the contract\<close>

lemma liftExt_frame [simp]:
  "resp (snd (liftExt f w)) = resp w" "clk (snd (liftExt f w)) = clk w" "tpos (snd (liftExt f w)) = tpos w"
  "ent (snd (liftExt f w)) = ent w" "epos (snd (liftExt f w)) = epos w" "now (snd (liftExt f w)) = now w"
  by (simp_all add: liftExt_def now_def split_beta)

lemma liftExt_pair: "liftExt f w = (fst (f (ext w)), w\<lparr>ext := snd (f (ext w))\<rparr>)"
  by (simp add: liftExt_def split_beta)

lemma state_load_resp [simp]: "resp (snd (state_load E m key w)) = resp w"
  by (simp add: state_load_def liftExt_pair split: sum.splits option.splits)

lemma state_seal_resp [simp]: "resp (snd (state_seal E m rec w)) = resp w"
  by (simp add: state_seal_def split_beta split: option.splits)

lemma state_seal_respD: "state_seal E m rec w = (x, w') \<Longrightarrow> resp w' = resp w"
  by (metis snd_conv state_seal_resp)

lemma state_load_respD: "state_load E m key w = (x, w') \<Longrightarrow> resp w' = resp w"
  by (metis snd_conv state_load_resp)

lemma restore_resp [simp]: "resp (restore E m key rec w) = resp w"
  by (auto simp: restore_def Let_def dest: state_seal_respD split: prod.splits option.splits)

lemma rotate_resp [simp]: "resp (snd (rotate E m f key rec w)) = resp w"
  by (auto simp: rotate_def liftExt_pair split: sum.splits option.splits)

lemma maybeRefresh_resp [simp]: "resp (snd (maybeRefresh E m key rec w)) = resp w"
  by (auto simp: maybeRefresh_def dest: state_load_respD split: option.splits prod.splits)

lemma maybeRefresh_respD: "maybeRefresh E m key rec w = (x, w') \<Longrightarrow> resp w' = resp w"
  by (metis snd_conv maybeRefresh_resp)

lemma state_Read_resp: "resp (snd (state_Read E m r w)) = resp w"
  by (auto simp: state_Read_def dest!: state_load_respD maybeRefresh_respD split: option.splits prod.splits)

lemma state_Issue_cases:
  "(\<exists>e. fst (state_Issue E m r idt ui tok w) = Some e \<and> resp (snd (state_Issue E m r idt ui tok w)) = resp w) \<or>
   (\<exists>sid w4. state_Issue E m r idt ui tok w =
      (None, SetCookie (id_cookie (smCfg m) r sid (whole_seconds (scTTL (smCfg m)))) w4) \<and> resp w4 = resp w)"
  by (auto simp: state_Issue_def makeSession_def Let_def liftExt_pair useRand_def dest!: state_seal_respD
      split: prod.splits option.splits) (intro exI conjI, rule refl, simp)

interpretation stateM: session_manager "stateManager_ops E m" "scCookieName (smCfg m)" for E m
proof
  fix r :: request and w w' :: "'a world" and idt ui tok r'
  show "resp (snd (mRead (stateManager_ops E m) r w)) = resp w"
    by (simp add: stateManager_ops_def state_Read_resp)
  show "wStatus (resp (snd (mIssue (stateManager_ops E m) r idt ui tok w))) = wStatus (resp w)"
    using state_Issue_cases [of E m r idt ui tok w] by (auto simp: stateManager_ops_def)
  show "resp (snd (mIssue (stateManager_ops E m) r idt ui tok w)) = resp w"
    if "fst (mIssue (stateManager_ops E m) r idt ui tok w) \<noteq> None"
    using that state_Issue_cases [of E m r idt ui tok w] by (auto simp: stateManager_ops_def)
  show "wStatus (resp (mClear (stateManager_ops E m) r w)) = wStatus (resp w)"
    by (simp add: stateManager_ops_def state_Clear_def Let_def split: option.splits)
  show "fst (mRead (stateManager_ops E m) r' w') = Inl ErrNoSession"
    if "scCookieName (smCfg m) \<noteq> []" "list_all tokenByte (scCookieName (smCfg m))" "wCookies (resp w) = []"
      "follows r (mClear (stateManager_ops E m) r w) r'"
  proof -
    have "wCookies (resp (state_Clear E m r w)) = [id_cookie (smCfg m) r [] (- 1)]"
      using that(1-3) by (auto simp: state_Clear_def Let_def SetCookie_def id_cookie_def split: option.splits)
    then have "reqCookie r' (scCookieName (smCfg m)) = None"
      using that(4) by (simp add: follows_def stateManager_ops_def id_cookie_def reqCookie_def gm_get_del)
    then show ?thesis by (simp add: stateManager_ops_def state_Read_def)
  qed
qed

section \<open>Issuing and reading back\<close>

definition issued_record :: "session_env \<Rightarrow> 'st stateManager \<Rightarrow> identity \<Rightarrow> claims \<Rightarrow> tokens \<Rightarrow> request \<Rightarrow> 'st world \<Rightarrow> storedSession" where
  "issued_record E m idt ui tok r w =
     \<lparr>stSession = fst (makeSession E (smCfg m) idt ui tok r w), stRefreshToken = tkRefreshToken tok,
      stAccessExpiry = tkExpiry tok\<rparr>"

text \<open>The store's contract for a key it has just accepted.\<close>

definition store_returns :: "'st store \<Rightarrow> bool" where
  "store_returns st \<longleftrightarrow> (\<forall>k d t s. fst (ssSet st k d t s) = None \<longrightarrow> fst (ssGet st k (snd (ssSet st k d t s))) = Inr d)"

lemma state_seal_Some:
  "eMarshalStored E rec = Some plain \<Longrightarrow> state_seal E m rec w =
     (Some (fst (seal E (scKey (smCfg m)) plain stateAAD w)), snd (seal E (scKey (smCfg m)) plain stateAAD w))"
  by (simp add: state_seal_def split_beta)

lemma state_load_stored:
  assumes "fst (ssGet (smStore m) key (ext w)) = Inr (fst (seal E (scKey (smCfg m)) plain stateAAD w0))"
    and "aead_opens E (scKey (smCfg m))" "eUnmarshalStored E plain = Some rec"
  shows "state_load E m key w = (Some rec, w\<lparr>ext := snd (ssGet (smStore m) key (ext w))\<rparr>)"
  using assms open_seal [OF assms(2), of plain stateAAD w0] by (simp add: state_load_def liftExt_pair)

definition issued_id :: "'st world \<Rightarrow> string" where
  "issued_id w = RawURLEncode (randBytes 32 (useRand nonceSize w))"

lemma state_Issue_eq:
  assumes "eMarshalStored E (issued_record E m idt ui tok r w) = Some plain"
  shows "state_Issue E m r idt ui tok w =
    (let res = ssSet (smStore m) (state_key E m (issued_id w))
           (fst (seal E (scKey (smCfg m)) plain stateAAD (tick w))) (scTTL (smCfg m)) (ext w);
         w4 = (useRand (nonceSize + 32) (tick w))\<lparr>ext := snd res\<rparr>
     in case fst res of Some e \<Rightarrow> (Some e, w4)
        | None \<Rightarrow> (None, SetCookie (id_cookie (smCfg m) r (issued_id w) (whole_seconds (scTTL (smCfg m)))) w4))"
proof -
  have r: "RawURLEncode (randBytes 32 (useRand nonceSize (tick w))) = issued_id w"
    by (simp add: randBytes_def useRand_def issued_id_def)
  have s: "snd (seal E (scKey (smCfg m)) plain stateAAD (tick w)) = useRand nonceSize (tick w)"
    by (simp add: seal_def Let_def)
  have u: "useRand 32 (useRand nonceSize (tick w)) = useRand (nonceSize + 32) (tick w)"
    "ext (useRand (nonceSize + 32) (tick w)) = ext w" by (simp_all add: useRand_def add.assoc)
  show ?thesis
    using assms
    by (simp add: state_Issue_def issued_record_def split_beta Let_def state_seal_Some s r u liftExt_pair
        split: option.split)
qed

lemma state_Issue_stored:
  assumes "state_Issue E m r idt ui tok w = (None, w')"
  obtains plain where "eMarshalStored E (issued_record E m idt ui tok r w) = Some plain"
proof (cases "eMarshalStored E (issued_record E m idt ui tok r w)")
  case None
  then have "fst (state_Issue E m r idt ui tok w) \<noteq> None"
    by (simp add: state_Issue_def issued_record_def split_beta Let_def state_seal_def)
  with assms show ?thesis by simp
qed

text \<open>C8. A session issued by the state manager is read back: the cookie carries the random id, and a
  request that presents it, from a client with the same fingerprint headers, before expiry and while
  the access token needs no refresh, is answered with the issued session and its correlation id.\<close>

theorem state_session_round_trip:
  assumes issued: "state_Issue E m r idt ui tok w = (None, w')"
    and laws: "aead_opens E (scKey (smCfg m))" "store_returns (smStore m)"
    and json: "\<forall>plain. eMarshalStored E (issued_record E m idt ui tok r w) = Some plain \<longrightarrow>
      eUnmarshalStored E plain = Some (issued_record E m idt ui tok r w)"
    and name: "scCookieName (smCfg m) \<noteq> []" "list_all tokenByte (scCookieName (smCfg m))" "wCookies (resp w) = []"
    and browser: "follows r w' r'" "\<forall>h \<in> set (scFingerprintHeaders (smCfg m)). reqGet r' h = reqGet r h"
      "0 \<le> scTTL (smCfg m)"
    and later: "ext w2 = ext w'" "now w2 \<le> now w + scTTL (smCfg m)"
    and quiet: "smProvider m = None \<or> tkRefreshToken tok = [] \<or> now (tick w2) \<le> tkExpiry tok - smSkew m"
  shows "reqCookie r' (scCookieName (smCfg m)) = Some (issued_id w) \<and>
    fst (state_Read E m r' w2) =
      Inr ((fst (makeSession E (smCfg m) idt ui tok r w))\<lparr>sCorrelationID := correlationID E (issued_id w)\<rparr>)"
proof -
  let ?rec = "issued_record E m idt ui tok r w" and ?key = "state_key E m (issued_id w)"
  obtain plain where plain: "eMarshalStored E ?rec = Some plain" using state_Issue_stored [OF issued] .
  let ?data = "fst (seal E (scKey (smCfg m)) plain stateAAD (tick w))"
  have set: "fst (ssSet (smStore m) ?key ?data (scTTL (smCfg m)) (ext w)) = None"
    and w': "w' = SetCookie (id_cookie (smCfg m) r (issued_id w) (whole_seconds (scTTL (smCfg m))))
       ((useRand (nonceSize + 32) (tick w))\<lparr>ext := snd (ssSet (smStore m) ?key ?data (scTTL (smCfg m)) (ext w))\<rparr>)"
    using issued state_Issue_eq [OF plain] by (auto simp: Let_def split: option.splits)
  have "fst (ssGet (smStore m) ?key (ext w2)) = Inr ?data"
    using laws(2) set later(1) by (simp add: store_returns_def w')
  then have load: "state_load E m ?key w2 = (Some ?rec, w2\<lparr>ext := snd (ssGet (smStore m) ?key (ext w2))\<rparr>)"
    using state_load_stored [of m ?key w2 E plain "tick w" ?rec] laws(1) json plain by blast
  have id: "filter valid_cookie_byte (issued_id w) = issued_id w" "issued_id w \<noteq> []"
    using valid_cookie_RawURL [of "randBytes 32 (useRand nonceSize w)"]
    by (auto simp: issued_id_def filter_id_conv list_all_iff RawURLEncode_nonempty randBytes_def)
  have "wCookies (resp w') = [id_cookie (smCfg m) r (issued_id w) (whole_seconds (scTTL (smCfg m)))]"
    using name id(1) by (simp add: w' SetCookie_def id_cookie_def useRand_def)
  moreover have "0 \<le> whole_seconds (scTTL (smCfg m))" using browser(3) by (simp add: whole_seconds_def)
  ultimately have cookie: "reqCookie r' (scCookieName (smCfg m)) = Some (issued_id w)"
    using browser(1) by (simp add: follows_def reqCookie_def id_cookie_def gm_get_set)
  have fp: "fingerprint_text (scFingerprintHeaders (smCfg m)) r' = fingerprint_text (scFingerprintHeaders (smCfg m)) r"
    using browser(2) by (simp add: fingerprint_text_def cong: map_cong)
  have "fst (maybeRefresh E m ?key ?rec (tick (w2\<lparr>ext := snd (ssGet (smStore m) ?key (ext w2))\<rparr>))) = Some ?rec"
    using quiet by (auto simp: maybeRefresh_def issued_record_def now_def split: option.splits)
  then obtain w3 where "maybeRefresh E m ?key ?rec (tick (w2\<lparr>ext := snd (ssGet (smStore m) ?key (ext w2))\<rparr>)) = (Some ?rec, w3)"
    by (metis prod.collapse)
  moreover have "\<not> Expired (stSession ?rec) (now (w2\<lparr>ext := snd (ssGet (smStore m) ?key (ext w2))\<rparr>))"
    using later(2) by (simp add: Expired_def issued_record_def makeSession_def now_def)
  moreover have "sFingerprint (stSession ?rec) = computeFingerprint (eSha256 E) (scFingerprintHeaders (smCfg m)) r'"
    using fp by (simp add: issued_record_def makeSession_def computeFingerprint_def)
  moreover have "stSession ?rec = fst (makeSession E (smCfg m) idt ui tok r w)" by (simp add: issued_record_def)
  ultimately show ?thesis
    using cookie load id(2) by (simp add: state_Read_def fingerprintEqual_def)
qed

text \<open>A store that is a map, for concrete runs.\<close>

definition map_store :: "(string, string) gomap store" where
  "map_store = \<lparr>ssGet = (\<lambda>k s. (case gm_get s k of None \<Rightarrow> Inl ErrStateNotFound | Some v \<Rightarrow> Inr v, s)),
     ssSet = (\<lambda>k v t s. (None, gm_set k v s)), ssDelete = (\<lambda>k s. (None, gm_del k s))\<rparr>"

definition demo_sm :: "(string, string) gomap stateManager" where
  "demo_sm = \<lparr>smCfg = demo_session_config, smStore = map_store, smProvider = None, smSkew = seconds 60,
     smPrefix = ''hog:sess:''\<rparr>"

lemma map_store_returns: "store_returns map_store"
  by (simp add: store_returns_def map_store_def gm_get_set)

lemma demo_issued_record: "issued_record demo_E demo_sm demo_idt [] demo_tokens demo_request (demo_world []) = demo_stored"
  by code_simp

definition demo_state_issued :: "(string, string) gomap world" where
  "demo_state_issued = snd (state_Issue demo_E demo_sm demo_request demo_idt [] demo_tokens (demo_world []))"

theorem state_session_round_trip_witness:
  "fst (state_Read demo_E demo_sm (demo_request\<lparr>rCookies := apply_cookies (wCookies (resp demo_state_issued)) []\<rparr>)
     ((demo_world [])\<lparr>ext := ext demo_state_issued\<rparr>))
   = Inr (demo_session\<lparr>sCorrelationID := correlationID demo_E (issued_id (demo_world ([] :: (string, string) gomap)))\<rparr>)"
proof -
  have s: "fst (makeSession demo_E (smCfg demo_sm) demo_idt [] demo_tokens demo_request
      (demo_world ([] :: (string, string) gomap))) = demo_session"
    by code_simp
  have "state_Issue demo_E demo_sm demo_request demo_idt [] demo_tokens (demo_world []) = (None, demo_state_issued)"
    using demo_issued_record
    by (simp add: demo_state_issued_def state_Issue_eq [of _ _ _ _ _ _ _ "''j''"] demo_env_def demo_sm_def map_store_def Let_def)
  then show ?thesis
    using state_session_round_trip [where E = demo_E and m = demo_sm and r = demo_request and idt = demo_idt and ui = "[]"
        and tok = demo_tokens and w = "demo_world []" and w' = demo_state_issued and ?w2.0 = "(demo_world [])\<lparr>ext := ext demo_state_issued\<rparr>"
        and r' = "demo_request\<lparr>rCookies := apply_cookies (wCookies (resp demo_state_issued)) []\<rparr>", OF _ demo_env_opens]
    unfolding demo_issued_record s
    by (simp add: demo_sm_def map_store_returns demo_env_def demo_session_config_def demo_world_def empty_response_def
        tokenByte_def byte_def follows_def demo_request_def reqGet_def seconds_def now_def)
qed

text \<open>The browser only ever gets the random id: the cookies of a successful login do not depend on who
  logged in or on the tokens.\<close>

theorem state_cookie_independent:
  assumes "fst (state_Issue E m r idt ui tok w) = None" "fst (state_Issue E m r idt' ui' tok' w) = None"
  shows "wCookies (resp (snd (state_Issue E m r idt ui tok w))) = wCookies (resp (snd (state_Issue E m r idt' ui' tok' w)))"
proof -
  have "wCookies (resp (snd (state_Issue E m r idt ui tok w))) =
      wCookies (resp (SetCookie (id_cookie (smCfg m) r (issued_id w) (whole_seconds (scTTL (smCfg m)))) w))"
    if ok: "fst (state_Issue E m r idt ui tok w) = None" for idt ui tok
  proof -
    obtain plain where p: "eMarshalStored E (issued_record E m idt ui tok r w) = Some plain"
      using state_Issue_stored [of E m r idt ui tok w] ok by (metis prod.collapse)
    show ?thesis using ok unfolding state_Issue_eq [OF p]
      by (auto simp: Let_def SetCookie_def useRand_def split: option.splits)
  qed
  with assms show ?thesis by simp
qed

theorem state_cookie_independent_witness:
  "wCookies (resp (snd (state_Issue demo_E demo_sm demo_request demo_idt [] demo_tokens (demo_world [])))) =
   wCookies (resp (snd (state_Issue demo_E demo_sm demo_request (demo_idt\<lparr>idtSubject := ''eve''\<rparr>) []
      (demo_tokens\<lparr>tkAccessToken := ''xx''\<rparr>) (demo_world []))))"
  by (rule state_cookie_independent)
     (simp_all add: state_Issue_def state_seal_def demo_env_def demo_sm_def map_store_def liftExt_pair split_beta Let_def)

text \<open>The record the store holds under a key in a given state of the outside world: delivered, authentic under the store's own
  associated data, and decoded.\<close>

definition stored_at :: "session_env \<Rightarrow> 'st stateManager \<Rightarrow> string \<Rightarrow> 'st \<Rightarrow> storedSession \<Rightarrow> bool" where
  "stored_at E m key x rec \<longleftrightarrow> (\<exists>data plain. fst (ssGet (smStore m) key x) = Inr data
     \<and> open_sealed E (scKey (smCfg m)) data stateAAD = Some plain \<and> eUnmarshalStored E plain = Some rec)"

lemma state_load_Some:
  "state_load E m key w = (Some rec, w1) \<Longrightarrow> stored_at E m key (ext w) rec \<and> w1 = w\<lparr>ext := snd (ssGet (smStore m) key (ext w))\<rparr>"
  by (auto simp: state_load_def liftExt_pair stored_at_def split: sum.splits option.splits)

text \<open>What a refresh may return: the record it was given, that record with the tokens the provider issued for its own refresh
  token, or the record reloaded under the lock from the same key.\<close>

lemma rotate_result:
  "rotate E m refresh key rec w = (Some rec', w') \<Longrightarrow>
     rec' = rec \<or> (\<exists>tok. fst (refresh (stRefreshToken rec) (ext w)) = Inr (Some tok) \<and> rec' = refreshed rec tok)"
  by (auto simp: rotate_def liftExt_pair split: sum.splits option.splits if_splits)

lemma maybeRefresh_result:
  assumes "maybeRefresh E m key rec w = (Some rec', w')"
  shows "rec' = rec
    \<or> (\<exists>refresh tok x. smProvider m = Some refresh \<and> fst (refresh (stRefreshToken rec) x) = Inr (Some tok) \<and> rec' = refreshed rec tok)
    \<or> stored_at E m key (ext w) rec'"
proof -
  have "ext (tick w) = ext w" by (simp add: tick_def)
  with assms show ?thesis
    by (auto simp: maybeRefresh_def dest!: rotate_result dest: state_load_Some split: option.splits prod.splits if_splits)
qed

text \<open>C13. The state manager fails closed, and returns the session it checked. A session is returned only for a non-empty cookie whose
  record the store delivered under the key of that cookie, that opens under the store's own associated data, has not expired
  and carries the fingerprint of this request; the session is that record's, or that record's with the access token the provider
  just issued for its refresh token, or that of the record found under the same key when it was reloaded under the lock; and its
  correlation id is the hash of the cookie, never the cookie itself.\<close>

theorem state_Read_sound:
  assumes "fst (state_Read E m r w) = Inr s"
  shows "\<exists>sid rec rec'. reqCookie r (scCookieName (smCfg m)) = Some sid \<and> sid \<noteq> []
    \<and> stored_at E m (state_key E m sid) (ext w) rec
    \<and> \<not> Expired (stSession rec) (now w)
    \<and> sFingerprint (stSession rec) = computeFingerprint (eSha256 E) (scFingerprintHeaders (smCfg m)) r
    \<and> s = (stSession rec')\<lparr>sCorrelationID := correlationID E sid\<rparr>
    \<and> (rec' = rec
       \<or> (\<exists>refresh tok x. smProvider m = Some refresh \<and> fst (refresh (stRefreshToken rec) x) = Inr (Some tok) \<and> rec' = refreshed rec tok)
       \<or> stored_at E m (state_key E m sid) (snd (ssGet (smStore m) (state_key E m sid) (ext w))) rec')"
proof -
  from assms obtain sid rec w1 rec' w2 where sid: "reqCookie r (scCookieName (smCfg m)) = Some sid" "sid \<noteq> []"
    and l: "state_load E m (state_key E m sid) w = (Some rec, w1)" and ex: "\<not> Expired (stSession rec) (now w1)"
    and fp: "fingerprintEqual (sFingerprint (stSession rec)) (computeFingerprint (eSha256 E) (scFingerprintHeaders (smCfg m)) r)"
    and mr: "maybeRefresh E m (state_key E m sid) rec (tick w1) = (Some rec', w2)"
    and s: "s = (stSession rec')\<lparr>sCorrelationID := correlationID E sid\<rparr>"
    by (auto simp: state_Read_def split: option.splits if_splits prod.splits)
  from state_load_Some [OF l] have st: "stored_at E m (state_key E m sid) (ext w) rec"
    and w1: "now w1 = now w" "ext (tick w1) = snd (ssGet (smStore m) (state_key E m sid) (ext w))"
    by (auto simp: now_def tick_def)
  from maybeRefresh_result [OF mr] show ?thesis
    using sid st ex fp s unfolding w1 by (intro exI [of _ sid] exI [of _ rec] exI [of _ rec']) (simp add: fingerprintEqual_def)
qed

definition demo_held :: "(string, string) gomap world" where
  "demo_held = demo_world [(''hog:sess:aWQx'', RawURLEncode (replicate 12 CHR ''n'' @ demo_header stateAAD @ ''j''))]"

theorem state_Read_sound_witness:
  "\<exists>rec. stored_at demo_E demo_sm (state_key demo_E demo_sm ''id1'') (ext demo_held) rec \<and> \<not> Expired (stSession rec) (now demo_held)"
proof -
  have c: "reqCookie (demo_request\<lparr>rCookies := [(''hog'', ''id1'')]\<rparr>) (scCookieName (smCfg demo_sm)) = Some ''id1''" by code_simp
  have "fst (state_Read demo_E demo_sm (demo_request\<lparr>rCookies := [(''hog'', ''id1'')]\<rparr>) demo_held)
      = Inr (demo_session\<lparr>sCorrelationID := correlationID demo_E ''id1''\<rparr>)"
    by code_simp
  from state_Read_sound [OF this] c show ?thesis by auto
qed

section \<open>Silent refresh\<close>

lemma restore_stored:
  assumes "eMarshalStored E rec = Some plain" "eUnmarshalStored E plain = Some rec"
    and "aead_opens E (scKey (smCfg m))" "store_returns (smStore m)"
    and "now w < sExpiry (stSession rec)"
    and "\<forall>k d t s. fst (ssSet (smStore m) k d t s) = None"
  shows "fst (state_load E m key (restore E m key rec w)) = Some rec"
proof -
  let ?sealed = "seal E (scKey (smCfg m)) plain stateAAD (tick w)"
  have "fst (ssGet (smStore m) key (ext (restore E m key rec w))) = Inr (fst ?sealed)"
    using assms(4-6) by (simp add: restore_def Let_def state_seal_Some [OF assms(1)] liftExt_pair store_returns_def)
  from state_load_stored [OF this assms(3,2)] show ?thesis by simp
qed

text \<open>The world in which the provider is asked, after the reload under the lock: a reloaded record had its expiry compared
  with the clock.\<close>

definition after_reload :: "storedSession option \<Rightarrow> 'st world \<Rightarrow> 'st world" where
  "after_reload reload w1 = (if reload = None then w1 else tick w1)"

lemma maybeRefresh_rotates:
  assumes "smProvider m = Some refresh" "stRefreshToken rec \<noteq> []" "stAccessExpiry rec - smSkew m < now w"
    and "state_load E m key (tick w) = (reload, w1)"
    and "\<And>fresh. reload = Some fresh \<Longrightarrow> stAccessExpiry fresh - smSkew m \<le> now w1"
  shows "maybeRefresh E m key rec w = rotate E m refresh key rec (after_reload reload w1)"
  using assms by (cases reload) (auto simp: maybeRefresh_def after_reload_def not_less [symmetric])

lemma ext_after_reload [simp]: "ext (after_reload reload w1) = ext w1"
  by (simp add: after_reload_def tick_def)

text \<open>C14. A refresh that succeeds is durable before the lock is released. Whether the record could be reloaded under the lock or not,
  unless it was found fresh, the caller gets the new access token, and whoever loads the record next finds the new access token
  and the rotated refresh token (the old one if the provider did not rotate it).\<close>

theorem refresh_is_stored:
  assumes "smProvider m = Some refresh" "stRefreshToken rec \<noteq> []" "stAccessExpiry rec - smSkew m < now w"
    and "state_load E m key (tick w) = (reload, w1)"
    and "\<And>fresh. reload = Some fresh \<Longrightarrow> stAccessExpiry fresh - smSkew m \<le> now w1"
    and "refresh (stRefreshToken rec) (ext w1) = (Inr (Some tok), x)"
    and "eMarshalStored E (refreshed rec tok) = Some plain" "eUnmarshalStored E plain = Some (refreshed rec tok)"
    and "aead_opens E (scKey (smCfg m))" "store_returns (smStore m)" "\<forall>k d t s. fst (ssSet (smStore m) k d t s) = None"
    and "now (after_reload reload w1) < sExpiry (stSession rec)"
    and "maybeRefresh E m key rec w = (out, w')"
  shows "out = Some (refreshed rec tok) \<and> fst (state_load E m key w') = Some (refreshed rec tok)
    \<and> sAccessToken (stSession (refreshed rec tok)) = tkAccessToken tok
    \<and> stRefreshToken (refreshed rec tok) = (if tkRefreshToken tok = [] then stRefreshToken rec else tkRefreshToken tok)"
proof -
  let ?rec = "refreshed rec tok" and ?w = "(after_reload reload w1)\<lparr>ext := x\<rparr>"
  have mr: "maybeRefresh E m key rec w = (Some ?rec, restore E m key ?rec ?w)"
    using maybeRefresh_rotates [OF assms(1-4) assms(5)] assms(6) by (simp add: rotate_def liftExt_pair)
  have "fst (state_load E m key (restore E m key ?rec ?w)) = Some ?rec"
    using assms(12) by (intro restore_stored [OF assms(7-10) _ assms(11)]) (simp add: refreshed_def now_def)
  with mr assms(13) show ?thesis by (auto simp: refreshed_def)
qed

text \<open>C15. Refreshes of one session collapse: a thread that waited for the lock with an old record, and finds
  a record that is no longer near expiry, returns that record without asking the provider, whatever
  the provider would answer.\<close>

theorem waiter_does_not_refresh:
  assumes "stRefreshToken rec \<noteq> []" "stAccessExpiry rec - smSkew m < now w"
    and "state_load E m key (tick w) = (Some fresh, w1)" "now w1 < stAccessExpiry fresh - smSkew m"
  shows "maybeRefresh E (m\<lparr>smProvider := Some refresh\<rparr>) key rec w = (Some fresh, tick w1)"
proof -
  have "state_load E (m\<lparr>smProvider := Some refresh\<rparr>) key (tick w) = state_load E m key (tick w)"
    by (auto simp: state_load_def split: prod.splits sum.splits)
  with assms show ?thesis by (simp add: maybeRefresh_def)
qed

text \<open>C16. When the provider refuses or returns nothing, the session survives exactly as long as the old access
  token does, whether the record could be reloaded under the lock or not: the record is kept while that token is alive, and
  dropped (so the read fails) once it is dead.\<close>

theorem refresh_failure:
  assumes "smProvider m = Some refresh" "stRefreshToken rec \<noteq> []" "stAccessExpiry rec - smSkew m < now w"
    and "state_load E m key (tick w) = (reload, w1)"
    and "\<And>fresh. reload = Some fresh \<Longrightarrow> stAccessExpiry fresh - smSkew m \<le> now w1"
    and "refresh (stRefreshToken rec) (ext w1) = (res, x)" "res = Inr None \<or> isl res"
  shows "fst (maybeRefresh E m key rec w) = (if now (after_reload reload w1) < stAccessExpiry rec then Some rec else None)"
proof -
  have "now ((after_reload reload w1)\<lparr>ext := x\<rparr>) = now (after_reload reload w1)" by (simp add: now_def)
  then show ?thesis
    using maybeRefresh_rotates [OF assms(1-4) assms(5)] assms(6,7) by (cases res) (auto simp: rotate_def liftExt_pair)
qed

text \<open>The double check keeps the record it started from: when the record loaded under the lock is itself
  near expiry, its rotated refresh token is not the one used, the provider is asked with the old one.\<close>

theorem stale_refresh_token_used:
  assumes "smProvider m = Some refresh" "stRefreshToken rec \<noteq> []" "stAccessExpiry rec - smSkew m < now w"
    and "state_load E m key (tick w) = (Some fresh, w1)" "stAccessExpiry fresh - smSkew m \<le> now w1"
    and "stRefreshToken fresh \<noteq> stRefreshToken rec"
    and "refresh (stRefreshToken rec) (ext w1) = (Inl err, x)" "stAccessExpiry rec \<le> now (tick w1)"
  shows "fst (maybeRefresh E m key rec w) = None"
  using assms by (simp add: maybeRefresh_def rotate_def liftExt_pair now_def)

text \<open>A configured refresh skew of zero is not kept: the manager uses 60 seconds.\<close>

theorem zero_skew_replaced:
  assumes "NewStateManager cfg store p 0 pre = Some m"
  shows "smSkew m = seconds 60"
  using assms by (auto simp: NewStateManager_def split: option.splits)

theorem zero_skew_replaced_witness:
  "smSkew (the (NewStateManager demo_session_config map_store None 0 [])) = seconds 60"
  by (rule zero_skew_replaced [where cfg = demo_session_config and store = map_store and p = None and pre = "[]"])
     (simp add: NewStateManager_def newSealer32_def demo_session_config_def)

section \<open>Concrete refreshes\<close>

definition demo_refresh :: "(string, string) gomap refresher" where
  "demo_refresh rt s = (if rt = ''rt'' then Inr (Some (demo_tokens\<lparr>tkAccessToken := ''at2'', tkRefreshToken := ''rt2'',
     tkExpiry := seconds 1800\<rparr>)) else Inl ''invalid_grant'', s)"

definition at_time :: "int \<Rightarrow> 'st \<Rightarrow> 'st world" where
  "at_time t s = (demo_world s)\<lparr>clk := (\<lambda>n. t)\<rparr>"

abbreviation demo_sm2 :: "(string, string) gomap stateManager" where
  "demo_sm2 \<equiv> demo_sm\<lparr>smProvider := Some demo_refresh\<rparr>"

definition demo_rotated :: storedSession where
  "demo_rotated = refreshed demo_stored (demo_tokens\<lparr>tkAccessToken := ''at2'', tkRefreshToken := ''rt2'', tkExpiry := seconds 1800\<rparr>)"

abbreviation demo_E2 :: session_env where
  "demo_E2 \<equiv> demo_env demo_session demo_rotated"

lemma map_store_accepts: "\<forall>k d t s. fst (ssSet map_store k d t s) = None"
  by (simp add: map_store_def)

lemma map_store_load: "smStore m = map_store \<Longrightarrow> state_load E m key w = (fst (state_load E m key w), w)"
  by (auto simp: state_load_def liftExt_pair map_store_def split: option.splits)

definition demo_near :: "(string, string) gomap world" where
  "demo_near = demo_held\<lparr>clk := (\<lambda>n. seconds 590)\<rparr>"

text \<open>The record reloaded under the lock is as stale as the one the refresh started from.\<close>

abbreviation demo_due :: "(string, string) gomap world" where
  "demo_due \<equiv> demo_held\<lparr>clk := (\<lambda>n. seconds 1790)\<rparr>"

lemma demo_reload: "state_load demo_E2 demo_sm2 ''hog:sess:aWQx'' (tick demo_due) = (Some demo_rotated, tick demo_due)"
proof -
  have "fst (state_load demo_E2 demo_sm2 ''hog:sess:aWQx'' (tick demo_due)) = Some demo_rotated" by code_simp
  then show ?thesis using map_store_load [of demo_sm2 demo_E2 "''hog:sess:aWQx''" "tick demo_due"] by (simp add: demo_sm_def)
qed

theorem refresh_is_stored_witness:
  "fst (maybeRefresh demo_E2 demo_sm2 ''hog:sess:aWQx'' demo_stored demo_due) = Some demo_rotated"
proof -
  obtain out w' where mr: "maybeRefresh demo_E2 demo_sm2 ''hog:sess:aWQx'' demo_stored demo_due = (out, w')"
    by (cases "maybeRefresh demo_E2 demo_sm2 ''hog:sess:aWQx'' demo_stored demo_due")
  have "out = Some demo_rotated"
    using refresh_is_stored [where m = demo_sm2 and refresh = demo_refresh and rec = demo_stored and w = demo_due and E = demo_E2
      and key = "''hog:sess:aWQx''" and x = "ext demo_held" and plain = "''j''" and ?w1.0 = "tick demo_due" and out = out and w' = w'
      and reload = "Some demo_rotated"
      and tok = "demo_tokens\<lparr>tkAccessToken := ''at2'', tkRefreshToken := ''rt2'', tkExpiry := seconds 1800\<rparr>",
      OF _ _ _ demo_reload _ _ _ _ demo_env_opens _ _ _ mr]
    by (simp add: demo_rotated_def [symmetric])
       (simp add: demo_sm_def demo_stored_def demo_session_def demo_refresh_def map_store_returns map_store_accepts demo_rotated_def
         refreshed_def after_reload_def demo_env_def seconds_def now_def tick_def)
  with mr show ?thesis by simp
qed

theorem waiter_does_not_refresh_witness:
  "maybeRefresh demo_E2 (demo_sm\<lparr>smProvider := Some (\<lambda>rt s. (Inl ''unreachable'', s))\<rparr>) ''hog:sess:aWQx'' demo_stored
     demo_near = (Some demo_rotated, tick (tick demo_near))"
proof (rule waiter_does_not_refresh)
  have "fst (state_load demo_E2 demo_sm ''hog:sess:aWQx'' (tick demo_near)) = Some demo_rotated" by code_simp
  then show "state_load demo_E2 demo_sm ''hog:sess:aWQx'' (tick demo_near) = (Some demo_rotated, tick demo_near)"
    using map_store_load [of demo_sm demo_E2 "''hog:sess:aWQx''" "tick demo_near"] by (simp add: demo_sm_def)
qed (simp_all add: demo_stored_def demo_sm_def demo_near_def demo_rotated_def refreshed_def seconds_def now_def tick_def)

theorem refresh_failure_witness:
  "fst (maybeRefresh demo_E2 demo_sm2 ''hog:sess:aWQx'' (demo_stored\<lparr>stRefreshToken := ''dead''\<rparr>) demo_due) = None"
  using refresh_failure [where m = demo_sm2 and refresh = demo_refresh and rec = "demo_stored\<lparr>stRefreshToken := ''dead''\<rparr>"
      and w = demo_due and E = demo_E2 and key = "''hog:sess:aWQx''" and ?w1.0 = "tick demo_due" and reload = "Some demo_rotated"
      and res = "Inl ''invalid_grant''" and x = "ext demo_held", OF _ _ _ demo_reload]
  by (simp add: demo_sm_def demo_stored_def demo_refresh_def demo_rotated_def refreshed_def after_reload_def seconds_def now_def tick_def)

theorem stale_refresh_token_used_witness:
  "fst (maybeRefresh demo_E2 demo_sm2 ''hog:sess:aWQx'' (demo_stored\<lparr>stRefreshToken := ''rt0''\<rparr>)
     (demo_held\<lparr>clk := (\<lambda>n. seconds 1790)\<rparr>)) = None"
proof (rule stale_refresh_token_used [where refresh = demo_refresh and x = "ext demo_held" and err = "''invalid_grant''"
        and fresh = demo_rotated and ?w1.0 = "tick (demo_held\<lparr>clk := (\<lambda>n. seconds 1790)\<rparr>)"])
  have "fst (state_load demo_E2 demo_sm2 ''hog:sess:aWQx'' (tick (demo_held\<lparr>clk := (\<lambda>n. seconds 1790)\<rparr>))) = Some demo_rotated"
    by code_simp
  then show "state_load demo_E2 demo_sm2 ''hog:sess:aWQx'' (tick (demo_held\<lparr>clk := (\<lambda>n. seconds 1790)\<rparr>)) =
      (Some demo_rotated, tick (demo_held\<lparr>clk := (\<lambda>n. seconds 1790)\<rparr>))"
    using map_store_load [of demo_sm2 demo_E2 "''hog:sess:aWQx''" "tick (demo_held\<lparr>clk := (\<lambda>n. seconds 1790)\<rparr>)"]
    by (simp add: demo_sm_def)
qed (simp_all add: demo_stored_def demo_sm_def demo_rotated_def refreshed_def demo_tokens_def demo_refresh_def seconds_def now_def tick_def)

end
