(* ===== verification/Chain.thy ===== *)
theory Chain
  imports Http_Model
begin

text \<open>
  The middleware chain (\<^verbatim>\<open>src/chain/middleware.go\<close>, \<^verbatim>\<open>builtin.go\<close>,
  \<^verbatim>\<open>buffer.go\<close>): composition, the fixed skeleton that brackets every route, and the built-in
  middlewares. The locale \<open>filter_mw\<close> is the contract of the gates: a gate looks at a request and
  either hands it on or answers it. The gates of the other theories interpret it.
\<close>

section \<open>Composition\<close>

definition Compose :: "'st handler \<Rightarrow> 'st middleware list \<Rightarrow> 'st handler" where
  "Compose terminal mws = foldl (\<lambda>h mw. mw h) terminal (rev mws)"

section \<open>Built-in middlewares\<close>

definition reserved :: "'st middleware" where
  "reserved next = next"

definition orReserved :: "'st middleware option \<Rightarrow> 'st middleware" where
  "orReserved m = (case m of None \<Rightarrow> reserved | Some mw \<Rightarrow> mw)"

definition recoverMW :: "'st middleware" where
  "recoverMW next r w =
     (case next r w of Done w' \<Rightarrow> Done w' | Panicked v w' \<Rightarrow> Done (WriteHeader 500 w'))"

definition requestIDMW :: "'st middleware" where
  "requestIDMW next r w =
     (let id = reqGet r ''X-Request-Id'' in
      if id = [] then next r (wSet ''X-Request-Id'' (hex_encode (randBytes 16 w)) (useRand 16 w))
      else next r (wSet ''X-Request-Id'' id w))"

text \<open>\<open>time.Duration.Milliseconds\<close>: truncation towards zero.\<close>

definition millis :: "int \<Rightarrow> int" where
  "millis d = (if d < 0 then - ((- d) div 1000000) else d div 1000000)"

definition forgetLast :: "'st world \<Rightarrow> 'st world" where
  "forgetLast w = w\<lparr>resp := (resp w)\<lparr>wLast := None\<rparr>\<rparr>"

text \<open>The status a recording writer reports: the last code given to \<open>WriteHeader\<close>, else 200.\<close>

definition recorded :: "'st world \<Rightarrow> nat" where
  "recorded w = (case wLast (resp w) of None \<Rightarrow> 200 | Some c \<Rightarrow> c)"

definition emitLog :: "(string \<times> string) list \<Rightarrow> 'st world \<Rightarrow> 'st world" where
  "emitLog attrs w = w\<lparr>alog := alog w @ [attrs]\<rparr>"

definition accessLogMW :: "'st middleware" where
  "accessLogMW next r w =
     (let start = now w in
      case next r (forgetLast (tick w)) of
        Panicked v w' \<Rightarrow> Panicked v w'
      | Done w' \<Rightarrow>
          Done (emitLog [(''method'', rMethod r), (''path'', rPath r), (''status'', Itoa (recorded w')),
                         (''dur_ms'', Itoa_int (millis (now w' - start)))] (tick w')))"

record 'st gates =
  gSession :: "'st middleware option"
  gAuthGate :: "'st middleware option"
  gAuthz :: "'st middleware option"
  gProjection :: "'st middleware option"

definition no_gates :: "'st gates" where
  "no_gates = \<lparr>gSession = None, gAuthGate = None, gAuthz = None, gProjection = None\<rparr>"

text \<open>\<open>obs\<close> is the configured access log of \<open>Observability\<close>, absent for the default one.\<close>

definition skeleton :: "'st gates \<Rightarrow> 'st middleware option \<Rightarrow> (string \<times> 'st middleware) list" where
  "skeleton gates obs =
     (let accessLog = (case obs of None \<Rightarrow> accessLogMW | Some m \<Rightarrow> m) in
      [(''recover'', recoverMW),
       (''request-id'', requestIDMW),
       (''access-log'', accessLog),
       (''session'', orReserved (gSession gates)),
       (''auth-gate'', orReserved (gAuthGate gates)),
       (''authz'', orReserved (gAuthz gates)),
       (''projection'', orReserved (gProjection gates))])"

definition Skeleton :: "'st gates \<Rightarrow> 'st middleware option \<Rightarrow> 'st middleware list" where
  "Skeleton gates obs = map snd (skeleton gates obs)"

definition SkeletonNames :: "string list" where
  "SkeletonNames = map fst (skeleton (no_gates :: unit gates) None)"

section \<open>The response buffer\<close>

text \<open>The buffer captures status and body; its header is the live header of the downstream writer,
  so header operations act on the world.\<close>

record buffer =
  bufStatus :: nat
  bufBody :: string

definition NewBuffer :: buffer where
  "NewBuffer = \<lparr>bufStatus = 200, bufBody = []\<rparr>"

definition bufWriteHeader :: "nat \<Rightarrow> buffer \<Rightarrow> buffer" where
  "bufWriteHeader code b = b\<lparr>bufStatus := code\<rparr>"

definition bufWrite :: "string \<Rightarrow> buffer \<Rightarrow> buffer" where
  "bufWrite p b = b\<lparr>bufBody := bufBody b @ p\<rparr>"

section \<open>Filters\<close>

definition of_step :: "(request \<Rightarrow> 'st world \<Rightarrow> 'st step) \<Rightarrow> 'st middleware" where
  "of_step f next r w = run_step (f r w) next"

fun seq_steps :: "(request \<Rightarrow> 'st world \<Rightarrow> 'st step) list \<Rightarrow> request \<Rightarrow> 'st world \<Rightarrow> 'st step" where
  "seq_steps [] r w = Pass r w"
| "seq_steps (f # fs) r w = (case f r w of Pass r' w' \<Rightarrow> seq_steps fs r' w' | Answer w' \<Rightarrow> Answer w')"

locale filter_mw =
  fixes mw :: "'st middleware"
    and step :: "request \<Rightarrow> 'st world \<Rightarrow> 'st step"
  assumes mw_step: "mw next r w = run_step (step r w) next"
begin

lemma mw_of_step: "mw = of_step step"
  by (simp add: fun_eq_iff of_step_def mw_step)

lemma answered_ignores_next: "step r w = Answer w' \<Longrightarrow> mw next r w = Done w'"
  by (simp add: mw_step)

lemma passed_calls_next: "step r w = Pass r' w' \<Longrightarrow> mw next r w = next r' w'"
  by (simp add: mw_step)

lemma no_new_panic: "mw next r w = Panicked v w' \<Longrightarrow> \<exists>r1 w1. next r1 w1 = Panicked v w'"
  by (cases "step r w") (auto simp: mw_step)

end

interpretation reservedF: filter_mw reserved "\<lambda>r w. Pass r w"
  by unfold_locales (simp add: reserved_def)

interpretation requestIDF: filter_mw requestIDMW
  "\<lambda>r w. let id = reqGet r ''X-Request-Id'' in
     if id = [] then Pass r (wSet ''X-Request-Id'' (hex_encode (randBytes 16 w)) (useRand 16 w))
     else Pass r (wSet ''X-Request-Id'' id w)"
  by unfold_locales (simp add: requestIDMW_def Let_def)

section \<open>Laws of composition\<close>

lemma Compose_Nil [simp]: "Compose t [] = t"
  by (simp add: Compose_def)

lemma Compose_Cons [simp]: "Compose t (m # ms) = m (Compose t ms)"
  by (simp add: Compose_def)

lemma Compose_append: "Compose t (ms @ ns) = Compose (Compose t ns) ms"
  by (induction ms) auto

lemma Compose_of_steps:
  "Compose t (map of_step fs) r w = run_step (seq_steps fs r w) t"
  by (induction fs arbitrary: r w) (auto simp: of_step_def split: step.splits)

lemma Skeleton_unfold:
  "Skeleton g obs = [recoverMW, requestIDMW, (case obs of None \<Rightarrow> accessLogMW | Some m \<Rightarrow> m),
     orReserved (gSession g), orReserved (gAuthGate g), orReserved (gAuthz g), orReserved (gProjection g)]"
  by (simp add: Skeleton_def skeleton_def Let_def)

lemma recoverMW_done: "\<exists>w'. recoverMW next r w = Done w'"
  by (simp add: recoverMW_def split: outcome.splits)

text \<open>Whatever the gates, the plugins and the terminal handler do, a route composed under the
  skeleton never lets a panic escape: it returns, and a panic raised before anything was written is
  answered with status 500.\<close>

theorem skeleton_contains_panics:
  "\<exists>w'. Compose t (Skeleton g obs @ plugins) r w = Done w' \<and>
     (\<forall>v w1. Compose t (tl (Skeleton g obs) @ plugins) r w = Panicked v w1 \<longrightarrow>
        w' = WriteHeader 500 w1 \<and> (wStatus (resp w1) = None \<longrightarrow> wStatus (resp w') = Some 500))"
proof -
  let ?inner = "Compose t (tl (Skeleton g obs) @ plugins)"
  have "Compose t (Skeleton g obs @ plugins) = recoverMW ?inner"
    by (simp add: Skeleton_unfold)
  then show ?thesis
    by (cases "?inner r w") (auto simp: recoverMW_def WriteHeader_status)
qed

theorem skeleton_contains_panics_witness:
  "\<exists>w'. Compose (\<lambda>r w. Panicked ''boom'' w) (Skeleton no_gates None) demo_request (demo_world ()) = Done w'
     \<and> wStatus (resp w') = Some 500"
proof -
  let ?t = "\<lambda>r w. Panicked ''boom'' w" and ?w = "demo_world ()"
  obtain w1 where w1: "Compose ?t (tl (Skeleton no_gates None)) demo_request ?w = Panicked ''boom'' w1"
    and none: "wStatus (resp w1) = None"
    by (simp add: Skeleton_unfold no_gates_def orReserved_def reserved_def accessLogMW_def requestIDMW_def
        Let_def demo_world_def empty_response_def tick_def forgetLast_def wSet_def useRand_def
        demo_request_def reqGet_def hGet_def)
  show ?thesis
    using skeleton_contains_panics [of ?t no_gates None "[]" demo_request ?w] w1 none by auto
qed

section \<open>The buffer\<close>

lemma buffer_run:
  "bufStatus (fold bufWriteHeader cs b) = (if cs = [] then bufStatus b else last cs)"
  "bufBody (fold bufWrite ps b) = bufBody b @ concat ps"
  by (induction cs arbitrary: b, simp_all add: bufWriteHeader_def)
     (induction ps arbitrary: b, simp_all add: bufWrite_def)

end
