(* ===== verification/Go_Path.thy ===== *)
theory Go_Path
  imports Go_Strings
begin

text \<open>
  Go's \<open>path\<close> package (and \<open>path/filepath\<close>, which agrees with it on Unix): \<open>Clean\<close>,
  \<open>Join\<close>, \<open>Base\<close>, \<open>Ext\<close>. \<open>Clean\<close> is defined on the list of segments,
  the way its four rewriting rules are documented.
\<close>

abbreviation slash :: char where
  "slash \<equiv> CHR ''/''"

text \<open>One segment: the stack holds the kept segments, the last one first.\<close>

definition push_seg :: "bool \<Rightarrow> string list \<Rightarrow> string \<Rightarrow> string list" where
  "push_seg rooted st seg =
     (if seg = [] \<or> seg = ''.'' then st
      else if seg = ''..'' then
        (case st of [] \<Rightarrow> (if rooted then [] else [''..''])
         | t # ts \<Rightarrow> if t = ''..'' then ''..'' # st else ts)
      else seg # st)"

definition clean_segs :: "bool \<Rightarrow> string list \<Rightarrow> string list" where
  "clean_segs rooted segs = rev (foldl (push_seg rooted) [] segs)"

definition Clean :: "string \<Rightarrow> string" where
  "Clean p =
     (let rooted = HasPrefix p ''/''; body = Join (clean_segs rooted (Split slash p)) ''/'' in
      if rooted then slash # body else if body = [] then ''.'' else body)"

definition PathJoin :: "string list \<Rightarrow> string" where
  "PathJoin ps =
     (let qs = filter (\<lambda>p. p \<noteq> []) ps in if qs = [] then [] else Clean (Join qs ''/''))"

text \<open>The part after the last slash, and its suffix from the last dot on.\<close>

definition last_seg :: "string \<Rightarrow> string" where
  "last_seg p = last (Split slash p)"

definition Ext :: "string \<Rightarrow> string" where
  "Ext p =
     (let s = last_seg p in
      if CHR ''.'' \<in> set s then CHR ''.'' # last (Split (CHR ''.'') s) else [])"

definition drop_slashes :: "string \<Rightarrow> string" where
  "drop_slashes p = rev (dropWhile (\<lambda>c. c = slash) (rev p))"

definition Base :: "string \<Rightarrow> string" where
  "Base p = (if p = [] then ''.''
     else let q = drop_slashes p in if q = [] then ''/'' else last_seg q)"

section \<open>Laws\<close>

lemma clean_segs_plain:
  assumes "\<forall>s \<in> set segs. s \<noteq> ''..''"
  shows "clean_segs rooted segs = filter (\<lambda>s. s \<noteq> [] \<and> s \<noteq> ''.'') segs"
proof -
  have "foldl (push_seg rooted) st segs = rev (filter (\<lambda>s. s \<noteq> [] \<and> s \<noteq> ''.'') segs) @ st" for st
    using assms by (induction segs arbitrary: st) (auto simp: push_seg_def)
  then show ?thesis by (simp add: clean_segs_def)
qed

lemma Split_Join:
  "ps \<noteq> [] \<Longrightarrow> \<forall>p \<in> set ps. c \<notin> set p \<Longrightarrow> Split c (Join ps [c]) = ps"
proof (induction ps)
  case Nil
  then show ?case by simp
next
  case (Cons p ps)
  show ?case
  proof (cases ps)
    case Nil
    with Cons show ?thesis by (simp add: Split_no_sep)
  next
    case (Cons q qs)
    with Cons.IH Cons.prems show ?thesis by (simp add: Split_append)
  qed
qed

lemma Join_eq_Nil: "Join ps sep = [] \<Longrightarrow> \<forall>p \<in> set ps. p \<noteq> [] \<Longrightarrow> ps = []"
  by (cases ps rule: list.exhaust) (auto, (metis Join.simps(2) Join_Cons append_is_Nil_conv))

end
