(* ===== verification/Go_Url.thy ===== *)
theory Go_Url
  imports Go_Any Go_Path
begin

text \<open>
  The part of \<open>net/url\<close> the gateway uses: query escaping, the parser of query strings and the
  encoder of \<open>url.Values\<close> (a map from keys to value lists, written in key order).
\<close>

type_synonym url_values = "(string, string list) gomap"

definition unreserved :: "char \<Rightarrow> bool" where
  "unreserved c \<longleftrightarrow> (let n = byte c in
     48 \<le> n \<and> n \<le> 57 \<or> 65 \<le> n \<and> n \<le> 90 \<or> 97 \<le> n \<and> n \<le> 122 \<or> n \<in> {45, 46, 95, 126})"

definition upperhex :: "nat \<Rightarrow> char" where
  "upperhex d = (if d < 10 then char_of (48 + d) else char_of (55 + d))"

definition unhex :: "char \<Rightarrow> nat option" where
  "unhex c = (let n = byte c in
     if 48 \<le> n \<and> n \<le> 57 then Some (n - 48)
     else if 97 \<le> n \<and> n \<le> 102 then Some (n - 87)
     else if 65 \<le> n \<and> n \<le> 70 then Some (n - 55) else None)"

definition escape_byte :: "char \<Rightarrow> string" where
  "escape_byte c =
     (if unreserved c then [c] else if c = CHR '' '' then ''+''
      else [CHR ''%'', upperhex (byte c div 16), upperhex (byte c mod 16)])"

definition QueryEscape :: "string \<Rightarrow> string" where
  "QueryEscape s = concat (map escape_byte s)"

fun QueryUnescape :: "string \<Rightarrow> string option" where
  "QueryUnescape [] = Some []"
| "QueryUnescape (c # s) =
     (if c = CHR ''%'' then
        (case s of
           a # b # t \<Rightarrow>
             (case (unhex a, unhex b) of
                (Some x, Some y) \<Rightarrow> map_option ((#) (char_of (16 * x + y))) (QueryUnescape t)
              | _ \<Rightarrow> None)
         | _ \<Rightarrow> None)
      else map_option ((#) (if c = CHR ''+'' then CHR '' '' else c)) (QueryUnescape s))"

section \<open>Values\<close>

definition vGet :: "url_values \<Rightarrow> string \<Rightarrow> string" where
  "vGet v k = (case gm_get v k of Some (x # _) \<Rightarrow> x | _ \<Rightarrow> [])"

definition vSet :: "string \<Rightarrow> string \<Rightarrow> url_values \<Rightarrow> url_values" where
  "vSet k x v = gm_set k [x] v"

definition vAdd :: "string \<Rightarrow> string \<Rightarrow> url_values \<Rightarrow> url_values" where
  "vAdd k x v = gm_set k ((case gm_get v k of None \<Rightarrow> [] | Some xs \<Rightarrow> xs) @ [x]) v"

text \<open>One \<open>&\<close>-separated piece: empty pieces, pieces with a semicolon and pieces that do not unescape
  are skipped (\<open>URL.Query\<close> drops the error).\<close>

definition parse_pair :: "url_values \<Rightarrow> string \<Rightarrow> url_values" where
  "parse_pair m key =
     (if Contains key '';'' \<or> key = [] then m
      else let (k, v) = (case Cut key ''='' of Some (a, b) \<Rightarrow> (a, b) | None \<Rightarrow> (key, [])) in
        (case (QueryUnescape k, QueryUnescape v) of
           (Some k', Some v') \<Rightarrow> vAdd k' v' m
         | _ \<Rightarrow> m))"

definition ParseQuery :: "string \<Rightarrow> url_values" where
  "ParseQuery q = (if q = [] then [] else foldl parse_pair [] (Split (CHR ''&'') q))"

definition encode_pairs :: "url_values \<Rightarrow> (string \<times> string) list" where
  "encode_pairs m = concat (map (\<lambda>k. map (Pair k) (case gm_get m k of None \<Rightarrow> [] | Some vs \<Rightarrow> vs)) (sort (map fst m)))"

definition Encode :: "url_values \<Rightarrow> string" where
  "Encode m = Join (map (\<lambda>(k, v). QueryEscape k @ ''='' @ QueryEscape v) (encode_pairs m)) ''&''"

section \<open>Round trips\<close>

lemma unhex_upperhex: "d < 16 \<Longrightarrow> unhex (upperhex d) = Some d"
  by (auto simp: unhex_def upperhex_def Let_def)

lemma unreserved_plain: "unreserved c \<Longrightarrow> c \<noteq> CHR ''%'' \<and> c \<noteq> CHR ''+''"
  by (auto simp: unreserved_def Let_def byte_def)

lemma escape_byte_unescape: "QueryUnescape (escape_byte c @ s) = map_option ((#) c) (QueryUnescape s)"
proof -
  have "byte c div 16 < 16" "byte c mod 16 < 16" using byte_less [of c] by (auto simp: div_less_iff_less_mult)
  moreover have "16 * (byte c div 16) + byte c mod 16 = byte c" by simp
  ultimately show ?thesis
    using unreserved_plain [of c] by (auto simp: escape_byte_def unhex_upperhex)
qed

lemma QueryUnescape_escape_append: "QueryUnescape (QueryEscape s @ t) = map_option ((@) s) (QueryUnescape t)"
  by (induction s) (simp_all add: QueryEscape_def escape_byte_unescape option.map_comp o_def option.map_ident)

lemma QueryUnescape_escape: "QueryUnescape (QueryEscape s) = Some s"
  using QueryUnescape_escape_append [of s "[]"] by simp

definition query_special :: "char set" where
  "query_special = {CHR ''&'', CHR ''='', CHR '';''}"

lemma upperhex_plain: "d < 16 \<Longrightarrow> upperhex d \<notin> query_special"
proof -
  assume "d < 16"
  then have "byte (upperhex d) \<notin> {38, 59, 61}" by (auto simp: upperhex_def)
  then show ?thesis by (auto simp: query_special_def byte_def)
qed

lemma escape_byte_plain: "set (escape_byte c) \<inter> query_special = {}"
proof -
  have "byte c div 16 < 16" "byte c mod 16 < 16" using byte_less [of c] by (auto simp: div_less_iff_less_mult)
  moreover have "c \<notin> query_special" if "unreserved c"
    using that by (auto simp: query_special_def unreserved_def Let_def byte_def)
  ultimately show ?thesis
    using upperhex_plain by (auto simp: escape_byte_def) (auto simp: query_special_def)
qed

lemma QueryEscape_plain: "set (QueryEscape s) \<inter> query_special = {}"
  using escape_byte_plain by (auto simp: QueryEscape_def)

lemma Index_char: "c \<notin> set a \<Longrightarrow> Index (a @ c # b) [c] = Some (length a)"
  by (induction a) auto

lemma Cut_fresh: "c \<notin> set a \<Longrightarrow> Cut (a @ c # b) [c] = Some (a, b)"
  by (simp add: Cut_def Index_char)

lemma Contains_char: "Contains s [c] \<longleftrightarrow> c \<in> set s"
  by (auto simp: Contains_iff in_set_conv_decomp)

lemma parse_pair_escaped:
  "parse_pair m (QueryEscape k @ ''='' @ QueryEscape v) = vAdd k v m"
proof -
  have "CHR ''='' \<notin> set (QueryEscape k)" "CHR '';'' \<notin> set (QueryEscape k)" "CHR '';'' \<notin> set (QueryEscape v)"
    using QueryEscape_plain [of k] QueryEscape_plain [of v] by (auto simp: query_special_def)
  then show ?thesis
    by (simp add: parse_pair_def Contains_char Cut_fresh QueryUnescape_escape)
qed

lemma ParseQuery_pairs:
  "ParseQuery (Join (map (\<lambda>(k, v). QueryEscape k @ ''='' @ QueryEscape v) ps) ''&'') = foldl (\<lambda>m (k, v). vAdd k v m) [] ps"
proof (cases ps)
  case (Cons p qs)
  let ?f = "\<lambda>(k, v). QueryEscape k @ ''='' @ QueryEscape v"
  have fresh: "\<forall>s \<in> set (map ?f ps). CHR ''&'' \<notin> set s"
    using QueryEscape_plain by (fastforce simp: query_special_def)
  have "foldl parse_pair m (map ?f ps) = foldl (\<lambda>m (k, v). vAdd k v m) m ps" for m
    by (induction ps arbitrary: m) (auto simp: parse_pair_escaped simp del: append_Cons)
  moreover have "Join (map ?f ps) ''&'' \<noteq> []" using Cons by (cases p; cases qs) auto
  ultimately show ?thesis
    using Split_Join [OF _ fresh] Cons by (simp add: ParseQuery_def)
qed (simp add: ParseQuery_def)

lemma gm_get_vAdd:
  "gm_get (vAdd k v m) k' = (if k' = k then Some ((case gm_get m k of None \<Rightarrow> [] | Some xs \<Rightarrow> xs) @ [v]) else gm_get m k')"
  by (simp add: vAdd_def gm_get_set)

lemma foldl_vAdd:
  "gm_get (foldl (\<lambda>m (k, v). vAdd k v m) m ps) k =
     (let vs = map snd (filter (\<lambda>p. fst p = k) ps) in
      if vs = [] then gm_get m k else Some ((case gm_get m k of None \<Rightarrow> [] | Some xs \<Rightarrow> xs) @ vs))"
proof (induction ps arbitrary: m)
  case (Cons p ps)
  obtain a v where "p = (a, v)" by (cases p)
  then show ?case by (auto simp: Cons.IH gm_get_vAdd Let_def)
qed simp

lemma encode_pairs_filter:
  assumes "gm_ok m"
  shows "map snd (filter (\<lambda>p. fst p = k) (encode_pairs m)) = (case gm_get m k of None \<Rightarrow> [] | Some vs \<Rightarrow> vs)"
proof -
  let ?g = "\<lambda>k. map (Pair k) (case gm_get m k of None \<Rightarrow> [] | Some vs \<Rightarrow> vs)"
  have one: "map snd (filter (\<lambda>p. fst p = k) (concat (map ?g ks))) =
      (if k \<in> set ks then (case gm_get m k of None \<Rightarrow> [] | Some vs \<Rightarrow> vs) else [])" if "distinct ks" for ks
    using that
  proof (induction ks)
    case (Cons a ks)
    then show ?case by (cases "a = k") (auto simp: filter_map o_def)
  qed simp
  have "distinct (sort (map fst m))" using assms by (simp add: gm_ok_def)
  note one [OF this]
  moreover have "(case gm_get m k of None \<Rightarrow> [] | Some vs \<Rightarrow> vs) = []" if "k \<notin> fst ` set m"
    using that gm_get_None [of m k] by simp
  ultimately show ?thesis unfolding encode_pairs_def by simp
qed

text \<open>Encoding values and parsing them back keeps what every key maps to.\<close>

lemma ParseQuery_Encode:
  assumes "gm_ok m" "[] \<notin> snd ` set m"
  shows "gm_get (ParseQuery (Encode m)) k = gm_get m k"
proof -
  have "gm_get m k \<noteq> Some []" using assms(2) by (metis image_eqI map_of_SomeD snd_conv)
  then show ?thesis
    unfolding Encode_def ParseQuery_pairs foldl_vAdd encode_pairs_filter [OF assms(1)] Let_def
    by (auto split: option.splits)
qed

lemma vGet_vSet [simp]: "vGet (vSet k x v) k' = (if k' = k then x else vGet v k')"
  by (simp add: vGet_def vSet_def gm_get_set)

lemma parse_pair_inv: "gm_ok m \<and> [] \<notin> snd ` set m \<Longrightarrow> gm_ok (parse_pair m p) \<and> [] \<notin> snd ` set (parse_pair m p)"
proof -
  have add: "[] \<notin> snd ` set (vAdd k v m)" if "[] \<notin> snd ` set m" "gm_ok m" for k v m
  proof
    assume "[] \<in> snd ` set (vAdd k v m)"
    then obtain a where "(a, []) \<in> set (vAdd k v m)" by auto
    moreover have "gm_ok (vAdd k v m)" using that by (simp add: vAdd_def)
    ultimately have "gm_get (vAdd k v m) a = Some []" by (simp add: gm_get_In)
    then have "gm_get m a = Some []" by (auto simp: vAdd_def gm_get_set split: if_splits)
    with that(1) show False by (metis image_eqI map_of_SomeD snd_conv)
  qed
  assume "gm_ok m \<and> [] \<notin> snd ` set m"
  with add show ?thesis
    by (auto simp: parse_pair_def Let_def vAdd_def split: prod.splits option.splits)
qed

lemma ParseQuery_inv: "gm_ok (ParseQuery q) \<and> [] \<notin> snd ` set (ParseQuery q)"
proof -
  have "gm_ok (foldl parse_pair m ps) \<and> [] \<notin> snd ` set (foldl parse_pair m ps)"
    if "gm_ok m \<and> [] \<notin> snd ` set m" for m ps
    using that
  proof (induction ps arbitrary: m)
    case (Cons p ps)
    from Cons.IH [OF parse_pair_inv [OF Cons.prems]] show ?case by simp
  qed simp
  from this [of "[]"] show ?thesis by (simp add: ParseQuery_def)
qed

end
