(* ===== verification/Auth_Gates.thy ===== *)
theory Auth_Gates
  imports State_Manager Chain Go_Url
begin

text \<open>
  The authentication gates (\<^verbatim>\<open>src/auth/gates.go\<close>, \<^verbatim>\<open>bearer.go\<close>, \<^verbatim>\<open>config.go\<close>
  and the return target check of \<^verbatim>\<open>loginstate.go\<close>). Each gate is a middleware as the code composes it;
  its \<open>_step\<close> is the decision it takes, and an interpretation of \<open>filter_mw\<close> relates the two.
  The token verifier is an argument acting on the external state; \<open>rRequestURI\<close> is
  \<open>r.URL.RequestURI()\<close>. \<open>url.Parse\<close> is an argument: a URL is its text before the query, and its query.
\<close>

record auth_config =
  auLoginPath :: string
  auLogoutPath :: string

definition auth_FromYAML :: "('n \<Rightarrow> (string, auth_config) result) \<Rightarrow> 'n option \<Rightarrow> (string, auth_config) result" where
  "auth_FromYAML dec node =
     bindR (case node of None \<Rightarrow> Inr \<lparr>auLoginPath = [], auLogoutPath = []\<rparr> | Some n \<Rightarrow> dec n) (\<lambda>raw.
     Inr \<lparr>auLoginPath = orDefault (auLoginPath raw) ''/auth/login'',
          auLogoutPath = orDefault (auLogoutPath raw) ''/auth/logout''\<rparr>)"

section \<open>Session gate\<close>

definition SessionGate :: "'st manager option \<Rightarrow> 'st middleware" where
  "SessionGate m next r w =
     (case m of
        None \<Rightarrow> next r w
      | Some mgr \<Rightarrow>
          (case mRead mgr r w of
             (Inr s, w1) \<Rightarrow> next (WithPrincipal (session_Principal s) r) w1
           | (Inl e, w1) \<Rightarrow> next r w1))"

definition session_step :: "'st manager option \<Rightarrow> request \<Rightarrow> 'st world \<Rightarrow> 'st step" where
  "session_step m r w =
     (case m of
        None \<Rightarrow> Pass r w
      | Some mgr \<Rightarrow>
          (case mRead mgr r w of
             (Inr s, w1) \<Rightarrow> Pass (WithPrincipal (session_Principal s) r) w1
           | (Inl e, w1) \<Rightarrow> Pass r w1))"

interpretation sessionF: filter_mw "SessionGate m" "session_step m" for m
  by unfold_locales (simp add: SessionGate_def session_step_def split: option.split prod.split sum.split)

section \<open>Bearer gate\<close>

record 'st bearer_verifier =
  bvVerifyAccessToken :: "string \<Rightarrow> 'st \<Rightarrow> (string, identity option) result \<times> 'st"
  bvUserInfo :: "string \<Rightarrow> 'st \<Rightarrow> (string, claims) result \<times> 'st"

definition withBearerError :: "request \<Rightarrow> request" where
  "withBearerError r = r\<lparr>rCtx := (rCtx r)\<lparr>ctxBearerError := True\<rparr>\<rparr>"

definition hasBearerError :: "request \<Rightarrow> bool" where
  "hasBearerError r = ctxBearerError (rCtx r)"

definition bearerChallenge :: "request \<Rightarrow> string" where
  "bearerChallenge r =
     (if hasBearerError r then ''Bearer error='' @ [CHR 0x22] @ ''invalid_token'' @ [CHR 0x22] else ''Bearer'')"

definition parseBearer :: "string \<Rightarrow> string option" where
  "parseBearer h =
     (if length h < 7 \<or> \<not> EqualFold (take 7 h) ''bearer '' then None
      else let token = TrimSpace (drop 7 h) in if token = [] then None else Some token)"

definition bearer_userinfo :: "'st bearer_verifier \<Rightarrow> identity_config \<Rightarrow> identity \<Rightarrow> string \<Rightarrow> 'st world \<Rightarrow> claims \<times> 'st world" where
  "bearer_userinfo v idCfg idt token w =
     (if NeedUserInfoForToken idCfg (idtClaims idt) then
        (case liftExt (bvUserInfo v token) w of
           (Inl e, w1) \<Rightarrow> ([], w1)
         | (Inr ui, w1) \<Rightarrow> (ui, w1))
      else ([], w))"

definition bearer_step :: "(nat \<Rightarrow> nat) \<Rightarrow> 'st bearer_verifier \<Rightarrow> identity_config \<Rightarrow> request \<Rightarrow> 'st world \<Rightarrow> 'st step" where
  "bearer_step ulower v idCfg r w =
     (if FromContext r \<noteq> None then Pass r w
      else case parseBearer (reqGet r ''Authorization'') of
        None \<Rightarrow> Pass r w
      | Some token \<Rightarrow>
          (case liftExt (bvVerifyAccessToken v token) w of
             (Inr (Some idt), w1) \<Rightarrow>
               if (idSubjectClaim idCfg = [] \<or> idSubjectClaim idCfg = ''sub'') \<and> idtSubject idt = []
               then Pass (withBearerError r) w1
               else
                 let (userinfo, w2) = bearer_userinfo v idCfg idt token w1;
                     p = NewPrincipal ulower (idtSubject idt) (idtClaims idt) userinfo token idCfg
                 in if Subject p = [] then Pass (withBearerError r) w2
                    else Pass (WithPrincipal p r) w2
           | (_, w1) \<Rightarrow> Pass (withBearerError r) w1))"

definition BearerGate :: "(nat \<Rightarrow> nat) \<Rightarrow> 'st bearer_verifier \<Rightarrow> identity_config \<Rightarrow> 'st middleware" where
  "BearerGate ulower v idCfg next r w = run_step (bearer_step ulower v idCfg r w) next"

interpretation bearerF: filter_mw "BearerGate u v c" "bearer_step u v c" for u v c
  by unfold_locales (simp add: BearerGate_def)

section \<open>Auth gate\<close>

record url =
  uBase :: string
  uRawQuery :: string

definition urlString :: "url \<Rightarrow> string" where
  "urlString u = (if uRawQuery u = [] then uBase u else uBase u @ ''?'' @ uRawQuery u)"

definition loginRedirectURL :: "(string \<Rightarrow> url option) \<Rightarrow> string \<Rightarrow> string \<Rightarrow> string" where
  "loginRedirectURL parse loginPath returnTo =
     (case parse loginPath of
        None \<Rightarrow> loginPath @ ''?return_to='' @ QueryEscape returnTo
      | Some u \<Rightarrow> urlString (u\<lparr>uRawQuery := Encode (vSet ''return_to'' returnTo (ParseQuery (uRawQuery u)))\<rparr>))"

definition startsLogin :: "request \<Rightarrow> bool" where
  "startsLogin r = (let mode = reqGet r ''Sec-Fetch-Mode'' in mode = [] \<or> mode = ''navigate'')"

definition AuthGate :: "(string \<Rightarrow> url option) \<Rightarrow> bool \<Rightarrow> bool \<Rightarrow> string \<Rightarrow> 'st middleware" where
  "AuthGate parse required isApp loginPath next r w =
     (if required \<and> FromContext r = None then
        Done (if isApp \<and> startsLogin r then Redirect (loginRedirectURL parse loginPath (rRequestURI r)) 302 w
              else if isApp then httpError ''unauthorized'' 401 w
              else httpError ''unauthorized'' 401 (wSet ''WWW-Authenticate'' (bearerChallenge r) w))
      else next r w)"

definition auth_step :: "(string \<Rightarrow> url option) \<Rightarrow> bool \<Rightarrow> bool \<Rightarrow> string \<Rightarrow> request \<Rightarrow> 'st world \<Rightarrow> 'st step" where
  "auth_step parse required isApp loginPath r w =
     (if required \<and> FromContext r = None then
        Answer (if isApp \<and> startsLogin r then Redirect (loginRedirectURL parse loginPath (rRequestURI r)) 302 w
              else if isApp then httpError ''unauthorized'' 401 w
              else httpError ''unauthorized'' 401 (wSet ''WWW-Authenticate'' (bearerChallenge r) w))
      else Pass r w)"

interpretation authF: filter_mw "AuthGate parse required isApp loginPath" "auth_step parse required isApp loginPath"
  for parse required isApp loginPath
  by unfold_locales (simp add: AuthGate_def auth_step_def)

section \<open>Return targets\<close>

definition safeReturnTo :: "string \<Rightarrow> string" where
  "safeReturnTo raw =
     (if raw = [] \<or> hd raw \<noteq> CHR ''/'' then ''/''
      else if HasPrefix raw ''//'' \<or> HasPrefix raw [CHR ''/'', CHR 0x5C] then ''/''
      else if Contains raw ''://'' then ''/''
      else raw)"

lemmas [gate_defs] = SessionGate_def session_step_def BearerGate_def bearer_step_def AuthGate_def auth_step_def

section \<open>Required authentication cannot be bypassed\<close>

text \<open>Behind an auth gate that requires a principal, the handlers never see an anonymous request: two
  inner handlers that agree on authenticated requests cannot be told apart, whatever runs before the gate.\<close>

theorem auth_required_no_bypass:
  assumes "\<forall>r w. FromContext r \<noteq> None \<longrightarrow> t r w = t' r w"
  shows "Compose t (pre @ [AuthGate parse True isApp loginPath]) = Compose t' (pre @ [AuthGate parse True isApp loginPath])"
proof -
  have "AuthGate parse True isApp loginPath t = AuthGate parse True isApp loginPath t'"
    using assms by (auto simp: AuthGate_def fun_eq_iff)
  then show ?thesis by (simp add: Compose_append)
qed

theorem auth_required_no_bypass_witness:
  "Compose (\<lambda>r w. Done (if FromContext r = None then Write ''secret'' w else w)) ([] @ [AuthGate Map.empty True True ''/l'']) =
   Compose (\<lambda>r w. Done w) ([] @ [AuthGate Map.empty True True ''/l'' :: unit middleware])"
  by (rule auth_required_no_bypass) auto

text \<open>What an anonymous client gets from a required route: a browser navigation to an app route is sent
  (302) to the login path, any other request to an app route gets 401, and a service route gets 401
  with a Bearer challenge that names an invalid token exactly when one was presented.\<close>

theorem AuthGate_anonymous_answer:
  assumes "FromContext r = None" "wStatus (resp w) = None"
  shows "\<exists>w'. AuthGate parse True isApp loginPath next r w = Done w' \<and>
    wStatus (resp w') = Some (if isApp \<and> startsLogin r then 302 else 401) \<and>
    (isApp \<and> startsLogin r \<longrightarrow> wGet w' ''Location'' = loginRedirectURL parse loginPath (rRequestURI r)) \<and>
    (\<not> isApp \<longrightarrow> wGet w' ''WWW-Authenticate'' = bearerChallenge r)"
proof -
  have chal: "wGet (httpError m c (wSet ''WWW-Authenticate'' v w)) ''WWW-Authenticate'' = v" for m c v
    by (simp add: httpError_def wGet_def wSet_def wDel_def)
       (simp add: CanonicalHeaderKey_def tokenByte_def byte_def byte_lower_def byte_upper_def)
  show ?thesis
    using assms by (auto simp: AuthGate_def Redirect_status httpError_status wGet_Redirect chal)
qed

theorem AuthGate_anonymous_answer_witness:
  "\<exists>w'. AuthGate Map.empty True True ''/auth/login'' (\<lambda>r w. Done w) demo_request (demo_world ()) = Done w'
     \<and> wStatus (resp w') = Some 302 \<and> wGet w' ''Location'' = ''/auth/login?return_to=%2F''"
proof -
  have "startsLogin demo_request" "FromContext demo_request = None" "wStatus (resp (demo_world ())) = None"
    "loginRedirectURL Map.empty ''/auth/login'' (rRequestURI demo_request) = ''/auth/login?return_to=%2F''"
    by code_simp+
  then show ?thesis
    using AuthGate_anonymous_answer [of demo_request "demo_world ()" Map.empty True "''/auth/login''" "\<lambda>r w. Done w"] by simp
qed

section \<open>Login redirects\<close>

text \<open>The login redirect carries the request target intact: whatever bytes the target has and whatever
  query the login path already has, the \<open>return_to\<close> parameter of the redirect decodes to that target,
  and every other parameter of the login path is kept.\<close>

theorem loginRedirectURL_return_to:
  assumes "parse loginPath = Some u"
  shows "\<exists>q. loginRedirectURL parse loginPath target = urlString (u\<lparr>uRawQuery := q\<rparr>) \<and>
    vGet (ParseQuery q) ''return_to'' = target \<and>
    (\<forall>k. k \<noteq> ''return_to'' \<longrightarrow> gm_get (ParseQuery q) k = gm_get (ParseQuery (uRawQuery u)) k)"
proof -
  let ?m = "vSet ''return_to'' target (ParseQuery (uRawQuery u))"
  have inv: "gm_ok (ParseQuery (uRawQuery u))" "[] \<notin> snd ` set (ParseQuery (uRawQuery u))"
    using ParseQuery_inv by blast+
  have ok: "gm_ok ?m" using inv(1) by (simp add: vSet_def)
  have "[] \<notin> snd ` set ?m"
  proof
    assume "[] \<in> snd ` set ?m"
    then obtain a where "gm_get ?m a = Some []" using gm_get_In [OF ok] by auto
    then have "gm_get (ParseQuery (uRawQuery u)) a = Some []" by (auto simp: vSet_def gm_get_set split: if_splits)
    with inv(2) show False by (metis image_eqI map_of_SomeD snd_conv)
  qed
  then have get: "gm_get (ParseQuery (Encode ?m)) k = gm_get ?m k" for k
    using ParseQuery_Encode [OF ok] by blast
  show ?thesis
    using assms get by (intro exI [of _ "Encode ?m"]) (auto simp: loginRedirectURL_def vGet_def vSet_def gm_get_set)
qed

theorem loginRedirectURL_return_to_witness:
  "\<exists>q. loginRedirectURL (\<lambda>s. Some \<lparr>uBase = ''/l'', uRawQuery = ''a=1''\<rparr>) ''/l?a=1'' ''/x?y=1&z=2'' = ''/l'' @ ''?'' @ q
     \<and> vGet (ParseQuery q) ''return_to'' = ''/x?y=1&z=2''"
proof -
  obtain q where q: "loginRedirectURL (\<lambda>s. Some \<lparr>uBase = ''/l'', uRawQuery = ''a=1''\<rparr>) ''/l?a=1'' ''/x?y=1&z=2''
      = urlString (\<lparr>uBase = ''/l'', uRawQuery = ''a=1''\<rparr>\<lparr>uRawQuery := q\<rparr>)" "vGet (ParseQuery q) ''return_to'' = ''/x?y=1&z=2''"
    using loginRedirectURL_return_to [of "\<lambda>s. Some \<lparr>uBase = ''/l'', uRawQuery = ''a=1''\<rparr>" "''/l?a=1''"] by blast
  then have "q \<noteq> []" by (auto simp: ParseQuery_def vGet_def)
  with q show ?thesis by (auto simp: urlString_def)
qed
section \<open>Bearer tokens\<close>

lemma FromContext_withBearerError [simp]: "FromContext (withBearerError r) = FromContext r"
  by (simp add: FromContext_def withBearerError_def)

text \<open>C17. The Bearer gate fails closed and yields to the cookie: it never answers by itself; a request that
  already has a principal is handed on untouched; and a principal it adds belongs to a token the
  verifier accepted, has a non-empty subject, carries that token, and is built from that token's claims.\<close>

theorem BearerGate_sound:
  assumes "bearer_step u v cfg r w = Pass r' w'" "FromContext r' = Some p"
  shows "FromContext r = Some p \<and> r' = r \<or>
    FromContext r = None \<and> (\<exists>token idt ui. parseBearer (reqGet r ''Authorization'') = Some token
      \<and> fst (bvVerifyAccessToken v token (ext w)) = Inr (Some idt)
      \<and> p = NewPrincipal u (idtSubject idt) (idtClaims idt) ui token cfg
      \<and> Subject p \<noteq> [] \<and> AccessToken p = token)"
  using assms
  by (auto simp: bearer_step_def Let_def liftExt_pair NewPrincipal_def [of u _ _ _ _ cfg]
      split: if_splits option.splits sum.splits prod.splits)

lemma bearer_step_passes: "\<exists>r' w'. bearer_step u v cfg r w = Pass r' w'"
  by (auto simp: bearer_step_def Let_def split: option.splits sum.splits prod.splits)

definition demo_verifier :: "unit bearer_verifier" where
  "demo_verifier = \<lparr>bvVerifyAccessToken = (\<lambda>t s. (if t = ''tok'' then Inr (Some demo_idt) else Inl ''bad'', s)),
     bvUserInfo = (\<lambda>t s. (Inl ''down'', s))\<rparr>"

definition demo_id_config :: identity_config where
  "demo_id_config = \<lparr>idClaims = [''email''], idGroups = None, idUserInfo = ''auto'', idSubjectClaim = ''sub'', idAssertion = None\<rparr>"

abbreviation bearer_request :: request where
  "bearer_request \<equiv> demo_req [(''Authorization'', [''BEARER tok''])]"

lemma demo_bearer:
  "\<exists>r' w' p. bearer_step ascii_rune_lower demo_verifier demo_id_config bearer_request (demo_world ()) = Pass r' w' \<and>
     FromContext r' = Some p \<and> Subject p = ''ann''"
proof -
  have "TrimSpace ''tok'' = ''tok''" by (rule TrimSpace_graphic) (simp_all add: graphic_def byte_def)
  moreover have "EqualFold ''BEARER '' ''bearer ''" "reqGet bearer_request ''Authorization'' = ''BEARER tok''"
    by code_simp+
  ultimately have pb: "parseBearer (reqGet bearer_request ''Authorization'') = Some ''tok''" "FromContext bearer_request = None"
    by (simp_all add: parseBearer_def Let_def demo_req_def demo_request_def FromContext_def)
  have np: "Subject (NewPrincipal ascii_rune_lower (idtSubject demo_idt) (idtClaims demo_idt) [] ''tok'' demo_id_config) = ''ann''"
    "\<not> NeedUserInfoForToken demo_id_config (idtClaims demo_idt)" by code_simp+
  show ?thesis
    by (simp add: bearer_step_def pb liftExt_pair demo_verifier_def Let_def bearer_userinfo_def np)
       (simp add: demo_idt_def)
qed

theorem BearerGate_sound_witness:
  "\<exists>r' w' p token idt. bearer_step ascii_rune_lower demo_verifier demo_id_config bearer_request (demo_world ()) = Pass r' w'
     \<and> FromContext r' = Some p \<and> parseBearer (reqGet bearer_request ''Authorization'') = Some token
     \<and> fst (bvVerifyAccessToken demo_verifier token ()) = Inr (Some idt) \<and> AccessToken p = token"
proof -
  obtain r' w' p where s: "bearer_step ascii_rune_lower demo_verifier demo_id_config bearer_request (demo_world ()) = Pass r' w'"
    "FromContext r' = Some p" using demo_bearer by blast
  have "FromContext bearer_request = None" "ext (demo_world ()) = ()" by (simp_all add: demo_req_def demo_request_def FromContext_def)
  with BearerGate_sound [OF s] s show ?thesis by auto
qed

text \<open>Parsing an Authorization header: the scheme is recognised in any letter case, the token is the rest
  without surrounding space, and nothing else is taken for a Bearer token.\<close>

theorem parseBearer_iff:
  "parseBearer h = Some token \<longleftrightarrow>
     (\<exists>scheme rest. h = scheme @ rest \<and> map byte_lower scheme = ''bearer '' \<and> token = TrimSpace rest \<and> token \<noteq> [])"
proof -
  have low: "map byte_lower ''bearer '' = ''bearer ''" by code_simp
  show ?thesis
  proof
    assume "parseBearer h = Some token"
    then have "EqualFold (take 7 h) ''bearer ''" "token = TrimSpace (drop 7 h)" "token \<noteq> []"
      by (auto simp: parseBearer_def Let_def split: if_splits)
    moreover have "h = take 7 h @ drop 7 h" by simp
    moreover have "map byte_lower (take 7 h) = ''bearer ''" using calculation(1) unfolding EqualFold_def low .
    ultimately have "h = take 7 h @ drop 7 h \<and> map byte_lower (take 7 h) = ''bearer '' \<and> token = TrimSpace (drop 7 h) \<and> token \<noteq> []"
      by blast
    then show "\<exists>scheme rest. h = scheme @ rest \<and> map byte_lower scheme = ''bearer '' \<and> token = TrimSpace rest \<and> token \<noteq> []"
      by (rule exI [of _ "take 7 h", OF exI [of _ "drop 7 h"]])
  next
    assume "\<exists>scheme rest. h = scheme @ rest \<and> map byte_lower scheme = ''bearer '' \<and> token = TrimSpace rest \<and> token \<noteq> []"
    then obtain scheme rest where h: "h = scheme @ rest" "map byte_lower scheme = ''bearer ''" "token = TrimSpace rest" "token \<noteq> []"
      by (elim exE conjE) (rule that)
    have "length scheme = 7" using arg_cong [OF h(2), of length] by simp
    with h low show "parseBearer h = Some token" by (simp add: parseBearer_def EqualFold_def Let_def)
  qed
qed

section \<open>Return targets\<close>

lemma safeReturnTo_cases: "safeReturnTo raw = raw \<or> safeReturnTo raw = ''/''"
  by (simp add: safeReturnTo_def)

text \<open>A return target is always a local path: it starts with a slash that is followed neither by another
  slash nor by a backslash, it contains no scheme separator, an accepted target is kept byte for byte,
  and checking twice changes nothing.\<close>

theorem safeReturnTo_local:
  "\<exists>rest. safeReturnTo raw = CHR ''/'' # rest \<and> (rest = [] \<or> hd rest \<notin> {CHR ''/'', CHR 0x5C})
     \<and> \<not> Contains (safeReturnTo raw) ''://'' \<and> safeReturnTo raw \<in> {raw, ''/''}
     \<and> safeReturnTo (safeReturnTo raw) = safeReturnTo raw"
proof -
  have root: "safeReturnTo ''/'' = ''/''" "\<not> Contains ''/'' ''://''" by code_simp+
  show ?thesis
  proof (cases "safeReturnTo raw = ''/''")
    case True
    with root show ?thesis by auto
  next
    case False
    then have acc: "safeReturnTo raw = raw" using safeReturnTo_cases by blast
    with False obtain rest where "raw = CHR ''/'' # rest" "\<not> HasPrefix raw ''//''" "\<not> HasPrefix raw [CHR ''/'', CHR 0x5C]"
      "\<not> Contains raw ''://''"
      by (cases raw) (auto simp: safeReturnTo_def split: if_splits)
    with acc show ?thesis by (cases rest) auto
  qed
qed

theorem safeReturnTo_local_witness:
  "\<exists>rest. safeReturnTo ''/a?x=1'' = CHR ''/'' # rest \<and> \<not> Contains (safeReturnTo ''/a?x=1'') ''://''"
  using safeReturnTo_local [of "''/a?x=1''"] by auto

text \<open>What a browser does to a URL before it resolves it: tabs and line breaks are removed.\<close>

definition browser_strip :: "string \<Rightarrow> string" where
  "browser_strip s = filter (\<lambda>c. c \<notin> {CHR 0x09, CHR 0x0A, CHR 0x0D}) s"

text \<open>The check is on the raw bytes only: a target with a tab between two slashes is accepted, and is
  protocol-relative (another host) once a browser has removed the tab.\<close>

theorem safeReturnTo_tab_open_redirect:
  "safeReturnTo ([CHR ''/'', CHR 0x09, CHR ''/''] @ ''evil.example'') = [CHR ''/'', CHR 0x09, CHR ''/''] @ ''evil.example''
   \<and> HasPrefix (browser_strip (safeReturnTo ([CHR ''/'', CHR 0x09, CHR ''/''] @ ''evil.example''))) ''//''"
  by code_simp

end
