(* ===== verification/Oidc.thy ===== *)
theory Oidc
  imports Auth_Gates
begin

text \<open>
  The identity-provider connector (\<^verbatim>\<open>src/idp/idp.go\<close>, \<^verbatim>\<open>oidc.go\<close>,
  \<^verbatim>\<open>register.go\<close>). The interface \<open>IdP\<close> is a record of its methods over the external
  state. The protocol libraries (go-oidc, x/oauth2) are the argument \<open>oidc_lib\<close>; a verifier and an
  OAuth client are the data the connector builds them from, so what the connector asks of the libraries can
  be read off. \<open>AuthCodeURL\<close> panics on a connector that only verifies, which is \<open>None\<close>.
\<close>

record 'st idp =
  ipAuthCodeURL :: "string \<Rightarrow> string \<Rightarrow> string \<Rightarrow> string option"
  ipExchange :: "string \<Rightarrow> string \<Rightarrow> string \<Rightarrow> 'st \<Rightarrow> (string, tokens \<times> identity) result \<times> 'st"
  ipRefresh :: "string \<Rightarrow> 'st \<Rightarrow> (string, tokens) result \<times> 'st"
  ipVerify :: "string \<Rightarrow> 'st \<Rightarrow> (string, identity) result \<times> 'st"
  ipVerifyAccessToken :: "string \<Rightarrow> 'st \<Rightarrow> (string, identity) result \<times> 'st"
  ipLogoutURL :: "string \<Rightarrow> string \<Rightarrow> string option"
  ipUserInfo :: "string \<Rightarrow> 'st \<Rightarrow> (string, claims) result \<times> 'st"
  ipUsesPKCE :: bool
  ipVerificationOnly :: "bool option"

text \<open>The optional interface: a connector without the method is a full connector, a nil one too.\<close>

definition IsVerificationOnly :: "'st idp option \<Rightarrow> bool" where
  "IsVerificationOnly p = (case p of None \<Rightarrow> False | Some i \<Rightarrow> ipVerificationOnly i = Some True)"

section \<open>Configuration\<close>

record bearer_config =
  bcJWKSURL :: string
  bcAudienceClaim :: string
  bcRequireAudience :: "bool option"
  bcSigningAlgs :: "string list"

record oidc_config =
  ocType :: string
  ocIssuer :: string
  ocClientID :: string
  ocClientSecret :: string
  ocRedirectURL :: string
  ocVerificationOnly :: bool
  ocBearerAudience :: string
  ocBearer :: "bearer_config option"
  ocScopes :: "string list"
  ocPKCE :: "bool option"

section \<open>The libraries\<close>

record oauth2_config =
  oaClientID :: string
  oaClientSecret :: string
  oaEndpoint :: string
  oaRedirectURL :: string
  oaScopes :: "string list"

datatype key_set = ProviderKeys string | RemoteKeySet string

record token_verifier =
  tvIssuer :: string
  tvKeys :: key_set
  tvClientID :: string
  tvSkipClientIDCheck :: bool
  tvSigningAlgs :: "string list"

datatype auth_option = AccessTypeOffline | Nonce string | S256Challenge string | VerifierOption string

record id_token =
  itSubject :: string
  itNonce :: string
  itAudience :: "string list"
  itClaims :: "(string, claims) result"

record oauth_token =
  otAccessToken :: string
  otRefreshToken :: string
  otExpiry :: int
  otIDToken :: any

record discovery =
  dcEndpoint :: string
  dcEndSession :: string
  dcAccessTokenJWKS :: string
  dcSigningAlgs :: "string list"

record 'st oidc_lib =
  olNewProvider :: "string \<Rightarrow> 'st \<Rightarrow> (string, discovery) result \<times> 'st"
  olAuthCodeURL :: "oauth2_config \<Rightarrow> string \<Rightarrow> auth_option list \<Rightarrow> string"
  olExchange :: "oauth2_config \<Rightarrow> string \<Rightarrow> auth_option list \<Rightarrow> 'st \<Rightarrow> (string, oauth_token) result \<times> 'st"
  olTokenSource :: "oauth2_config \<Rightarrow> string \<Rightarrow> 'st \<Rightarrow> (string, oauth_token) result \<times> 'st"
  olVerify :: "token_verifier \<Rightarrow> string \<Rightarrow> 'st \<Rightarrow> (string, id_token) result \<times> 'st"
  olUserInfo :: "string \<Rightarrow> string \<Rightarrow> 'st \<Rightarrow> (string, (string, claims) result) result \<times> 'st"

section \<open>The connector\<close>

record oidc_idp =
  oiOAuth2 :: oauth2_config
  oiVerifier :: token_verifier
  oiBearerVerifier :: token_verifier
  oiBearerAud :: string
  oiBearerAudClaim :: string
  oiBearerRequireAud :: bool
  oiEndSession :: string
  oiProvider :: string
  oiPKCE :: bool
  oiVerifyOnly :: bool

definition errVerificationOnly :: "string \<Rightarrow> string" where
  "errVerificationOnly what =
     ''oidc: the IdP is declared verificationOnly, so it cannot '' @ what @
     '': it holds no client secret and no redirect URL. Point logins at the instance that terminates the session, or remove verificationOnly from the IdP resource''"

definition oidc_AuthCodeURL :: "'st oidc_lib \<Rightarrow> oidc_idp \<Rightarrow> string \<Rightarrow> string \<Rightarrow> string \<Rightarrow> string option" where
  "oidc_AuthCodeURL L i state nonce codeVerifier =
     (if oiVerifyOnly i then None
      else let opts = [AccessTypeOffline, Nonce nonce] @ (if oiPKCE i then [S256Challenge codeVerifier] else [])
           in Some (olAuthCodeURL L (oiOAuth2 i) state opts))"

definition claim_text :: "claims \<Rightarrow> string \<Rightarrow> string" where
  "claim_text m k = (case str_claim m k of Some s \<Rightarrow> s | None \<Rightarrow> [])"

definition identityFrom :: "id_token \<Rightarrow> (string, identity) result" where
  "identityFrom idt =
     bindR (mapErr (\<lambda>e. ''oidc: parse claims: '' @ e) (itClaims idt)) (\<lambda>raw.
     Inr \<lparr>idtSubject = itSubject idt, idtEmail = claim_text raw ''email'', idtName = claim_text raw ''name'',
          idtClaims = raw\<rparr>)"

definition raw_id_token :: "oauth_token \<Rightarrow> string" where
  "raw_id_token tok = (case as_string (otIDToken tok) of Some s \<Rightarrow> s | None \<Rightarrow> [])"

definition tokens_of :: "oauth_token \<Rightarrow> tokens" where
  "tokens_of tok = \<lparr>tkIDToken = raw_id_token tok, tkAccessToken = otAccessToken tok,
     tkRefreshToken = otRefreshToken tok, tkExpiry = otExpiry tok\<rparr>"

definition oidc_Exchange :: "'st oidc_lib \<Rightarrow> oidc_idp \<Rightarrow> string \<Rightarrow> string \<Rightarrow> string \<Rightarrow> 'st
    \<Rightarrow> (string, tokens \<times> identity) result \<times> 'st" where
  "oidc_Exchange L i code codeVerifier nonce s =
     (if oiVerifyOnly i then (Inl (errVerificationOnly ''exchange an authorization code''), s)
      else if nonce = [] then (Inl ''oidc: nonce must not be empty'', s)
      else case olExchange L (oiOAuth2 i) code (if oiPKCE i then [VerifierOption codeVerifier] else []) s of
        (Inl e, s1) \<Rightarrow> (Inl (''oidc: code exchange: '' @ e), s1)
      | (Inr tok, s1) \<Rightarrow>
          if raw_id_token tok = [] then (Inl ''oidc: token response had no id_token'', s1)
          else (case olVerify L (oiVerifier i) (raw_id_token tok) s1 of
             (Inl e, s2) \<Rightarrow> (Inl (''oidc: verify id_token: '' @ e), s2)
           | (Inr idt, s2) \<Rightarrow>
               if itNonce idt \<noteq> nonce then (Inl ''oidc: id_token nonce mismatch'', s2)
               else (bindR (identityFrom idt) (\<lambda>idn. Inr (tokens_of tok, idn)), s2)))"

definition oidc_Refresh :: "'st oidc_lib \<Rightarrow> oidc_idp \<Rightarrow> string \<Rightarrow> 'st \<Rightarrow> (string, tokens) result \<times> 'st" where
  "oidc_Refresh L i refreshToken s =
     (if oiVerifyOnly i then (Inl (errVerificationOnly ''refresh a token''), s)
      else case olTokenSource L (oiOAuth2 i) refreshToken s of
        (Inl e, s1) \<Rightarrow> (Inl (''oidc: refresh: '' @ e), s1)
      | (Inr tok, s1) \<Rightarrow>
          if raw_id_token tok \<noteq> [] then
            (case olVerify L (oiVerifier i) (raw_id_token tok) s1 of
               (Inl e, s2) \<Rightarrow> (Inl (''oidc: verify refreshed id_token: '' @ e), s2)
             | (Inr idt, s2) \<Rightarrow> (Inr (tokens_of tok), s2))
          else (Inr (tokens_of tok), s1))"

definition oidc_Verify :: "'st oidc_lib \<Rightarrow> oidc_idp \<Rightarrow> string \<Rightarrow> 'st \<Rightarrow> (string, identity) result \<times> 'st" where
  "oidc_Verify L i rawJWT s =
     (case olVerify L (oiVerifier i) rawJWT s of
        (Inl e, s1) \<Rightarrow> (Inl (''oidc: verify: '' @ e), s1)
      | (Inr idt, s1) \<Rightarrow> (identityFrom idt, s1))"

definition claimHas :: "any option \<Rightarrow> string \<Rightarrow> bool" where
  "claimHas v want =
     (case v of
        Some (VStr t) \<Rightarrow> t = want
      | Some (VList ts) \<Rightarrow> list_ex (\<lambda>e. as_string e = Some want) ts
      | Some (VStrs ts) \<Rightarrow> list_ex (\<lambda>t. t = want) ts
      | _ \<Rightarrow> False)"

definition oidc_VerifyAccessToken :: "'st oidc_lib \<Rightarrow> oidc_idp \<Rightarrow> string \<Rightarrow> 'st \<Rightarrow> (string, identity) result \<times> 'st" where
  "oidc_VerifyAccessToken L i rawJWT s =
     (case olVerify L (oiBearerVerifier i) rawJWT s of
        (Inl e, s1) \<Rightarrow> (Inl (''oidc: verify access token: '' @ e), s1)
      | (Inr idt, s1) \<Rightarrow>
          (bindR (identityFrom idt) (\<lambda>idn.
           guardR (oiBearerRequireAud i \<and> oiBearerAudClaim i \<noteq> []
                   \<and> \<not> claimHas (gm_get (idtClaims idn) (oiBearerAudClaim i)) (oiBearerAud i))
             (''oidc: verify access token: '' @ oiBearerAudClaim i @ '' does not match the expected audience'')
             (Inr idn)), s1))"

definition oidc_LogoutURL :: "(string \<Rightarrow> url option) \<Rightarrow> oidc_idp \<Rightarrow> string \<Rightarrow> string \<Rightarrow> string option" where
  "oidc_LogoutURL parse i idTokenHint postLogoutRedirect =
     (if oiVerifyOnly i then None
      else if oiEndSession i = [] then None
      else case parse (oiEndSession i) of
        None \<Rightarrow> None
      | Some u \<Rightarrow>
          let q = ParseQuery (uRawQuery u);
              q1 = (if idTokenHint \<noteq> [] then vSet ''id_token_hint'' idTokenHint q else q);
              q2 = (if postLogoutRedirect \<noteq> [] then vSet ''post_logout_redirect_uri'' postLogoutRedirect q1 else q1)
          in Some (urlString (u\<lparr>uRawQuery := Encode q2\<rparr>)))"

definition oidc_UserInfo :: "'st oidc_lib \<Rightarrow> oidc_idp \<Rightarrow> string \<Rightarrow> 'st \<Rightarrow> (string, claims) result \<times> 'st" where
  "oidc_UserInfo L i accessToken s =
     (case olUserInfo L (oiProvider i) accessToken s of
        (Inl e, s1) \<Rightarrow> (Inl (''oidc: userinfo: '' @ e), s1)
      | (Inr ui, s1) \<Rightarrow> (mapErr (\<lambda>e. ''oidc: parse userinfo claims: '' @ e) ui, s1))"

definition oidc_ops :: "'st oidc_lib \<Rightarrow> (string \<Rightarrow> url option) \<Rightarrow> oidc_idp \<Rightarrow> 'st idp" where
  "oidc_ops L parse i = \<lparr>ipAuthCodeURL = oidc_AuthCodeURL L i, ipExchange = oidc_Exchange L i, ipRefresh = oidc_Refresh L i,
     ipVerify = oidc_Verify L i, ipVerifyAccessToken = oidc_VerifyAccessToken L i, ipLogoutURL = oidc_LogoutURL parse i,
     ipUserInfo = oidc_UserInfo L i, ipUsesPKCE = oiPKCE i, ipVerificationOnly = Some (oiVerifyOnly i)\<rparr>"

section \<open>Building the connector\<close>

datatype oidc_error =
    VerificationOnlyNeeds
  | VerificationOnlyCredentials
  | OidcRequired
  | Discovery string string
  | AudienceClaimUnused
  | IdpDecode string

definition check_credentials :: "oidc_config \<Rightarrow> (oidc_error, unit) result" where
  "check_credentials cfg =
     (if ocVerificationOnly cfg then
        guardR (ocIssuer cfg = [] \<or> ocClientID cfg = []) VerificationOnlyNeeds (
        guardR (ocClientSecret cfg \<noteq> [] \<or> ocRedirectURL cfg \<noteq> []) VerificationOnlyCredentials (Inr ()))
      else guardR (ocIssuer cfg = [] \<or> ocClientID cfg = [] \<or> ocClientSecret cfg = [] \<or> ocRedirectURL cfg = [])
        OidcRequired (Inr ()))"

definition require_audience :: "oidc_config \<Rightarrow> bool" where
  "require_audience cfg =
     (case ocBearer cfg of None \<Rightarrow> True | Some b \<Rightarrow> (case bcRequireAudience b of None \<Rightarrow> True | Some v \<Rightarrow> v))"

definition audience_claim :: "oidc_config \<Rightarrow> string" where
  "audience_claim cfg = (case ocBearer cfg of None \<Rightarrow> [] | Some b \<Rightarrow> bcAudienceClaim b)"

definition bearer_audience :: "oidc_config \<Rightarrow> string" where
  "bearer_audience cfg = (if ocBearerAudience cfg = [] then ocClientID cfg else ocBearerAudience cfg)"

text \<open>\<open>provider.Verifier\<close> checks against the provider's issuer and key set, and copies the advertised
  algorithms in when the configuration names none.\<close>

definition provider_Verifier :: "string \<Rightarrow> discovery \<Rightarrow> string \<Rightarrow> bool \<Rightarrow> string list \<Rightarrow> token_verifier" where
  "provider_Verifier issuer d clientID skip algs =
     \<lparr>tvIssuer = issuer, tvKeys = ProviderKeys issuer, tvClientID = clientID, tvSkipClientIDCheck = skip,
      tvSigningAlgs = (if algs = [] then dcSigningAlgs d else algs)\<rparr>"

definition bearer_verifier_of :: "oidc_config \<Rightarrow> discovery \<Rightarrow> token_verifier" where
  "bearer_verifier_of cfg d =
     (let jwksURL = (case ocBearer cfg of
                       None \<Rightarrow> dcAccessTokenJWKS d
                     | Some b \<Rightarrow> if bcJWKSURL b \<noteq> [] then bcJWKSURL b else dcAccessTokenJWKS d);
          configured = (case ocBearer cfg of None \<Rightarrow> [] | Some b \<Rightarrow> bcSigningAlgs b);
          signingAlgs = (if configured = [] then dcSigningAlgs d else configured);
          skip = (\<not> require_audience cfg \<or> audience_claim cfg \<noteq> []);
          clientID = (if skip then [] else bearer_audience cfg)
      in if jwksURL \<noteq> []
         then \<lparr>tvIssuer = ocIssuer cfg, tvKeys = RemoteKeySet jwksURL, tvClientID = clientID,
               tvSkipClientIDCheck = skip, tvSigningAlgs = signingAlgs\<rparr>
         else provider_Verifier (ocIssuer cfg) d clientID skip signingAlgs)"

definition newOIDC :: "'st oidc_lib \<Rightarrow> oidc_config \<Rightarrow> 'st \<Rightarrow> (oidc_error, oidc_idp) result \<times> 'st" where
  "newOIDC L cfg s =
     (case check_credentials cfg of
        Inl e \<Rightarrow> (Inl e, s)
      | Inr u \<Rightarrow>
          (case olNewProvider L (ocIssuer cfg) s of
             (Inl e, s1) \<Rightarrow> (Inl (Discovery (ocIssuer cfg) e), s1)
           | (Inr d, s1) \<Rightarrow>
               (guardR (\<not> require_audience cfg \<and> audience_claim cfg \<noteq> []) AudienceClaimUnused (
                Inr \<lparr>oiOAuth2 = \<lparr>oaClientID = ocClientID cfg, oaClientSecret = ocClientSecret cfg,
                       oaEndpoint = dcEndpoint d, oaRedirectURL = ocRedirectURL cfg,
                       oaScopes = (if ocScopes cfg = [] then [''openid'', ''profile'', ''email''] else ocScopes cfg)\<rparr>,
                     oiVerifier = provider_Verifier (ocIssuer cfg) d (ocClientID cfg) False [],
                     oiBearerVerifier = bearer_verifier_of cfg d,
                     oiBearerAud = bearer_audience cfg,
                     oiBearerAudClaim = audience_claim cfg,
                     oiBearerRequireAud = require_audience cfg,
                     oiEndSession = dcEndSession d,
                     oiProvider = ocIssuer cfg,
                     oiPKCE = (case ocPKCE cfg of None \<Rightarrow> True | Some b \<Rightarrow> b),
                     oiVerifyOnly = ocVerificationOnly cfg\<rparr>), s1)))"

text \<open>The factory registered under \<open>oidc\<close>.\<close>

definition idp_factory :: "('n \<Rightarrow> (string, oidc_config) result) \<Rightarrow> 'st oidc_lib \<Rightarrow> (string \<Rightarrow> url option) \<Rightarrow> 'n \<Rightarrow> 'st
    \<Rightarrow> (oidc_error, 'st idp) result \<times> 'st" where
  "idp_factory dec L parse cfg s =
     (case dec cfg of
        Inl e \<Rightarrow> (Inl (IdpDecode e), s)
      | Inr oc \<Rightarrow> (case newOIDC L oc s of (r, s1) \<Rightarrow> (bindR r (\<lambda>i. Inr (oidc_ops L parse i)), s1)))"

section \<open>What a login proves\<close>

text \<open>C18. A code exchange that succeeds is bound to the sign-in that asked for it: the connector is a full one,
  the nonce of the sign-in is not empty and is the nonce of an ID token the provider's verifier accepted, and
  that token is the one the exchange of this code with this PKCE verifier returned.\<close>

theorem oidc_Exchange_bound:
  assumes "oidc_Exchange L i code codeVerifier nonce s = (Inr (tk, idn), s')"
  shows "\<not> oiVerifyOnly i \<and> nonce \<noteq> [] \<and>
    (\<exists>tok idt s1. olExchange L (oiOAuth2 i) code (if oiPKCE i then [VerifierOption codeVerifier] else []) s = (Inr tok, s1)
       \<and> raw_id_token tok \<noteq> [] \<and> olVerify L (oiVerifier i) (raw_id_token tok) s1 = (Inr idt, s')
       \<and> itNonce idt = nonce \<and> identityFrom idt = Inr idn \<and> tk = tokens_of tok)"
proof -
  have full: "\<not> oiVerifyOnly i" "nonce \<noteq> []" using assms by (auto simp: oidc_Exchange_def split: if_splits)
  then obtain tok s1 where tok: "olExchange L (oiOAuth2 i) code (if oiPKCE i then [VerifierOption codeVerifier] else []) s = (Inr tok, s1)"
    using assms by (auto simp: oidc_Exchange_def split: prod.splits sum.splits)
  then have raw: "raw_id_token tok \<noteq> []" using assms full by (auto simp: oidc_Exchange_def)
  then obtain idt s2 where idt: "olVerify L (oiVerifier i) (raw_id_token tok) s1 = (Inr idt, s2)"
    using assms full tok by (auto simp: oidc_Exchange_def split: prod.splits sum.splits)
  then show ?thesis using assms full tok raw
    by (auto simp: oidc_Exchange_def bindR_eq_Inr split: if_splits)
qed

section \<open>Access tokens\<close>

text \<open>What go-oidc documents of a verifier: unless told to skip the check, it accepts only tokens whose
  audience contains the client id it was configured with.\<close>

definition checks_audience :: "'st oidc_lib \<Rightarrow> bool" where
  "checks_audience L \<longleftrightarrow> (\<forall>v raw s idt s'. olVerify L v raw s = (Inr idt, s') \<longrightarrow> \<not> tvSkipClientIDCheck v
     \<longrightarrow> tvClientID v \<in> set (itAudience idt))"

lemma newOIDC_parts:
  assumes "newOIDC L cfg s = (Inr i, s')"
  obtains d where "check_credentials cfg = Inr ()" "olNewProvider L (ocIssuer cfg) s = (Inr d, s')"
    "\<not> (\<not> require_audience cfg \<and> audience_claim cfg \<noteq> [])"
    "oiBearerVerifier i = bearer_verifier_of cfg d" "oiBearerAud i = bearer_audience cfg"
    "oiBearerAudClaim i = audience_claim cfg" "oiBearerRequireAud i = require_audience cfg"
    "oiVerifyOnly i = ocVerificationOnly cfg"
  using assms by (auto simp: newOIDC_def guardR_eq_Inr split: sum.splits prod.splits)

lemma bearer_verifier_of_sel:
  "tvIssuer (bearer_verifier_of cfg d) = ocIssuer cfg"
  "tvSkipClientIDCheck (bearer_verifier_of cfg d) \<longleftrightarrow> \<not> require_audience cfg \<or> audience_claim cfg \<noteq> []"
  "\<not> tvSkipClientIDCheck (bearer_verifier_of cfg d) \<Longrightarrow> tvClientID (bearer_verifier_of cfg d) = bearer_audience cfg"
  by (auto simp: bearer_verifier_of_def provider_Verifier_def Let_def)

text \<open>C19. A connector built from a configuration accepts an access token only for its own audience: the token
  verified against the configured issuer, and either its \<open>aud\<close> contains the expected audience, or the
  configured claim does. Only an explicit \<open>requireAudience: false\<close> turns the check off, and the
  expected audience is never empty.\<close>

theorem access_token_audience:
  assumes "newOIDC L cfg s0 = (Inr i, s1)" "checks_audience L"
    and "oidc_VerifyAccessToken L i raw s = (Inr idn, s')"
  shows "\<exists>idt. olVerify L (oiBearerVerifier i) raw s = (Inr idt, s') \<and> tvIssuer (oiBearerVerifier i) = ocIssuer cfg
    \<and> identityFrom idt = Inr idn \<and> bearer_audience cfg \<noteq> []
    \<and> (require_audience cfg \<longrightarrow>
        (if audience_claim cfg = [] then bearer_audience cfg \<in> set (itAudience idt)
         else claimHas (gm_get (idtClaims idn) (audience_claim cfg)) (bearer_audience cfg)))"
proof -
  from assms(1) obtain d where cred: "check_credentials cfg = Inr ()"
    and i: "oiBearerVerifier i = bearer_verifier_of cfg d" "oiBearerAud i = bearer_audience cfg"
      "oiBearerAudClaim i = audience_claim cfg" "oiBearerRequireAud i = require_audience cfg"
    by (rule newOIDC_parts)
  have "ocClientID cfg \<noteq> []" using cred by (auto simp: check_credentials_def guardR_eq_Inr split: if_splits)
  then have aud: "bearer_audience cfg \<noteq> []" by (simp add: bearer_audience_def)
  from assms(3) obtain idt where v: "olVerify L (oiBearerVerifier i) raw s = (Inr idt, s')" "identityFrom idt = Inr idn"
    and c: "require_audience cfg \<Longrightarrow> audience_claim cfg \<noteq> []
      \<Longrightarrow> claimHas (gm_get (idtClaims idn) (audience_claim cfg)) (bearer_audience cfg)"
    by (auto simp: oidc_VerifyAccessToken_def i result_inr split: sum.splits prod.splits)
  have "tvClientID (bearer_verifier_of cfg d) \<in> set (itAudience idt)" if "require_audience cfg" "audience_claim cfg = []"
    using assms(2) v(1) that bearer_verifier_of_sel(2) [of cfg d] unfolding checks_audience_def i by blast
  then show ?thesis using v c aud bearer_verifier_of_sel [of cfg d] by (auto simp: i)
qed

definition demo_oidc_config :: oidc_config where
  "demo_oidc_config = \<lparr>ocType = ''oidc'', ocIssuer = ''https://idp'', ocClientID = ''hog'', ocClientSecret = ''s'',
     ocRedirectURL = ''https://app/cb'', ocVerificationOnly = False, ocBearerAudience = [], ocBearer = None,
     ocScopes = [], ocPKCE = None\<rparr>"

definition demo_oidc_lib :: "unit oidc_lib" where
  "demo_oidc_lib = \<lparr>olNewProvider = (\<lambda>iss s. (Inr \<lparr>dcEndpoint = iss, dcEndSession = [], dcAccessTokenJWKS = [], dcSigningAlgs = []\<rparr>, s)),
     olAuthCodeURL = (\<lambda>c st opts. oaEndpoint c @ st),
     olExchange = (\<lambda>c code opts s. (Inr \<lparr>otAccessToken = ''at'', otRefreshToken = ''rt'', otExpiry = 9, otIDToken = VStr code\<rparr>, s)),
     olTokenSource = (\<lambda>c rt s. (Inl ''no refresh'', s)),
     olVerify = (\<lambda>v raw s. (Inr \<lparr>itSubject = ''ann'', itNonce = ''n1'', itAudience = [tvClientID v], itClaims = Inr []\<rparr>, s)),
     olUserInfo = (\<lambda>p t s. (Inr (Inr []), s))\<rparr>"

definition demo_oidc :: oidc_idp where
  "demo_oidc = projr (fst (newOIDC demo_oidc_lib demo_oidc_config ()))"

lemma demo_newOIDC: "newOIDC demo_oidc_lib demo_oidc_config () = (Inr demo_oidc, ())"
proof -
  have "isl (fst (newOIDC demo_oidc_lib demo_oidc_config ())) = False" by code_simp
  then show ?thesis unfolding demo_oidc_def by (cases "newOIDC demo_oidc_lib demo_oidc_config ()") (auto simp: isl_def)
qed

definition demo_oidc_identity :: identity where
  "demo_oidc_identity = \<lparr>idtSubject = ''ann'', idtEmail = [], idtName = [], idtClaims = []\<rparr>"

theorem access_token_audience_witness:
  "\<exists>idt. olVerify demo_oidc_lib (oiBearerVerifier demo_oidc) ''t'' () = (Inr idt, ()) \<and> ''hog'' \<in> set (itAudience idt)"
proof -
  have "checks_audience demo_oidc_lib" by (auto simp: checks_audience_def demo_oidc_lib_def)
  moreover have "oidc_VerifyAccessToken demo_oidc_lib demo_oidc ''t'' () = (Inr demo_oidc_identity, ())" by code_simp
  ultimately show ?thesis using access_token_audience [OF demo_newOIDC]
    by (auto simp: demo_oidc_config_def require_audience_def audience_claim_def bearer_audience_def)
qed

theorem oidc_Exchange_bound_witness:
  "\<exists>tok idt s1. olExchange demo_oidc_lib (oiOAuth2 demo_oidc) ''c'' [VerifierOption ''v''] () = (Inr tok, s1)
     \<and> olVerify demo_oidc_lib (oiVerifier demo_oidc) (raw_id_token tok) s1 = (Inr idt, ()) \<and> itNonce idt = ''n1''"
proof -
  have "oidc_Exchange demo_oidc_lib demo_oidc ''c'' ''v'' ''n1'' ()
    = (Inr (\<lparr>tkIDToken = ''c'', tkAccessToken = ''at'', tkRefreshToken = ''rt'', tkExpiry = 9\<rparr>, demo_oidc_identity), ())"
    by code_simp
  moreover have "oiPKCE demo_oidc" by code_simp
  ultimately show ?thesis using oidc_Exchange_bound [of demo_oidc_lib demo_oidc "''c''" "''v''" "''n1''"]
    by (simp del: split_paired_Ex) blast
qed

text \<open>A connector declared verification-only holds no credential and can start nothing: every entry point of
  the login flow refuses, without touching the provider, and it says so when asked.\<close>

theorem verification_only_refuses:
  assumes "newOIDC L cfg s0 = (Inr i, s1)" "ocVerificationOnly cfg"
  shows "IsVerificationOnly (Some (oidc_ops L parse i)) \<and> ocClientSecret cfg = [] \<and> ocRedirectURL cfg = []
    \<and> oidc_AuthCodeURL L i st n v = None \<and> oidc_Exchange L i c v n s = (Inl (errVerificationOnly ''exchange an authorization code''), s)
    \<and> oidc_Refresh L i rt s = (Inl (errVerificationOnly ''refresh a token''), s) \<and> oidc_LogoutURL parse i hint post = None"
proof -
  from assms(1) obtain d where "check_credentials cfg = Inr ()" "oiVerifyOnly i = ocVerificationOnly cfg" by (rule newOIDC_parts)
  with assms(2) show ?thesis
    by (simp add: check_credentials_def guardR_eq_Inr IsVerificationOnly_def oidc_ops_def oidc_AuthCodeURL_def
        oidc_Exchange_def oidc_Refresh_def oidc_LogoutURL_def)
qed

theorem verification_only_refuses_witness:
  "IsVerificationOnly (Some (oidc_ops demo_oidc_lib (\<lambda>s. None) (projr (fst (newOIDC demo_oidc_lib
     (demo_oidc_config\<lparr>ocVerificationOnly := True, ocClientSecret := [], ocRedirectURL := []\<rparr>) ())))))"
proof -
  let ?cfg = "demo_oidc_config\<lparr>ocVerificationOnly := True, ocClientSecret := [], ocRedirectURL := []\<rparr>"
  have "isl (fst (newOIDC demo_oidc_lib ?cfg ())) = False" by code_simp
  then have "newOIDC demo_oidc_lib ?cfg () = (Inr (projr (fst (newOIDC demo_oidc_lib ?cfg ()))), ())"
    by (cases "newOIDC demo_oidc_lib ?cfg ()") (auto simp: isl_def)
  from verification_only_refuses [OF this] show ?thesis by simp
qed

end
