(* ===== verification/Login_Flow.thy ===== *)
theory Login_Flow
  imports Oidc
begin

text \<open>
  The browser login flow (\<^verbatim>\<open>src/auth/endpoints.go\<close>, \<^verbatim>\<open>loginstate.go\<close>): the transient
  state of a sign-in, sealed into its own short-lived cookie, and the login, callback and logout endpoints.
  The JSON codec of the state and \<open>oauth2.GenerateVerifier\<close> (a function of 32 random octets) are
  arguments in \<open>login_env\<close>; the connector and the session manager are their interfaces, so every
  theorem holds for every manager. Log lines are left out. The ten second timeout of the callback is a matter
  of the connector: an expired context makes its calls fail.
\<close>

record loginState =
  lsState :: string
  lsNonce :: string
  lsVerifier :: string
  lsReturnTo :: string

record login_env = session_env +
  leMarshal :: "loginState \<Rightarrow> string option"
  leUnmarshal :: "string \<Rightarrow> loginState option"
  leVerifier :: "string \<Rightarrow> string"

abbreviation sealing :: "login_env \<Rightarrow> session_env" where
  "sealing E \<equiv> session_env.truncate E"

definition loginAAD :: string where
  "loginAAD = ''hog/login/v1''"

definition sealLoginState :: "login_env \<Rightarrow> string \<Rightarrow> loginState \<Rightarrow> 'st world \<Rightarrow> string option \<times> 'st world" where
  "sealLoginState E key ls w =
     (case leMarshal E ls of
        None \<Rightarrow> (None, w)
      | Some b \<Rightarrow> (let (val, w1) = seal (sealing E) key b loginAAD w in (Some val, w1)))"

definition openLoginState :: "login_env \<Rightarrow> string \<Rightarrow> string \<Rightarrow> loginState option" where
  "openLoginState E key val =
     (case open_sealed (sealing E) key val loginAAD of None \<Rightarrow> None | Some raw \<Rightarrow> leUnmarshal E raw)"

section \<open>Login cookies\<close>

definition loginCookie :: string where
  "loginCookie = ''hog_login''"

definition loginTTL :: int where
  "loginTTL = 600"

definition maxLoginFlows :: nat where
  "maxLoginFlows = 5"

definition loginCookieName :: "login_env \<Rightarrow> string \<Rightarrow> string" where
  "loginCookieName E state = loginCookie @ ''_'' @ hex_encode (take 8 (eSha256 E state))"

definition is_login_cookie :: "string \<Rightarrow> bool" where
  "is_login_cookie n \<longleftrightarrow> n = loginCookie \<or> HasPrefix n (loginCookie @ ''_'')"

definition loginCookies :: "request \<Rightarrow> (string \<times> string) list" where
  "loginCookies r = filter (\<lambda>c. is_login_cookie (fst c)) (rCookies r)"

definition secure :: "request \<Rightarrow> bool" where
  "secure r = (let p = reqGet r ''X-Forwarded-Proto'' in if p \<noteq> [] then p = ''https'' else True)"

definition login_cookie :: "request \<Rightarrow> string \<Rightarrow> string \<Rightarrow> int \<Rightarrow> setcookie" where
  "login_cookie r name val maxAge =
     \<lparr>ckName = name, ckValue = val, ckPath = ''/'', ckHttpOnly = True, ckSecure = secure r, ckSameSiteLax = True,
      ckMaxAge = maxAge\<rparr>"

definition expireLoginCookie :: "request \<Rightarrow> string \<Rightarrow> 'st world \<Rightarrow> 'st world" where
  "expireLoginCookie r name w = SetCookie (login_cookie r name [] (- 1)) w"

section \<open>The endpoints\<close>

record 'st handlers =
  hIdp :: "'st idp"
  hSess :: "'st manager"
  hSealer :: string
  hCfg :: auth_config
  hScfg :: session_config
  hIdCfg :: identity_config

definition randToken :: "'st world \<Rightarrow> string \<times> 'st world" where
  "randToken w = (RawURLEncode (randBytes 32 w), useRand 32 w)"

definition urlQuery :: "request \<Rightarrow> url_values" where
  "urlQuery r = ParseQuery (rRawQuery r)"

definition new_login :: "login_env \<Rightarrow> bool \<Rightarrow> request \<Rightarrow> 'st world \<Rightarrow> loginState \<times> 'st world" where
  "new_login E pkce r w =
     (let (state, w1) = randToken w;
          (nonce, w2) = randToken w1;
          ls = \<lparr>lsState = state, lsNonce = nonce, lsVerifier = [],
                lsReturnTo = safeReturnTo (vGet (urlQuery r) ''return_to'')\<rparr>
      in if pkce then (ls\<lparr>lsVerifier := leVerifier E (randBytes 32 w2)\<rparr>, useRand 32 w2) else (ls, w2))"

definition drop_flows :: "request \<Rightarrow> 'st world \<Rightarrow> 'st world" where
  "drop_flows r w =
     (if length (loginCookies r) \<ge> maxLoginFlows
      then foldl (\<lambda>w c. expireLoginCookie r (fst c) w) w (loginCookies r) else w)"

definition Login :: "login_env \<Rightarrow> 'st handlers \<Rightarrow> 'st handler" where
  "Login E h r w =
     (let (ls, w1) = new_login E (ipUsesPKCE (hIdp h)) r w in
      case sealLoginState E (hSealer h) ls w1 of
        (None, w2) \<Rightarrow> Done (httpError ''internal error'' 500 w2)
      | (Some sealed, w2) \<Rightarrow>
          let w3 = SetCookie (login_cookie r (loginCookieName E (lsState ls)) sealed loginTTL) (drop_flows r w2) in
          (case ipAuthCodeURL (hIdp h) (lsState ls) (lsNonce ls) (lsVerifier ls) of
             None \<Rightarrow> Panicked (errVerificationOnly ''start a login flow'') w3
           | Some url \<Rightarrow> Done (Redirect url 302 w3)))"

definition rejectCallback :: "'st handlers \<Rightarrow> request \<Rightarrow> string \<Rightarrow> 'st world \<Rightarrow> 'st world outcome" where
  "rejectCallback h r msg w =
     (case mRead (hSess h) r w of
        (Inr s, w1) \<Rightarrow> Done (Redirect ''/'' 302 w1)
      | (Inl e, w1) \<Rightarrow> Done (httpError msg 400 w1))"

definition callback_userinfo :: "'st handlers \<Rightarrow> tokens \<Rightarrow> 'st world \<Rightarrow> (string, claims) result \<times> 'st world" where
  "callback_userinfo h tok w =
     (if NeedsUserInfo (hIdCfg h) then liftExt (ipUserInfo (hIdp h) (tkAccessToken tok)) w else (Inr [], w))"

definition complete_callback :: "'st handlers \<Rightarrow> request \<Rightarrow> string \<Rightarrow> loginState \<Rightarrow> string \<Rightarrow> 'st world \<Rightarrow> 'st world outcome" where
  "complete_callback h r name ls code w =
     (case liftExt (ipExchange (hIdp h) code (lsVerifier ls) (lsNonce ls)) w of
        (Inl e, w1) \<Rightarrow> Done (httpError ''authentication failed'' 502 w1)
      | (Inr (tok, idn), w1) \<Rightarrow>
          (case callback_userinfo h tok w1 of
             (Inl e, w2) \<Rightarrow> Done (httpError ''authentication failed'' 502 w2)
           | (Inr ui, w2) \<Rightarrow>
               (case mIssue (hSess h) r idn ui tok w2 of
                  (Some e, w3) \<Rightarrow> Done (httpError ''internal error'' 500 w3)
                | (None, w3) \<Rightarrow> Done (Redirect (lsReturnTo ls) 302 (expireLoginCookie r name w3)))))"

definition callback_cookie :: "login_env \<Rightarrow> request \<Rightarrow> (string \<times> string) option" where
  "callback_cookie E r =
     (let name = loginCookieName E (vGet (urlQuery r) ''state'') in
      case reqCookie r name of
        Some v \<Rightarrow> Some (name, v)
      | None \<Rightarrow> (case reqCookie r loginCookie of Some v \<Rightarrow> Some (loginCookie, v) | None \<Rightarrow> None))"

definition Callback :: "login_env \<Rightarrow> 'st handlers \<Rightarrow> 'st handler" where
  "Callback E h r w =
     (let q = urlQuery r; state = vGet q ''state'' in
      case callback_cookie E r of
        None \<Rightarrow> rejectCallback h r ''login session expired; please restart sign-in'' w
      | Some (name, val) \<Rightarrow>
          (case openLoginState E (hSealer h) val of
             None \<Rightarrow> rejectCallback h r ''login session invalid; please restart sign-in'' w
           | Some ls \<Rightarrow>
               if vGet q ''error'' \<noteq> [] then Done (httpError ''identity provider returned an error'' 400 w)
               else
                 let code = vGet q ''code'' in
                 if code = [] \<or> state \<noteq> lsState ls
                 then rejectCallback h r ''invalid authentication response'' w
                 else complete_callback h r name ls code w))"

definition Logout :: "'st handlers \<Rightarrow> 'st handler" where
  "Logout h r w = Done (Redirect (scPostLogoutRedirect (hScfg h)) 302 (mClear (hSess h) r w))"

section \<open>Cookies of a sign-in\<close>

lemma hex_digit_token: "d < 16 \<Longrightarrow> tokenByte (hex_digit d)"
  by (cases "d < 10") (simp_all add: hex_digit_def tokenByte_def Let_def)

lemma hex_encode_token: "list_all tokenByte (hex_encode s)"
proof -
  have "byte c div 16 < 16" "byte c mod 16 < 16" for c using byte_less [of c] by (auto simp: div_less_iff_less_mult)
  then show ?thesis by (auto simp: hex_encode_def list_all_iff hex_digit_token)
qed

lemma loginCookieName_ok:
  "list_all tokenByte (loginCookieName E state)" "loginCookieName E state \<noteq> []"
  "is_login_cookie (loginCookieName E state)"
proof -
  have "list_all tokenByte ''hog_login_''" by code_simp
  then show "list_all tokenByte (loginCookieName E state)"
    by (simp add: loginCookieName_def loginCookie_def hex_encode_token)
qed (simp_all add: loginCookieName_def loginCookie_def is_login_cookie_def)

lemma expire_flows_cookies:
  assumes "list_all (\<lambda>c. list_all tokenByte (fst c) \<and> fst c \<noteq> []) cs"
  shows "cookies_of (foldl (\<lambda>w c. expireLoginCookie r (fst c) w) w cs) =
    cookies_of w @ map (\<lambda>c. login_cookie r (fst c) [] (- 1)) cs"
  using assms
  by (induction cs arbitrary: w) (auto simp: expireLoginCookie_def SetCookie_cookies login_cookie_def)

lemma apply_expired_flows:
  "apply_cookies (map (\<lambda>c. login_cookie r (fst c) [] (- 1)) cs) jar = filter (\<lambda>c. fst c \<notin> fst ` set cs) jar"
  by (induction cs arbitrary: jar) (auto simp: login_cookie_def delete_filter intro: filter_cong)

text \<open>The login cookies of the jar once the expired ones are gone.\<close>

definition kept_flows :: "request \<Rightarrow> (string \<times> string) list" where
  "kept_flows r = (if length (loginCookies r) \<ge> maxLoginFlows
     then filter (\<lambda>c. \<not> is_login_cookie (fst c)) (rCookies r) else rCookies r)"

lemma login_names_ok: "cookie_tokens r \<Longrightarrow> list_all (\<lambda>c. list_all tokenByte (fst c) \<and> fst c \<noteq> []) (loginCookies r)"
  by (auto simp: cookie_tokens_def loginCookies_def list_all_iff is_login_cookie_def loginCookie_def)

lemma drop_flows_jar:
  assumes "cookie_tokens r" "wCookies (resp w) = []"
  shows "apply_cookies (cookies_of (drop_flows r w)) (rCookies r) = kept_flows r"
proof (cases "length (loginCookies r) \<ge> maxLoginFlows")
  case True
  then have "apply_cookies (cookies_of (drop_flows r w)) (rCookies r) = filter (\<lambda>c. fst c \<notin> fst ` set (loginCookies r)) (rCookies r)"
    using assms(2) by (simp add: drop_flows_def expire_flows_cookies [OF login_names_ok [OF assms(1)]]
        apply_expired_flows) (simp add: cookies_of_def apply_expired_flows)
  also have "\<dots> = filter (\<lambda>c. \<not> is_login_cookie (fst c)) (rCookies r)"
    by (rule filter_cong) (auto simp: loginCookies_def image_iff)
  finally show ?thesis using True by (simp add: kept_flows_def)
next
  case False
  then show ?thesis using assms(2) by (simp add: drop_flows_def kept_flows_def cookies_of_def)
qed

section \<open>A sign-in returns\<close>

lemma useRand_resp [simp]: "resp (useRand n w) = resp w"
  by (simp add: useRand_def)

lemma new_login_resp [simp]: "resp (snd (new_login E pkce r w)) = resp w"
  by (simp add: new_login_def randToken_def Let_def)

lemma new_login_return: "lsReturnTo (fst (new_login E pkce r w)) = safeReturnTo (vGet (urlQuery r) ''return_to'')"
  by (simp add: new_login_def randToken_def Let_def)

definition login_sealed :: "login_env \<Rightarrow> 'st handlers \<Rightarrow> request \<Rightarrow> 'st world \<Rightarrow> string option \<times> 'st world" where
  "login_sealed E h r w =
     (let (ls, w1) = new_login E (ipUsesPKCE (hIdp h)) r w in sealLoginState E (hSealer h) ls w1)"

lemma Login_cookies:
  assumes "Login E h r w = Done w'" "leMarshal E ls = Some b" "ls = fst (new_login E (ipUsesPKCE (hIdp h)) r w)"
    and "cookie_tokens r" "wCookies (resp w) = []"
  obtains val url where "fst (login_sealed E h r w) = Some val"
    "ipAuthCodeURL (hIdp h) (lsState ls) (lsNonce ls) (lsVerifier ls) = Some url" "wGet w' ''Location'' = url"
    "apply_cookies (wCookies (resp w')) (rCookies r) = gm_set (loginCookieName E (lsState ls)) val (kept_flows r)"
proof -
  obtain w1 where n: "new_login E (ipUsesPKCE (hIdp h)) r w = (ls, w1)" using assms(3) by (metis prod.collapse)
  let ?s = "seal (sealing E) (hSealer h) b loginAAD w1"
  let ?w2 = "drop_flows r (snd ?s)"
  let ?c = "login_cookie r (loginCookieName E (lsState ls)) (fst ?s) loginTTL"
  have seal: "sealLoginState E (hSealer h) ls w1 = (Some (fst ?s), snd ?s)"
    using assms(2) by (simp add: sealLoginState_def split_beta)
  from assms(1) obtain url where url: "ipAuthCodeURL (hIdp h) (lsState ls) (lsNonce ls) (lsVerifier ls) = Some url"
    and w': "w' = Redirect url 302 (SetCookie ?c ?w2)"
    by (auto simp: Login_def n seal Let_def split: option.splits)
  have "wCookies (resp (snd ?s)) = []" using assms(5) new_login_resp [of E "ipUsesPKCE (hIdp h)" r w] by (simp add: n)
  then have "apply_cookies (cookies_of ?w2) (rCookies r) = kept_flows r" by (rule drop_flows_jar [OF assms(4)])
  moreover have "cookies_of (SetCookie ?c ?w2) = cookies_of ?w2 @ [?c]"
  proof (rule SetCookie_cookies)
    show "list_all valid_cookie_byte (ckValue ?c)" by (simp add: login_cookie_def seal_def Let_def valid_cookie_RawURL)
  qed (simp_all add: login_cookie_def loginCookieName_ok)
  ultimately have "apply_cookies (wCookies (resp w')) (rCookies r) = gm_set (loginCookieName E (lsState ls)) (fst ?s) (kept_flows r)"
    by (simp add: w' cookies_of_def apply_cookies_append) (simp add: login_cookie_def loginTTL_def)
  moreover have "fst (login_sealed E h r w) = Some (fst ?s)" by (simp add: login_sealed_def n seal)
  ultimately show ?thesis using that url w' wGet_Redirect by blast
qed

lemma Login_Done:
  assumes "\<And>ls. leMarshal E ls = Some b" "\<And>st n v. ipAuthCodeURL (hIdp h) st n v = Some url"
  shows "\<exists>w'. Login E h r w = Done w'"
  using assms by (simp add: Login_def sealLoginState_def split_beta Let_def)

lemma open_login_sealed:
  assumes "fst (login_sealed E h r w) = Some val" "aead_opens (sealing E) (hSealer h)"
    and "leMarshal E ls = Some b" "leUnmarshal E b = Some ls" "ls = fst (new_login E (ipUsesPKCE (hIdp h)) r w)"
  shows "openLoginState E (hSealer h) val = Some ls"
proof -
  have "val = fst (seal (sealing E) (hSealer h) b loginAAD (snd (new_login E (ipUsesPKCE (hIdp h)) r w)))"
    using assms(1,3,5) by (simp add: login_sealed_def split_beta sealLoginState_def)
  then have "open_sealed (sealing E) (hSealer h) val loginAAD = Some b" by (simp only: open_seal [OF assms(2)])
  then show ?thesis using assms(4) by (simp add: openLoginState_def)
qed

lemma callback_recovers:
  assumes login: "Login E h r w = Done w'" and ls: "ls = fst (new_login E (ipUsesPKCE (hIdp h)) r w)"
    and codec: "leMarshal E ls = Some b" "leUnmarshal E b = Some ls" "aead_opens (sealing E) (hSealer h)"
    and names: "cookie_tokens r" "wCookies (resp w) = []"
    and browser: "follows r w' r'" "vGet (urlQuery r') ''state'' = lsState ls"
  obtains val where "rCookies r' = gm_set (loginCookieName E (lsState ls)) val (kept_flows r)"
    "callback_cookie E r' = Some (loginCookieName E (lsState ls), val)" "openLoginState E (hSealer h) val = Some ls"
    "ipAuthCodeURL (hIdp h) (lsState ls) (lsNonce ls) (lsVerifier ls) = Some (wGet w' ''Location'')"
proof -
  from Login_cookies [OF login codec(1) ls names] obtain val where val: "fst (login_sealed E h r w) = Some val"
    and url: "ipAuthCodeURL (hIdp h) (lsState ls) (lsNonce ls) (lsVerifier ls) = Some (wGet w' ''Location'')"
    and jar: "apply_cookies (wCookies (resp w')) (rCookies r) = gm_set (loginCookieName E (lsState ls)) val (kept_flows r)"
    by metis
  then have "rCookies r' = gm_set (loginCookieName E (lsState ls)) val (kept_flows r)" using browser(1) by (simp add: follows_def)
  moreover from this have "callback_cookie E r' = Some (loginCookieName E (lsState ls), val)"
    using browser(2) by (simp add: callback_cookie_def reqCookie_def gm_get_set)
  ultimately show ?thesis using that url open_login_sealed [OF val codec(3,1,2) ls] by blast
qed

lemma loginCookieName_no_dot: "CHR ''.'' \<notin> set (loginCookieName E state)"
proof -
  have "d < 16 \<Longrightarrow> hex_digit d \<noteq> CHR ''.''" for d
    by (cases "d < 10") (auto simp: hex_digit_def dest!: arg_cong [of _ _ "of_char :: char \<Rightarrow> nat"])
  moreover have "byte c div 16 < 16" "byte c mod 16 < 16" for c using byte_less [of c] by (auto simp: div_less_iff_less_mult)
  ultimately have "CHR ''.'' \<noteq> hex_digit (byte c div 16)" "CHR ''.'' \<noteq> hex_digit (byte c mod 16)" for c by metis+
  then show ?thesis by (simp add: loginCookieName_def loginCookie_def hex_encode_def)
qed

lemma login_cookie_not_chunk: "\<not> HasPrefix (loginCookieName E state) (name @ ''.'')"
proof
  assume "HasPrefix (loginCookieName E state) (name @ ''.'')"
  then have "take (length (name @ ''.'')) (loginCookieName E state) = name @ ''.''" by (simp add: HasPrefix_def)
  then have "CHR ''.'' \<in> set (take (length (name @ ''.'')) (loginCookieName E state))" by simp
  then show False using loginCookieName_no_dot [of E state] by (blast dest: in_set_takeD)
qed

text \<open>Expiring the login cookie leaves the session cookies of the response alone.\<close>

lemma read_after_expire:
  assumes "follows r (Redirect u c (expireLoginCookie r (loginCookieName E state) w)) r'" "follows r w r0"
  shows "readChunkedCookie r' name = readChunkedCookie r0 name"
proof (rule read_own_chunks)
  let ?n = "loginCookieName E state"
  have "cookies_of (expireLoginCookie r ?n w) = cookies_of w @ [login_cookie r ?n [] (- 1)]"
    unfolding expireLoginCookie_def by (subst SetCookie_cookies) (simp_all add: login_cookie_def loginCookieName_ok)
  then have "rCookies r' = filter (\<lambda>c. fst c \<noteq> ?n) (rCookies r0)"
    using assms by (simp add: follows_def cookies_of_def apply_cookies_append) (simp add: login_cookie_def delete_filter)
  then show "filter (\<lambda>c. HasPrefix (fst c) (name @ ''.'')) (rCookies r') = filter (\<lambda>c. HasPrefix (fst c) (name @ ''.'')) (rCookies r0)"
    using login_cookie_not_chunk [of E state name] by (auto intro: filter_cong)
qed

lemma cookie_tokens_flows: "cookie_tokens r \<Longrightarrow> rCookies r' = gm_set (loginCookieName E st) val (kept_flows r) \<Longrightarrow> cookie_tokens r'"
proof -
  have "set (gm_set k v xs) \<subseteq> insert (k, v) (set xs)" for k v :: string and xs by (induction xs) auto
  then show "cookie_tokens r \<Longrightarrow> rCookies r' = gm_set (loginCookieName E st) val (kept_flows r) \<Longrightarrow> cookie_tokens r'"
    using loginCookieName_ok(1) [of E st] unfolding cookie_tokens_def list_all_iff
    by (fastforce simp: kept_flows_def split: if_splits)
qed

text \<open>C6. A sign-in that the provider accepts ends with a session on the requested page. The login endpoint sends the browser to the
  provider with a fresh state; when the browser returns with that state and a code, whatever else it carries, and the provider
  accepts the code for the nonce and the PKCE verifier of that same sign-in, the callback answers with a redirect to the checked
  return target of the original request, and every later request of that browser, with the same fingerprint headers and before
  the expiry, is read as exactly the session made from the identity, the user info and the tokens the provider returned.\<close>

theorem login_callback_round_trip:
  fixes h :: "'st handlers"
  assumes login: "Login E h r w = Done w'" and ls: "ls = fst (new_login E (ipUsesPKCE (hIdp h)) r w)"
    and codec: "leMarshal E ls = Some b" "leUnmarshal E b = Some ls" "aead_opens (sealing E) (hSealer h)"
    and names: "cookie_tokens r" "wCookies (resp w) = []"
    and browser: "follows r w' r'" "vGet (urlQuery r') ''state'' = lsState ls"
    and answer: "vGet (urlQuery r') ''error'' = []" "vGet (urlQuery r') ''code'' = code" "code \<noteq> []"
    and provider: "ipExchange (hIdp h) code (lsVerifier ls) (lsNonce ls) (ext w2) = (Inr (tok, idn), x)"
      "callback_userinfo h tok (w2\<lparr>ext := x\<rparr>) = (Inr ui, w3)"
    and response: "wCookies (resp w2) = []" "wStatus (resp w2) = None"
    and manager: "hSess h = cookieManager (sealing E) cfg" "list_all tokenByte (scCookieName cfg)" "aead_opens (sealing E) (scKey cfg)"
    and json: "s = fst (makeSession (sealing E) cfg idn ui tok r' w3)" "eMarshal (sealing E) s = Some payload" "eUnmarshal (sealing E) payload = Some s"
    and size: "length (fst (seal (sealing E) (scKey cfg) payload sessionAAD (tick w3))) < 2 ^ 63"
  shows "ipAuthCodeURL (hIdp h) (lsState ls) (lsNonce ls) (lsVerifier ls) = Some (wGet w' ''Location'')
    \<and> (\<exists>w5. Callback E h r' w2 = Done w5 \<and> wStatus (resp w5) = Some 302
         \<and> wGet w5 ''Location'' = safeReturnTo (vGet (urlQuery r) ''return_to'')
         \<and> (\<forall>r'' (w6 :: 'st world). follows r' w5 r'' \<and> (\<forall>k \<in> set (scFingerprintHeaders cfg). reqGet r'' k = reqGet r' k) \<and> now w6 \<le> now w3 + scTTL cfg \<longrightarrow>
              cookie_Read (sealing E) cfg r'' w6 = (Inr s, tick w6)))"
proof -
  let ?n = "loginCookieName E (lsState ls)"
  from callback_recovers [OF login ls codec names browser] obtain val
    where c: "callback_cookie E r' = Some (?n, val)" "openLoginState E (hSealer h) val = Some ls" "rCookies r' = gm_set ?n val (kept_flows r)"
      and url: "ipAuthCodeURL (hIdp h) (lsState ls) (lsNonce ls) (lsVerifier ls) = Some (wGet w' ''Location'')" .
  obtain w4 where w4: "cookie_Issue (sealing E) cfg r' idn ui tok w3 = (None, w4)"
    using json(1,2) by (simp add: cookie_Issue_def Let_def split_beta)
  have r3: "resp w3 = resp w2"
    using provider(2) by (auto simp: callback_userinfo_def liftExt_pair split: if_splits)
  have st: "wStatus (resp w4) = None"
    using cookieM.issue_status [of "sealing E" cfg r' idn ui tok w3] w4 r3 response(2) by (simp add: cookieManager_def)
  define w5 where "w5 = Redirect (lsReturnTo ls) 302 (expireLoginCookie r' ?n w4)"
  have "Callback E h r' w2 = Done w5"
    using answer browser(2) provider w4 unfolding w5_def
    by (simp add: Callback_def c complete_callback_def liftExt_pair manager(1) cookieManager_def)
  moreover have "wStatus (resp w5) = Some 302" "wGet w5 ''Location'' = safeReturnTo (vGet (urlQuery r) ''return_to'')"
    using st new_login_return [of E "ipUsesPKCE (hIdp h)" r w]
    by (simp_all add: w5_def expireLoginCookie_def Redirect_status wGet_Redirect ls)
  moreover have "cookie_Read (sealing E) cfg r'' w6 = (Inr s, tick w6)"
    if "follows r' w5 r''" "\<forall>k \<in> set (scFingerprintHeaders cfg). reqGet r'' k = reqGet r' k" "now w6 \<le> now w3 + scTTL cfg" for r'' and w6 :: "'st world"
  proof -
    let ?r0 = "r''\<lparr>rCookies := apply_cookies (wCookies (resp w4)) (rCookies r')\<rparr>"
    have f: "follows r' w4 ?r0" by (simp add: follows_def)
    show ?thesis unfolding json(1)
      by (rule cookie_session_read [OF w4 manager(3) _ _ size manager(2) cookie_tokens_flows [OF names(1) c(3)] _ f
            read_after_expire [OF that(1) [unfolded w5_def] f] that(2,3)])
         (use json r3 response(1) in simp_all)
  qed
  ultimately show ?thesis using url by blast
qed

section \<open>Only an own sign-in opens a session\<close>

lemma callback_cookie_in:
  assumes "callback_cookie E r = Some (name, val)"
  shows "(name, val) \<in> set (rCookies r) \<and> is_login_cookie name \<and> list_all tokenByte name \<and> name \<noteq> []"
proof -
  have "list_all tokenByte loginCookie" by code_simp
  then show ?thesis using assms loginCookieName_ok [of E "vGet (urlQuery r) ''state''"]
    by (auto simp: callback_cookie_def reqCookie_def Let_def is_login_cookie_def loginCookie_def
        dest: map_of_SomeD split: option.splits)
qed

lemma Callback_cases:
  obtains (reject) msg where "Callback E h r w = rejectCallback h r msg w"
  | (refused) "Callback E h r w = Done (httpError ''identity provider returned an error'' 400 w)"
  | (complete) name val ls where "callback_cookie E r = Some (name, val)" "openLoginState E (hSealer h) val = Some ls"
      "vGet (urlQuery r) ''state'' = lsState ls" "vGet (urlQuery r) ''code'' \<noteq> []"
      "Callback E h r w = complete_callback h r name ls (vGet (urlQuery r) ''code'') w"
proof (cases "callback_cookie E r")
  case None
  then show ?thesis by (intro reject) (simp add: Callback_def)
next
  case (Some c)
  obtain name val where c: "c = (name, val)" by (cases c)
  show ?thesis
  proof (cases "openLoginState E (hSealer h) val")
    case None
    with Some c show ?thesis by (intro reject) (simp add: Callback_def)
  next
    case (Some ls)
    with \<open>callback_cookie E r = Some c\<close> c show ?thesis
      by (cases "vGet (urlQuery r) ''error'' = []"; cases "vGet (urlQuery r) ''code'' = [] \<or> vGet (urlQuery r) ''state'' \<noteq> lsState ls")
         (auto simp: Callback_def intro: reject refused complete)
  qed
qed

text \<open>C5. No login, no session (login CSRF): whatever a callback request carries, either the session manager's
  \<open>Issue\<close> plays no part in the answer, or the browser presented a login cookie sealed by this gateway whose
  state is the one in the query, and the provider accepted the code for the nonce and PKCE verifier
  sealed in that same cookie.\<close>

theorem callback_needs_own_login:
  "(\<forall>issue. Callback E (h\<lparr>hSess := (hSess h)\<lparr>mIssue := issue\<rparr>\<rparr>) r w = Callback E h r w) \<or>
   (\<exists>name val ls tok idn s. (name, val) \<in> set (rCookies r) \<and> is_login_cookie name
      \<and> openLoginState E (hSealer h) val = Some ls \<and> vGet (urlQuery r) ''state'' = lsState ls
      \<and> ipExchange (hIdp h) (vGet (urlQuery r) ''code'') (lsVerifier ls) (lsNonce ls) (ext w) = (Inr (tok, idn), s))"
proof (cases "\<exists>name val ls. callback_cookie E r = Some (name, val) \<and> openLoginState E (hSealer h) val = Some ls
    \<and> vGet (urlQuery r) ''state'' = lsState ls")
  case False
  then have "Callback E (h\<lparr>hSess := (hSess h)\<lparr>mIssue := issue\<rparr>\<rparr>) r w = Callback E h r w" for issue
    by (auto simp: Callback_def Let_def rejectCallback_def split: option.splits)
  then show ?thesis by blast
next
  case True
  then obtain name val ls where c: "callback_cookie E r = Some (name, val)" "openLoginState E (hSealer h) val = Some ls"
    "vGet (urlQuery r) ''state'' = lsState ls" by blast
  let ?x = "ipExchange (hIdp h) (vGet (urlQuery r) ''code'') (lsVerifier ls) (lsNonce ls) (ext w)"
  show ?thesis
  proof (cases "fst ?x")
    case (Inl e)
    then have "Callback E (h\<lparr>hSess := (hSess h)\<lparr>mIssue := issue\<rparr>\<rparr>) r w = Callback E h r w" for issue
      using c by (simp add: Callback_def Let_def rejectCallback_def complete_callback_def liftExt_pair)
    then show ?thesis by blast
  next
    case (Inr p)
    then have "?x = (Inr (fst p, snd p), snd ?x)" by (simp add: prod_eq_iff)
    with c callback_cookie_in [OF c(1)] show ?thesis by blast
  qed
qed

section \<open>Bounded and single-use\<close>

text \<open>C20. Every sign-in leaves at most \<open>maxLoginFlows\<close> login cookies in the browser, however many it held.\<close>

theorem login_flow_bound:
  assumes "Login E h r w = Done w'" "leMarshal E (fst (new_login E (ipUsesPKCE (hIdp h)) r w)) = Some b"
    and "cookie_tokens r" "wCookies (resp w) = []" "follows r w' r'"
  shows "length (loginCookies r') \<le> maxLoginFlows"
proof -
  have step: "length (filter P (gm_set k v xs)) \<le> Suc (length (filter P xs))" for P and k v :: string and xs
    by (induction xs) auto
  from Login_cookies [OF assms(1,2) refl assms(3,4)] obtain k v where "rCookies r' = gm_set k v (kept_flows r)"
    using assms(5) unfolding follows_def by metis
  then have "length (loginCookies r') \<le> Suc (length (filter (\<lambda>c. is_login_cookie (fst c)) (kept_flows r)))"
    using step by (simp add: loginCookies_def)
  also have "\<dots> \<le> maxLoginFlows"
    by (auto simp: kept_flows_def maxLoginFlows_def loginCookies_def)
  finally show ?thesis .
qed

lemma reject_status:
  assumes "session_manager (hSess h) nm" "fst (mRead (hSess h) r w) = Inl e" "wStatus (resp w) = None"
    and "rejectCallback h r msg w = Done w'"
  shows "wStatus (resp w') = Some 400"
  using assms(2-4) session_manager.read_resp [OF assms(1), of r w]
  by (cases "mRead (hSess h) r w") (auto simp: rejectCallback_def httpError_status)

lemma complete_callback_redirect:
  assumes sm: "session_manager (hSess h) nm" and "wStatus (resp w) = None"
    and "complete_callback h r name ls code w = Done w'" "wStatus (resp w') = Some 302"
  shows "\<exists>w3. w' = Redirect (lsReturnTo ls) 302 (expireLoginCookie r name w3)"
proof -
  have ui: "resp (snd (callback_userinfo h tok v)) = resp v" for tok v by (simp add: callback_userinfo_def)
  obtain res w1 where x: "liftExt (ipExchange (hIdp h) code (lsVerifier ls) (lsNonce ls)) w = (res, w1)" by (cases "liftExt (ipExchange (hIdp h) code (lsVerifier ls) (lsNonce ls)) w")
  then have s1: "wStatus (resp w1) = None" using assms(2) by (metis liftExt_frame(1) snd_conv)
  from assms(3,4) obtain tok idn where res: "res = Inr (tok, idn)"
    by (cases res) (auto simp: complete_callback_def x httpError_status [OF s1])
  obtain u w2 where u: "callback_userinfo h tok w1 = (u, w2)" by (cases "callback_userinfo h tok w1")
  then have s2: "wStatus (resp w2) = None" using s1 ui [of tok w1] by simp
  from assms(3,4) obtain cl where cl: "u = Inr cl"
    by (cases u) (auto simp: complete_callback_def x res u httpError_status [OF s2])
  obtain k w3 where k: "mIssue (hSess h) r idn cl tok w2 = (k, w3)" by (cases "mIssue (hSess h) r idn cl tok w2")
  then have s3: "wStatus (resp w3) = None" using s2 session_manager.issue_status [OF sm, of r idn cl tok w2] by simp
  from assms(3,4) show ?thesis
    by (cases k) (auto simp: complete_callback_def x res u cl k httpError_status [OF s3])
qed

text \<open>C21. A sign-in completes once: after a callback that signed the browser in, replaying the same callback from
  that browser is rejected without asking the provider.\<close>

theorem callback_single_use:
  fixes h :: "'st handlers"
  assumes sm: "session_manager (hSess h) nm" and fresh: "wStatus (resp w) = None" "fst (mRead (hSess h) r w) = Inl e"
    and ok: "Callback E h r w = Done w'" "wStatus (resp w') = Some 302"
    and replay: "follows r w' r'" "urlQuery r' = urlQuery r"
    and legacy: "reqCookie r loginCookie = None" "reqCookie r' loginCookie = None"
  shows "Callback E h r' w2 = rejectCallback h r' ''login session expired; please restart sign-in'' w2"
  using Callback_cases [of E h r w]
proof cases
  case (reject msg)
  then show ?thesis using reject_status [OF sm fresh(2,1)] ok by fastforce
next
  case refused
  then show ?thesis using httpError_status [OF fresh(1)] ok by auto
next
  case (complete name val ls)
  from complete(5) ok complete_callback_redirect [OF sm fresh(1)]
  obtain w3 where w': "w' = Redirect (lsReturnTo ls) 302 (expireLoginCookie r name w3)" by metis
  have "cookies_of (expireLoginCookie r name w3) = cookies_of w3 @ [login_cookie r name [] (- 1)]"
    using callback_cookie_in [OF complete(1)] unfolding expireLoginCookie_def
    by (subst SetCookie_cookies) (simp_all add: login_cookie_def)
  then have "reqCookie r' name = None" using replay(1)
    by (simp add: w' follows_def reqCookie_def cookies_of_def apply_cookies_append)
       (simp add: login_cookie_def gm_get_del)
  moreover have "name = loginCookieName E (vGet (urlQuery r) ''state'')"
    using complete(1) legacy(1) by (auto simp: callback_cookie_def Let_def split: option.splits)
  ultimately have "callback_cookie E r' = None" using legacy(2) by (simp add: callback_cookie_def replay(2) Let_def)
  then show ?thesis by (simp add: Callback_def)
qed

text \<open>C22. Logging out ends the session: the browser is sent to the configured page and its next request carries
  no session.\<close>

theorem logout_ends_session:
  fixes h :: "'st handlers"
  assumes sm: "session_manager (hSess h) name" and names: "name \<noteq> []" "list_all tokenByte name" "cookie_tokens r"
    and w: "wCookies (resp w) = []" "wStatus (resp w) = None"
  shows "\<exists>w'. Logout h r w = Done w' \<and> wStatus (resp w') = Some 302
    \<and> wGet w' ''Location'' = scPostLogoutRedirect (hScfg h)
    \<and> (\<forall>r' w2. follows r w' r' \<longrightarrow> fst (mRead (hSess h) r' w2) = Inl ErrNoSession)"
proof -
  let ?w = "mClear (hSess h) r w"
  have "wStatus (resp ?w) = None" using session_manager.clear_status [OF sm, of r w] w by simp
  moreover have "fst (mRead (hSess h) r' w2) = Inl ErrNoSession"
    if "follows r (Redirect u 302 ?w) r'" for u r' and w2 :: "'st world"
    using session_manager.clear_none [OF sm names w(1)] that by (simp add: follows_def)
  ultimately show ?thesis by (simp add: Logout_def Redirect_status wGet_Redirect)
qed

section \<open>A sample sign-in\<close>

definition demo_rand_token :: string where
  "demo_rand_token = RawURLEncode (replicate 32 CHR ''r'')"

definition demo_login_state :: loginState where
  "demo_login_state = \<lparr>lsState = demo_rand_token, lsNonce = demo_rand_token, lsVerifier = replicate 32 CHR ''r'',
     lsReturnTo = ''/''\<rparr>"

definition demo_login_env :: login_env where
  "demo_login_env = session_env.extend demo_E
     (login_env.fields (\<lambda>ls. Some ''l'') (\<lambda>t. Some demo_login_state) (\<lambda>b. b))"

definition demo_handlers :: "unit handlers" where
  "demo_handlers = \<lparr>hIdp = \<lparr>ipAuthCodeURL = (\<lambda>st n v. Some ''https://idp/authorize''),
       ipExchange = (\<lambda>c v n s. (Inr (demo_tokens, demo_idt), s)), ipRefresh = (\<lambda>t s. (Inl [], s)),
       ipVerify = (\<lambda>t s. (Inl [], s)), ipVerifyAccessToken = (\<lambda>t s. (Inl [], s)), ipLogoutURL = (\<lambda>a b. None),
       ipUserInfo = (\<lambda>t s. (Inr [], s)), ipUsesPKCE = True, ipVerificationOnly = Some False\<rparr>,
     hSess = cookieManager demo_E demo_session_config, hSealer = replicate 32 CHR ''k'',
     hCfg = \<lparr>auLoginPath = ''/auth/login'', auLogoutPath = ''/auth/logout''\<rparr>, hScfg = demo_session_config,
     hIdCfg = demo_id_config\<rparr>"

lemma demo_sealing: "sealing demo_login_env = demo_E"
  by (simp add: demo_login_env_def session_env.defs login_env.defs)

lemma demo_new_login: "fst (new_login demo_login_env True demo_request (demo_world ())) = demo_login_state"
  by code_simp

definition demo_login_world :: "unit world" where
  "demo_login_world = world_of (Login demo_login_env demo_handlers demo_request (demo_world ()))"

lemma demo_codec: "leMarshal demo_login_env ls = Some ''l''" "leUnmarshal demo_login_env t = Some demo_login_state"
  by (simp_all add: demo_login_env_def session_env.defs login_env.defs)

lemma demo_Login: "Login demo_login_env demo_handlers demo_request (demo_world ()) = Done demo_login_world"
proof -
  have "ipAuthCodeURL (hIdp demo_handlers) a b c = Some ''https://idp/authorize''" for a b c
    by (simp add: demo_handlers_def)
  then have "\<exists>w'. Login demo_login_env demo_handlers demo_request (demo_world ()) = Done w'"
    by (rule Login_Done [OF demo_codec(1)])
  then show ?thesis unfolding demo_login_world_def by auto
qed

definition demo_return :: request where
  "demo_return = demo_request\<lparr>rRawQuery := ''code=c1&state='' @ demo_rand_token,
     rCookies := apply_cookies (wCookies (resp demo_login_world)) []\<rparr>"

lemma demo_return_query: "urlQuery demo_return = [(''code'', [''c1'']), (''state'', [demo_rand_token])]"
proof -
  have "ParseQuery (''code=c1&state='' @ demo_rand_token) = [(''code'', [''c1'']), (''state'', [demo_rand_token])]"
    by code_simp
  moreover have "rRawQuery demo_return = ''code=c1&state='' @ demo_rand_token" by (simp add: demo_return_def)
  ultimately show ?thesis by (simp only: urlQuery_def)
qed

lemma demo_small: "cookie_tokens demo_request" "wCookies (resp (demo_world ())) = []" "wStatus (resp (demo_world ())) = None"
  "follows demo_request demo_login_world demo_return" "ipUsesPKCE (hIdp demo_handlers)"
  "aead_opens (sealing demo_login_env) k"
  by (simp_all add: demo_sealing demo_env_opens cookie_tokens_def demo_request_def demo_world_def empty_response_def
      follows_def demo_return_def demo_handlers_def)

lemma demo_return_params: "vGet (urlQuery demo_return) ''state'' = lsState demo_login_state"
  "vGet (urlQuery demo_return) ''error'' = []" "vGet (urlQuery demo_return) ''code'' = ''c1''"
  by (simp_all add: demo_return_query vGet_def demo_login_state_def)

lemma demo_return_session:
  "fst (makeSession demo_E demo_session_config demo_idt [] demo_tokens demo_return (demo_world ())) = demo_session"
proof -
  have "reqGet demo_return k = reqGet demo_request k" for k by (simp add: demo_return_def reqGet_def)
  then have "makeSession E cfg idt ui tok demo_return w = makeSession E cfg idt ui tok demo_request w"
    for E cfg idt ui tok and w :: "unit world"
    by (simp add: makeSession_def computeFingerprint_def fingerprint_text_def)
  then show ?thesis by (simp add: demo_makeSession)
qed

theorem login_callback_round_trip_witness:
  "\<exists>w5. Callback demo_login_env demo_handlers demo_return (demo_world ()) = Done w5 \<and> wStatus (resp w5) = Some 302
     \<and> cookie_Read demo_E demo_session_config (demo_return\<lparr>rCookies := apply_cookies (wCookies (resp w5)) (rCookies demo_return)\<rparr>) (demo_world ())
       = (Inr demo_session, tick (demo_world ()))"
proof -
  have len: "length (fst (seal demo_E (scKey demo_session_config) ''j'' sessionAAD (tick (demo_world ())))) = 56"
    by code_simp
  have x: "ipExchange (hIdp demo_handlers) c v n s = (Inr (demo_tokens, demo_idt), s)" "hSess demo_handlers = cookieManager demo_E demo_session_config"
      "callback_userinfo demo_handlers t w = (Inr [], w)" for c v n s t and w :: "unit world"
    by (simp_all add: demo_handlers_def callback_userinfo_def liftExt_pair)
  have j: "eMarshal demo_E s = Some ''j''" "eUnmarshal demo_E t = Some demo_session" for s t by (simp_all add: demo_env_def)
  have n: "list_all tokenByte (scCookieName demo_session_config)" by code_simp
  have t: "now (demo_world ()) \<le> now (demo_world ()) + scTTL demo_session_config" by (simp add: demo_session_config_def seconds_def)
  have w: "(demo_world ())\<lparr>ext := ()\<rparr> = demo_world ()" by simp
  have "\<exists>w5. Callback demo_login_env demo_handlers demo_return (demo_world ()) = Done w5 \<and> wStatus (resp w5) = Some 302
       \<and> wGet w5 ''Location'' = safeReturnTo (vGet (urlQuery demo_request) ''return_to'')
       \<and> (\<forall>r'' w6. follows demo_return w5 r'' \<and> (\<forall>k \<in> set (scFingerprintHeaders demo_session_config). reqGet r'' k = reqGet demo_return k)
              \<and> now w6 \<le> now (demo_world ()) + scTTL demo_session_config \<longrightarrow>
            cookie_Read (sealing demo_login_env) demo_session_config r'' (w6 :: unit world) = (Inr demo_session, tick w6))"
    by (rule conjunct2 [OF login_callback_round_trip [OF demo_Login _ demo_codec(1) _ demo_small(6) demo_small(1,2,4) demo_return_params,
            where tok = demo_tokens and idn = demo_idt and ui = "[]" and x = "()" and payload = "''j''"]])
       (simp_all add: demo_small demo_new_login demo_codec x j n w len demo_return_session demo_env_opens demo_sealing)
  then obtain w5 where "Callback demo_login_env demo_handlers demo_return (demo_world ()) = Done w5" "wStatus (resp w5) = Some 302"
    and "\<forall>r'' w6. follows demo_return w5 r'' \<and> (\<forall>k \<in> set (scFingerprintHeaders demo_session_config). reqGet r'' k = reqGet demo_return k)
              \<and> now w6 \<le> now (demo_world ()) + scTTL demo_session_config \<longrightarrow>
            cookie_Read demo_E demo_session_config r'' (w6 :: unit world) = (Inr demo_session, tick w6)"
    unfolding demo_sealing by blast
  with t show ?thesis by (intro exI [of _ w5]) (simp add: follows_def reqGet_def)
qed

theorem login_flow_bound_witness: "length (loginCookies demo_return) \<le> maxLoginFlows"
  by (rule login_flow_bound [OF demo_Login demo_codec(1) demo_small(1,2,4)])

theorem logout_ends_session_witness:
  "\<exists>w'. Logout demo_handlers demo_request (demo_world ()) = Done w' \<and> wGet w' ''Location'' = ''/''"
proof -
  have sm: "session_manager (hSess demo_handlers) ''hog''"
    using cookieM.session_manager_axioms [of demo_E demo_session_config]
    by (simp add: demo_handlers_def demo_session_config_def)
  show ?thesis using logout_ends_session [OF sm _ _ demo_small(1-3)]
    by (auto simp: demo_handlers_def demo_session_config_def tokenByte_def byte_def)
qed

text \<open>A manager that keeps nothing meets the contract too.\<close>

definition null_manager :: "'st manager" where
  "null_manager = \<lparr>mIssue = (\<lambda>r i u t w. (None, w)), mRead = (\<lambda>r w. (Inl ErrNoSession, w)), mClear = (\<lambda>r w. w)\<rparr>"

interpretation nullM: session_manager null_manager name for name
  by unfold_locales (simp_all add: null_manager_def)

definition null_handlers :: "unit handlers" where
  "null_handlers = demo_handlers\<lparr>hSess := null_manager\<rparr>"

lemma null_Login: "Login demo_login_env null_handlers demo_request (demo_world ()) = Done demo_login_world"
proof -
  have "Login E (h\<lparr>hSess := m\<rparr>) r w = Login E h r w" for E r m and h :: "unit handlers" and w :: "unit world"
    by (simp add: Login_def Let_def split: prod.split option.split)
  then show ?thesis using demo_Login by (simp add: null_handlers_def)
qed

lemma demo_jar:
  obtains val where "rCookies demo_return = [(loginCookieName demo_login_env (lsState demo_login_state), val)]"
    "callback_cookie demo_login_env demo_return = Some (loginCookieName demo_login_env (lsState demo_login_state), val)"
    "openLoginState demo_login_env (hSealer null_handlers) val = Some demo_login_state"
proof -
  have ls: "demo_login_state = fst (new_login demo_login_env (ipUsesPKCE (hIdp null_handlers)) demo_request (demo_world ()))"
    using demo_small(5) by (simp add: null_handlers_def demo_new_login)
  have "kept_flows demo_request = []" by (simp add: kept_flows_def demo_request_def)
  with callback_recovers [OF null_Login ls demo_codec demo_small(6,1,2,4) demo_return_params(1)] that show ?thesis by auto
qed

lemma demo_no_legacy: "reqCookie demo_return loginCookie = None"
  by (rule demo_jar) (simp add: reqCookie_def loginCookieName_def loginCookie_def)

lemma null_callback:
  "\<exists>w'. Callback demo_login_env null_handlers demo_return (demo_world ()) = Done w' \<and> wStatus (resp w') = Some 302
     \<and> reqCookie (demo_return\<lparr>rCookies := apply_cookies (wCookies (resp w')) (rCookies demo_return)\<rparr>) loginCookie = None"
proof -
  let ?n = "loginCookieName demo_login_env (lsState demo_login_state)"
  obtain val where jar: "rCookies demo_return = [(?n, val)]"
    and c: "callback_cookie demo_login_env demo_return = Some (?n, val)"
    and op: "openLoginState demo_login_env (hSealer null_handlers) val = Some demo_login_state" by (rule demo_jar)
  have ex: "ipExchange (hIdp null_handlers) co v n s = (Inr (demo_tokens, demo_idt), s)" for co v n s
    by (simp add: null_handlers_def demo_handlers_def)
  have ui: "callback_userinfo null_handlers t w = (Inr [], w)" for t and w :: "unit world"
    by (simp add: callback_userinfo_def null_handlers_def demo_handlers_def liftExt_pair)
  let ?w = "expireLoginCookie demo_return ?n (demo_world ())"
  have "Callback demo_login_env null_handlers demo_return (demo_world ()) = Done (Redirect (lsReturnTo demo_login_state) 302 ?w)"
    using demo_return_params
    by (simp add: Callback_def c op complete_callback_def liftExt_pair ex ui)
       (simp add: null_handlers_def null_manager_def demo_world_def)
  moreover have "wStatus (resp ?w) = None" by (simp add: expireLoginCookie_def demo_small)
  moreover have "cookies_of ?w = [login_cookie demo_return ?n [] (- 1)]"
    unfolding expireLoginCookie_def using demo_small(2) loginCookieName_ok
    by (subst SetCookie_cookies) (simp_all add: login_cookie_def cookies_of_def)
  ultimately show ?thesis by (simp add: Redirect_status jar reqCookie_def cookies_of_def) (simp add: login_cookie_def)
qed

theorem callback_single_use_witness:
  "\<exists>r'. Callback demo_login_env null_handlers r' (demo_world ())
     = rejectCallback null_handlers r' ''login session expired; please restart sign-in'' (demo_world ())"
proof -
  from null_callback obtain w' where w': "Callback demo_login_env null_handlers demo_return (demo_world ()) = Done w'"
    "wStatus (resp w') = Some 302"
    and l: "reqCookie (demo_return\<lparr>rCookies := apply_cookies (wCookies (resp w')) (rCookies demo_return)\<rparr>) loginCookie = None"
    by blast
  let ?r = "demo_return\<lparr>rCookies := apply_cookies (wCookies (resp w')) (rCookies demo_return)\<rparr>"
  have sm: "session_manager (hSess null_handlers) []" using nullM.session_manager_axioms by (simp add: null_handlers_def)
  have none: "fst (mRead (hSess null_handlers) demo_return (demo_world ())) = Inl ErrNoSession"
    by (simp add: null_handlers_def null_manager_def)
  have f: "follows demo_return w' ?r" "urlQuery ?r = urlQuery demo_return" by (simp_all add: follows_def urlQuery_def)
  have "reqCookie demo_return loginCookie = None" by (rule demo_no_legacy)
  from callback_single_use [OF sm demo_small(3) none w' f this l] show ?thesis by blast
qed

end
