(* ===== verification/Assertion.thy ===== *)
theory Assertion
  imports Auth_Gates
begin

text \<open>
  The identity hand-off between gateways (\<^verbatim>\<open>src/auth/assertion.go\<close>, \<^verbatim>\<open>assertion_gate.go\<close>): minting
  and verifying compact signed tokens, the gate that accepts them and the one that issues them.
  Ed25519 and the JSON codec are arguments, bundled in \<open>jws_env\<close>; \<open>jVerify\<close> is only
  called with a key of 32 bytes, on which it does not panic. Times of a token are Unix seconds, the
  clock is in nanoseconds.
\<close>

record identity_assertion =
  iaIssuer :: string
  iaSubject :: string
  iaIssuedAt :: int
  iaExpiresAt :: int
  iaPassport :: claims
  iaGroups :: "string list"

record assertion_header =
  ahAlg :: string
  ahTyp :: string
  ahKid :: string

record jws_env =
  jPublic :: "string \<Rightarrow> string"
  jSign :: "string \<Rightarrow> string \<Rightarrow> string"
  jVerify :: "string \<Rightarrow> string \<Rightarrow> string \<Rightarrow> bool"
  jEncHeader :: "assertion_header \<Rightarrow> string option"
  jDecHeader :: "string \<Rightarrow> assertion_header option"
  jEncClaims :: "identity_assertion \<Rightarrow> string option"
  jDecClaims :: "string \<Rightarrow> identity_assertion option"

definition DefaultAssertionHeader :: string where
  "DefaultAssertionHeader = ''X-Hog-Identity''"

definition assertionSkew :: int where
  "assertionSkew = seconds 30"

datatype assertion_error =
    NotCompact | HeaderError | UnsupportedAlg string | UnknownKid string | SignatureEncoding
  | SignatureMismatch | PayloadError | UnexpectedIssuer string | EmptySubject
  | ErrAssertionExpired | IssuedInFuture

section \<open>Issuing\<close>

record issuer =
  isName :: string
  isKid :: string
  isSeed :: string
  isTTL :: int

definition NewAssertionIssuer :: "string \<Rightarrow> string \<Rightarrow> string \<Rightarrow> int \<Rightarrow> (string, issuer) result" where
  "NewAssertionIssuer name kid seed ttl =
     guardR (name = []) ''issuer name is required'' (
     guardR (kid = []) ''kid is required'' (
     guardR (length seed \<noteq> 32) ''seed must be 32 bytes'' (
     Inr \<lparr>isName = name, isKid = kid, isSeed = seed, isTTL = (if ttl \<le> 0 then seconds 60 else ttl)\<rparr>)))"

definition PublicKey :: "jws_env \<Rightarrow> issuer \<Rightarrow> string" where
  "PublicKey J i = jPublic J (isSeed i)"

definition unix :: "int \<Rightarrow> int" where
  "unix t = t div 1000000000"

definition minted_claims :: "issuer \<Rightarrow> principal \<Rightarrow> int \<Rightarrow> identity_assertion" where
  "minted_claims i p t =
     \<lparr>iaIssuer = isName i, iaSubject = Subject p, iaIssuedAt = unix t, iaExpiresAt = unix (t + isTTL i),
      iaPassport = Passport p, iaGroups = Groups p\<rparr>"

definition Mint :: "jws_env \<Rightarrow> issuer \<Rightarrow> principal \<Rightarrow> int \<Rightarrow> (string, string) result" where
  "Mint J i p t =
     (case jEncHeader J \<lparr>ahAlg = ''EdDSA'', ahTyp = ''JWT'', ahKid = isKid i\<rparr> of
        None \<Rightarrow> Inl ''encode header''
      | Some headJSON \<Rightarrow>
          (case jEncClaims J (minted_claims i p t) of
             None \<Rightarrow> Inl ''encode payload''
           | Some payloadJSON \<Rightarrow>
               let signingInput = RawURLEncode headJSON @ ''.'' @ RawURLEncode payloadJSON;
                   sig = jSign J (isSeed i) signingInput
               in Inr (signingInput @ ''.'' @ RawURLEncode sig)))"

section \<open>Verifying\<close>

record verifier =
  vfIssuer :: string
  vfKeys :: "(string, string) gomap"

definition NewAssertionVerifier :: "string \<Rightarrow> (string, string) gomap \<Rightarrow> verifier" where
  "NewAssertionVerifier iss keys = \<lparr>vfIssuer = iss, vfKeys = filter (\<lambda>(kid, key). length key = 32) keys\<rparr>"

definition check_claims :: "verifier \<Rightarrow> identity_assertion \<Rightarrow> int \<Rightarrow> (assertion_error, identity_assertion) result" where
  "check_claims v c t =
     guardR (iaIssuer c \<noteq> vfIssuer v) (UnexpectedIssuer (iaIssuer c)) (
     guardR (iaSubject c = []) EmptySubject (
     guardR (t > seconds (iaExpiresAt c) + assertionSkew) ErrAssertionExpired (
     guardR (seconds (iaIssuedAt c) > t + assertionSkew) IssuedInFuture (
     Inr c))))"

definition Verify :: "jws_env \<Rightarrow> verifier \<Rightarrow> string \<Rightarrow> int \<Rightarrow> (assertion_error, identity_assertion) result" where
  "Verify J v token t =
     (case Split (CHR ''.'') token of
        [p0, p1, p2] \<Rightarrow>
          (case RawURLDecode p0 of None \<Rightarrow> Inl HeaderError
           | Some headJSON \<Rightarrow>
          (case jDecHeader J headJSON of None \<Rightarrow> Inl HeaderError
           | Some head \<Rightarrow>
               guardR (ahAlg head \<noteq> ''EdDSA'') (UnsupportedAlg (ahAlg head)) (
               case gm_get (vfKeys v) (ahKid head) of None \<Rightarrow> Inl (UnknownKid (ahKid head))
               | Some key \<Rightarrow>
                   guardR (length key \<noteq> 32) (UnknownKid (ahKid head)) (
                   case RawURLDecode p2 of None \<Rightarrow> Inl SignatureEncoding
                   | Some sig \<Rightarrow>
                       guardR (\<not> jVerify J key (p0 @ ''.'' @ p1) sig) SignatureMismatch (
                       case RawURLDecode p1 of None \<Rightarrow> Inl PayloadError
                       | Some payloadJSON \<Rightarrow>
                           (case jDecClaims J payloadJSON of None \<Rightarrow> Inl PayloadError
                            | Some c \<Rightarrow> check_claims v c t))))))
      | _ \<Rightarrow> Inl NotCompact)"

section \<open>The gates\<close>

definition AssertionHeaderFromContext :: "request \<Rightarrow> string" where
  "AssertionHeaderFromContext r = ctxAssertionHeader (rCtx r)"

definition assertion_principal :: "identity_assertion \<Rightarrow> string \<Rightarrow> string \<Rightarrow> string \<Rightarrow> principal" where
  "assertion_principal a sub token sid =
     \<lparr>Subject = sub, Passport = iaPassport a, Groups = iaGroups a, AccessToken = token, SessionID = sid\<rparr>"

text \<open>What an accepted assertion does to the principal of the request.\<close>

definition enrich :: "bool \<Rightarrow> identity_assertion \<Rightarrow> request \<Rightarrow> request" where
  "enrich requireBearer a r =
     (case FromContext r of
        Some p \<Rightarrow>
          if Subject p = iaSubject a
          then WithPrincipal (assertion_principal a (Subject p) (AccessToken p) (SessionID p)) r
          else r
      | None \<Rightarrow>
          if \<not> requireBearer then WithPrincipal (assertion_principal a (iaSubject a) [] []) r else r)"

text \<open>Neither gate ever answers: each hands on a request. A clock reading is taken when a token is
  verified or minted.\<close>

definition assertion_step :: "jws_env \<Rightarrow> verifier \<Rightarrow> string \<Rightarrow> bool \<Rightarrow> request \<Rightarrow> 'st world \<Rightarrow> 'st step" where
  "assertion_step J v header0 requireBearer r w =
     (let header = (if header0 = [] then DefaultAssertionHeader else header0);
          token = reqGet r header;
          r1 = mapHeader (hDel header) r
      in if token = [] then Pass r1 w
         else case Verify J v token (now w) of
           Inl e \<Rightarrow> Pass r1 (tick w)
         | Inr a \<Rightarrow> Pass (enrich requireBearer a r1) (tick w))"

definition AssertionGate :: "jws_env \<Rightarrow> verifier \<Rightarrow> string \<Rightarrow> bool \<Rightarrow> 'st middleware" where
  "AssertionGate J v header0 requireBearer next r w = run_step (assertion_step J v header0 requireBearer r w) next"

definition issue_step :: "jws_env \<Rightarrow> issuer \<Rightarrow> string \<Rightarrow> request \<Rightarrow> 'st world \<Rightarrow> 'st step" where
  "issue_step J i header0 r w =
     (let header = (if header0 = [] then DefaultAssertionHeader else header0);
          r1 = mapHeader (hDel header) r;
          r2 = r1\<lparr>rCtx := (rCtx r1)\<lparr>ctxAssertionHeader := header\<rparr>\<rparr>
      in case FromContext r2 of
           None \<Rightarrow> Pass r2 w
         | Some p \<Rightarrow>
             (case Mint J i p (now w) of
                Inl e \<Rightarrow> Pass r2 (tick w)
              | Inr token \<Rightarrow> Pass (mapHeader (hSet header token) r2) (tick w)))"

definition IssueAssertion :: "jws_env \<Rightarrow> issuer \<Rightarrow> string \<Rightarrow> 'st middleware" where
  "IssueAssertion J i header0 next r w = run_step (issue_step J i header0 r w) next"

interpretation acceptF: filter_mw "AssertionGate J v h b" "assertion_step J v h b" for J v h b
  by unfold_locales (simp add: AssertionGate_def)

interpretation issueF: filter_mw "IssueAssertion J i h" "issue_step J i h" for J i h
  by unfold_locales (simp add: IssueAssertion_def)

section \<open>Minting and verifying\<close>

text \<open>What Ed25519 and the JSON codec promise for one token.\<close>

definition jws_ok :: "jws_env \<Rightarrow> issuer \<Rightarrow> bool" where
  "jws_ok J i \<longleftrightarrow> length (jPublic J (isSeed i)) = 32 \<and>
     (\<forall>msg. jVerify J (jPublic J (isSeed i)) msg (jSign J (isSeed i) msg)) \<and>
     (\<forall>h s. jEncHeader J h = Some s \<longrightarrow> jDecHeader J s = Some h)"

lemma unix_bounds: "seconds (unix t) \<le> t" "t < seconds (unix t) + seconds 1"
proof -
  have "t = t div 1000000000 * 1000000000 + t mod 1000000000" by simp
  moreover have "0 \<le> t mod 1000000000" "t mod 1000000000 < 1000000000" by simp_all
  ultimately show "seconds (unix t) \<le> t" "t < seconds (unix t) + seconds 1"
    by (simp_all add: seconds_def unix_def)
qed

lemma mint_parts:
  assumes "Mint J i p t = Inr token"
  obtains headJSON payloadJSON where
    "jEncHeader J \<lparr>ahAlg = ''EdDSA'', ahTyp = ''JWT'', ahKid = isKid i\<rparr> = Some headJSON"
    "jEncClaims J (minted_claims i p t) = Some payloadJSON"
    "token = RawURLEncode headJSON @ ''.'' @ RawURLEncode payloadJSON @ ''.'' @
       RawURLEncode (jSign J (isSeed i) (RawURLEncode headJSON @ ''.'' @ RawURLEncode payloadJSON))"
  using assms that by (auto simp: Mint_def Let_def split: option.splits)

lemma split_token:
  "Split (CHR ''.'') (RawURLEncode a @ CHR ''.'' # RawURLEncode b @ CHR ''.'' # RawURLEncode c) =
     [RawURLEncode a, RawURLEncode b, RawURLEncode c]"
  by (simp add: Split_append RawURLEncode_no_dot Split_no_sep)

lemma mint_verify:
  assumes mint: "Mint J i p t1 = Inr token" and laws: "jws_ok J i"
    and json: "\<forall>s. jEncClaims J (minted_claims i p t1) = Some s \<longrightarrow> jDecClaims J s = Some (minted_claims i p t1)"
    and config: "vfIssuer v = isName i" "gm_get (vfKeys v) (isKid i) = Some (PublicKey J i)"
    and subject: "Subject p \<noteq> []"
    and time: "t1 \<le> t2 + seconds 30" "t2 \<le> t1 + isTTL i + seconds 29"
  shows "Verify J v token t2 = Inr (minted_claims i p t1)"
proof -
  from mint_parts [OF mint] obtain h pl where
    h: "jEncHeader J \<lparr>ahAlg = ''EdDSA'', ahTyp = ''JWT'', ahKid = isKid i\<rparr> = Some h"
    and pl: "jEncClaims J (minted_claims i p t1) = Some pl"
    and token: "token = RawURLEncode h @ ''.'' @ RawURLEncode pl @ ''.'' @
       RawURLEncode (jSign J (isSeed i) (RawURLEncode h @ ''.'' @ RawURLEncode pl))" .
  have dec: "jDecHeader J h = Some \<lparr>ahAlg = ''EdDSA'', ahTyp = ''JWT'', ahKid = isKid i\<rparr>"
    and key: "length (PublicKey J i) = 32" "jVerify J (PublicKey J i) msg (jSign J (isSeed i) msg)" for msg
    using laws h by (auto simp: jws_ok_def PublicKey_def)
  have "check_claims v (minted_claims i p t1) t2 = Inr (minted_claims i p t1)"
    using config(1) subject time unix_bounds [of t1] unix_bounds [of "t1 + isTTL i"]
    by (simp add: check_claims_def minted_claims_def assertionSkew_def guardR_def seconds_def)
  with token dec key config(2) json pl show ?thesis
    by (simp add: Verify_def split_token RawURL_round_trip)
qed

text \<open>C23. An assertion minted for a principal verifies at the accepting gateway, within its lifetime and a
  clock drift of up to 29 seconds, to that principal's subject, passport and groups.\<close>

theorem assertion_round_trip:
  assumes "Mint J i p t1 = Inr token" "jws_ok J i"
    and "\<forall>s. jEncClaims J (minted_claims i p t1) = Some s \<longrightarrow> jDecClaims J s = Some (minted_claims i p t1)"
    and "vfIssuer v = isName i" "gm_get (vfKeys v) (isKid i) = Some (PublicKey J i)" "Subject p \<noteq> []"
    and "t1 \<le> t2 + seconds 30" "t2 \<le> t1 + isTTL i + seconds 29"
  shows "\<exists>a. Verify J v token t2 = Inr a \<and> iaSubject a = Subject p \<and> iaPassport a = Passport p \<and> iaGroups a = Groups p"
  using mint_verify [OF assms] by (simp add: minted_claims_def)

text \<open>A toy signature scheme and codec that satisfy the laws.\<close>

definition demo_issuer :: issuer where
  "demo_issuer = \<lparr>isName = ''edge'', isKid = ''k1'', isSeed = replicate 32 CHR ''s'', isTTL = seconds 60\<rparr>"

definition demo_principal :: principal where
  "demo_principal = \<lparr>Subject = ''ann'', Passport = [(''email'', VStr ''a@x'')], Groups = [''ops''], AccessToken = ''at'', SessionID = []\<rparr>"

definition demo_jws :: jws_env where
  "demo_jws = \<lparr>jPublic = (\<lambda>seed. seed), jSign = (\<lambda>seed msg. rev seed @ msg), jVerify = (\<lambda>key msg sig. sig = rev key @ msg),
     jEncHeader = (\<lambda>h. if ahAlg h = ''EdDSA'' \<and> ahTyp h = ''JWT'' then Some (ahKid h) else None),
     jDecHeader = (\<lambda>s. Some \<lparr>ahAlg = ''EdDSA'', ahTyp = ''JWT'', ahKid = s\<rparr>),
     jEncClaims = (\<lambda>c. Some ''c''), jDecClaims = (\<lambda>s. Some (minted_claims demo_issuer demo_principal 0))\<rparr>"

definition demo_verifier_keys :: verifier where
  "demo_verifier_keys = NewAssertionVerifier ''edge'' [(''k1'', replicate 32 CHR ''s'')]"

lemma demo_jws_ok: "jws_ok demo_jws demo_issuer"
  by (auto simp: jws_ok_def demo_jws_def demo_issuer_def split: if_splits)

definition demo_token :: string where
  "demo_token = RawURLEncode ''k1'' @ ''.'' @ RawURLEncode ''c'' @ ''.'' @
     RawURLEncode (replicate 32 CHR ''s'' @ RawURLEncode ''k1'' @ ''.'' @ RawURLEncode ''c'')"

lemma demo_mint: "Mint demo_jws demo_issuer demo_principal 0 = Inr demo_token"
  by (simp add: Mint_def demo_jws_def demo_issuer_def demo_token_def Let_def)

lemma demo_keys:
  "vfIssuer demo_verifier_keys = isName demo_issuer"
  "gm_get (vfKeys demo_verifier_keys) (isKid demo_issuer) = Some (PublicKey demo_jws demo_issuer)"
  by (simp_all add: demo_verifier_keys_def NewAssertionVerifier_def demo_issuer_def PublicKey_def demo_jws_def)

lemma demo_json:
  "\<forall>s. jEncClaims demo_jws (minted_claims demo_issuer demo_principal 0) = Some s \<longrightarrow>
     jDecClaims demo_jws s = Some (minted_claims demo_issuer demo_principal 0)"
  by (simp add: demo_jws_def)

theorem assertion_round_trip_witness:
  "\<exists>a. Verify demo_jws demo_verifier_keys demo_token (seconds 10) = Inr a \<and> iaSubject a = ''ann'' \<and> iaGroups a = [''ops'']"
proof -
  have "Subject demo_principal = ''ann''" "Groups demo_principal = [''ops'']" "isTTL demo_issuer = seconds 60"
    by (simp_all add: demo_principal_def demo_issuer_def)
  then show ?thesis
    using assertion_round_trip [OF demo_mint demo_jws_ok demo_json demo_keys, of "seconds 10"]
    by (auto simp: seconds_def)
qed

text \<open>An accepted token is authentic: it has three parts, its header names EdDSA and a configured 32-byte
  key, that key verifies the signature over the exact bytes received, and its claims name the
  configured issuer and a subject and are within their time window. So no token with another algorithm
  or an unknown key is ever accepted, and the signature check is never called on a key of a wrong length.\<close>

theorem Verify_authentic:
  assumes "Verify J v token t = Inr a"
  shows "\<exists>p0 p1 p2 head sig key payload. token = p0 @ ''.'' @ p1 @ ''.'' @ p2
    \<and> RawURLDecode p0 \<noteq> None \<and> jDecHeader J (the (RawURLDecode p0)) = Some head \<and> ahAlg head = ''EdDSA''
    \<and> gm_get (vfKeys v) (ahKid head) = Some key \<and> length key = 32
    \<and> RawURLDecode p2 = Some sig \<and> jVerify J key (p0 @ ''.'' @ p1) sig
    \<and> RawURLDecode p1 = Some payload \<and> jDecClaims J payload = Some a
    \<and> iaIssuer a = vfIssuer v \<and> iaSubject a \<noteq> []
    \<and> t \<le> seconds (iaExpiresAt a) + assertionSkew \<and> seconds (iaIssuedAt a) \<le> t + assertionSkew"
proof -
  obtain p0 p1 p2 where s: "Split (CHR ''.'') token = [p0, p1, p2]"
    using assms by (auto simp: Verify_def split: list.splits)
  then have "token = p0 @ ''.'' @ p1 @ ''.'' @ p2" using Join_Split [of "CHR ''.''" token] by simp
  moreover obtain head sig key payload where
    "RawURLDecode p0 \<noteq> None" "jDecHeader J (the (RawURLDecode p0)) = Some head" "ahAlg head = ''EdDSA''"
    "gm_get (vfKeys v) (ahKid head) = Some key" "length key = 32"
    "RawURLDecode p2 = Some sig" "jVerify J key (p0 @ ''.'' @ p1) sig"
    "RawURLDecode p1 = Some payload" "jDecClaims J payload = Some a" "check_claims v a t = Inr a"
    using assms s
    by (auto simp: Verify_def guardR_eq_Inr split: option.splits) (auto simp: check_claims_def guardR_def split: if_splits)
  ultimately show ?thesis
    by (intro exI [of _ p0] exI [of _ p1] exI [of _ p2] exI [of _ head] exI [of _ sig] exI [of _ key] exI [of _ payload])
       (simp add: check_claims_def guardR_eq_Inr)
qed

theorem Verify_authentic_witness:
  "\<exists>p0 p1 p2 sig. demo_token = p0 @ ''.'' @ p1 @ ''.'' @ p2 \<and> RawURLDecode p2 = Some sig
     \<and> jVerify demo_jws (replicate 32 CHR ''s'') (p0 @ ''.'' @ p1) sig"
proof -
  have "Verify demo_jws demo_verifier_keys demo_token (seconds 10) = Inr (minted_claims demo_issuer demo_principal 0)"
    using mint_verify [OF demo_mint demo_jws_ok demo_json demo_keys, of "seconds 10"]
    by (simp add: demo_principal_def demo_issuer_def seconds_def)
  from Verify_authentic [OF this] show ?thesis
    by (auto simp: demo_verifier_keys_def NewAssertionVerifier_def split: if_splits)
qed

section \<open>The accepting gate\<close>

lemma FromContext_enrich:
  "FromContext (enrich b a r) =
     (case FromContext r of
        Some p \<Rightarrow> Some (if Subject p = iaSubject a
                    then p\<lparr>Passport := iaPassport a, Groups := iaGroups a\<rparr> else p)
      | None \<Rightarrow> if b then None else Some (assertion_principal a (iaSubject a) [] []))"
  by (auto simp: enrich_def assertion_principal_def split: option.splits)

lemma rHeader_enrich [simp]: "rHeader (enrich b a r) = rHeader r"
  by (simp add: enrich_def split: option.splits)

text \<open>C24. The accepting gate never answers a request and always removes the assertion header. It keeps the
  subject, access token and session of an existing principal, changes its passport and groups only
  when a valid assertion names the same subject, and creates a principal only when a Bearer token is
  not required and the assertion is valid.\<close>

theorem AssertionGate_safe:
  assumes "header = (if h0 = [] then DefaultAssertionHeader else h0)"
  shows "\<exists>r' w'. AssertionGate J v h0 b next r w = next r' w' \<and> rHeader r' = hDel header (rHeader r)
    \<and> (case FromContext r of
         Some p \<Rightarrow> FromContext r' = Some p \<or>
           (\<exists>a. Verify J v (reqGet r header) (now w) = Inr a \<and> iaSubject a = Subject p
              \<and> FromContext r' = Some (p\<lparr>Passport := iaPassport a, Groups := iaGroups a\<rparr>))
       | None \<Rightarrow> FromContext r' = None \<or>
           (\<not> b \<and> (\<exists>a. Verify J v (reqGet r header) (now w) = Inr a \<and>
              FromContext r' = Some (assertion_principal a (iaSubject a) [] []))))"
proof (cases "reqGet r header = []")
  case True
  then show ?thesis
    by (intro exI [of _ "mapHeader (hDel header) r"] exI [of _ w])
       (simp add: AssertionGate_def assertion_step_def Let_def assms [symmetric] split: option.splits)
next
  case False
  note F = False
  show ?thesis
  proof (cases "Verify J v (reqGet r header) (now w)")
    case (Inl e)
    with F show ?thesis
      by (intro exI [of _ "mapHeader (hDel header) r"] exI [of _ "tick w"])
         (simp add: AssertionGate_def assertion_step_def Let_def assms [symmetric] split: option.splits)
  next
    case (Inr a)
    with F show ?thesis
      by (intro exI [of _ "enrich b a (mapHeader (hDel header) r)"] exI [of _ "tick w"])
         (auto simp: AssertionGate_def assertion_step_def Let_def assms [symmetric] FromContext_enrich split: option.splits)
  qed
qed

theorem AssertionGate_safe_witness:
  "\<exists>(r' :: request) w'. AssertionGate demo_jws demo_verifier_keys [] True (\<lambda>r w. Done w) (demo_req [(''X-Hog-Identity'', [''junk''])]) (demo_world ())
     = Done w' \<and> rHeader r' = hDel DefaultAssertionHeader [(''X-Hog-Identity'', [''junk''])]"
proof -
  obtain r' :: request and w' where "AssertionGate demo_jws demo_verifier_keys [] True (\<lambda>r w. Done w) (demo_req [(''X-Hog-Identity'', [''junk''])])
      (demo_world ()) = Done w'"
    "rHeader r' = hDel DefaultAssertionHeader (rHeader (demo_req [(''X-Hog-Identity'', [''junk''])]))"
    using AssertionGate_safe [OF refl, of demo_jws demo_verifier_keys "[]" True "\<lambda>r w. Done w"
      "demo_req [(''X-Hog-Identity'', [''junk''])]" "demo_world ()"] by auto
  then show ?thesis by (intro exI [of _ r'] exI [of _ w']) (simp add: demo_req_def)
qed

section \<open>The issuing gate\<close>

lemma Mint_ignores_token: "Mint J i (p\<lparr>AccessToken := x, SessionID := y\<rparr>) t = Mint J i p t"
proof -
  have "minted_claims i (p\<lparr>AccessToken := x, SessionID := y\<rparr>) t = minted_claims i p t" by (simp add: minted_claims_def)
  then show ?thesis by (simp only: Mint_def)
qed

text \<open>The issuing gate hands every request on; a client can never supply the assertion a backend sees:
  the header is absent, or was minted here and now for the principal of the request. What is minted
  does not depend on the access token or the session id.\<close>

theorem IssueAssertion_fresh:
  assumes "header = (if h0 = [] then DefaultAssertionHeader else h0)"
  shows "\<exists>r' w'. IssueAssertion J i h0 next r w = next r' w' \<and> FromContext r' = FromContext r
    \<and> AssertionHeaderFromContext r' = header
    \<and> (gm_get (rHeader r') (CanonicalHeaderKey header) = None \<or>
       (\<exists>p token. FromContext r = Some p \<and> gm_get (rHeader r') (CanonicalHeaderKey header) = Some [token]
          \<and> Mint J i p (now w) = Inr token \<and> (\<forall>x y. Mint J i (p\<lparr>AccessToken := x, SessionID := y\<rparr>) (now w) = Inr token)))
    \<and> (\<forall>k. k \<noteq> CanonicalHeaderKey header \<longrightarrow> gm_get (rHeader r') k = gm_get (rHeader r) k)"
proof -
  let ?r2 = "(mapHeader (hDel header) r)\<lparr>rCtx := (rCtx r)\<lparr>ctxAssertionHeader := header\<rparr>\<rparr>"
  have r2: "(mapHeader (hDel header) r)\<lparr>rCtx := (rCtx (mapHeader (hDel header) r))\<lparr>ctxAssertionHeader := header\<rparr>\<rparr> = ?r2"
    by (simp add: mapHeader_def)
  have f: "FromContext ?r2 = FromContext r" "rHeader ?r2 = hDel header (rHeader r)" "AssertionHeaderFromContext ?r2 = header"
    "AssertionHeaderFromContext (mapHeader g ?r2) = header" for g
    by (simp_all add: FromContext_def AssertionHeaderFromContext_def mapHeader_def)
  show ?thesis
  proof (cases "FromContext r")
    case None
    then show ?thesis
      by (intro exI [of _ ?r2] exI [of _ w])
         (simp add: IssueAssertion_def issue_step_def Let_def assms [symmetric] r2 f gm_get_hDel)
  next
    case (Some p)
    show ?thesis
    proof (cases "Mint J i p (now w)")
      case (Inl e)
      with Some show ?thesis
        by (intro exI [of _ ?r2] exI [of _ "tick w"])
           (simp add: IssueAssertion_def issue_step_def Let_def assms [symmetric] r2 f gm_get_hDel)
    next
      case (Inr token)
      with Some show ?thesis
        by (intro exI [of _ "mapHeader (hSet header token) ?r2"] exI [of _ "tick w"])
           (simp add: IssueAssertion_def issue_step_def Let_def assms [symmetric] r2 f gm_get_hDel gm_get_hSet Mint_ignores_token)
    qed
  qed
qed

theorem IssueAssertion_fresh_witness:
  "\<exists>(r' :: request) w'. IssueAssertion demo_jws demo_issuer [] (\<lambda>r w. Done w) (demo_req [(''X-Hog-Identity'', [''forged''])]) (demo_world ()) = Done w'
     \<and> gm_get (rHeader r') (CanonicalHeaderKey DefaultAssertionHeader) = None"
proof -
  have "FromContext (demo_req [(''X-Hog-Identity'', [''forged''])]) = None"
    by (simp add: demo_req_def demo_request_def FromContext_def)
  then obtain r' :: request and w' where "IssueAssertion demo_jws demo_issuer [] (\<lambda>r w. Done w) (demo_req [(''X-Hog-Identity'', [''forged''])])
      (demo_world ()) = Done w'" "gm_get (rHeader r') (CanonicalHeaderKey DefaultAssertionHeader) = None"
    using IssueAssertion_fresh [OF refl, of demo_jws demo_issuer "[]" "\<lambda>r w. Done w"
        "demo_req [(''X-Hog-Identity'', [''forged''])]" "demo_world ()"]
    by auto
  then show ?thesis by blast
qed

end
