(* ===== verification/Selector.thy ===== *)
theory Selector
  imports Hog_Prelude
begin

text \<open>
  Label selectors (\<^verbatim>\<open>src/selector/selector.go\<close>): the terms that wire plugins and route
  groups to routes. \<open>Matches\<close> follows the two loops of the code, with their early returns;
  \<open>req_holds\<close> and \<open>label_holds\<close> say what a single term means.
\<close>

record requirement =
  Key :: string
  Operator :: string
  Values :: "string list"

record selector =
  MatchLabels :: "(string, string) gomap"
  MatchExpressions :: "requirement list"

type_synonym labels = "(string, string) gomap"

fun match_labels :: "(string \<times> string) list \<Rightarrow> labels \<Rightarrow> bool" where
  "match_labels [] ls = True"
| "match_labels ((k, v) # ts) ls = (if gm_str ls k \<noteq> v then False else match_labels ts ls)"

fun match_exprs :: "requirement list \<Rightarrow> labels \<Rightarrow> bool" where
  "match_exprs [] ls = True"
| "match_exprs (r # rs) ls =
     (let val = gm_str ls (Key r); present = gm_get ls (Key r) \<noteq> None in
      if Operator r = ''In'' then
        (if \<not> present \<or> val \<notin> set (Values r) then False else match_exprs rs ls)
      else if Operator r = ''NotIn'' then
        (if present \<and> val \<in> set (Values r) then False else match_exprs rs ls)
      else if Operator r = ''Exists'' then (if \<not> present then False else match_exprs rs ls)
      else if Operator r = ''DoesNotExist'' then (if present then False else match_exprs rs ls)
      else False)"

definition Matches :: "selector \<Rightarrow> labels \<Rightarrow> bool" where
  "Matches s ls \<longleftrightarrow> match_labels (MatchLabels s) ls \<and> match_exprs (MatchExpressions s) ls"

definition empty_selector :: selector where
  "empty_selector = \<lparr>MatchLabels = [], MatchExpressions = []\<rparr>"

section \<open>The meaning of a term\<close>

definition label_holds :: "labels \<Rightarrow> string \<times> string \<Rightarrow> bool" where
  "label_holds ls t \<longleftrightarrow> gm_get ls (fst t) = Some (snd t) \<or> (snd t = [] \<and> gm_get ls (fst t) = None)"

definition req_holds :: "labels \<Rightarrow> requirement \<Rightarrow> bool" where
  "req_holds ls r \<longleftrightarrow>
     (Operator r = ''In'' \<and> (\<exists>v. gm_get ls (Key r) = Some v \<and> v \<in> set (Values r)))
   \<or> (Operator r = ''NotIn'' \<and> (\<forall>v. gm_get ls (Key r) = Some v \<longrightarrow> v \<notin> set (Values r)))
   \<or> (Operator r = ''Exists'' \<and> gm_get ls (Key r) \<noteq> None)
   \<or> (Operator r = ''DoesNotExist'' \<and> gm_get ls (Key r) = None)"

lemma label_holds_str: "label_holds ls t \<longleftrightarrow> gm_str ls (fst t) = snd t"
  by (auto simp: label_holds_def gm_str_def split: option.splits)

lemma match_labels_iff: "match_labels ts ls \<longleftrightarrow> (\<forall>t \<in> set ts. label_holds ls t)"
  by (induction ts) (auto simp: label_holds_str split: if_splits)

lemma match_exprs_Cons: "match_exprs (r # rs) ls \<longleftrightarrow> req_holds ls r \<and> match_exprs rs ls"
  by (cases "gm_get ls (Key r)") (auto simp: Let_def req_holds_def gm_str_def)

lemma match_exprs_iff: "match_exprs rs ls \<longleftrightarrow> (\<forall>r \<in> set rs. req_holds ls r)"
proof (induction rs)
  case Nil
  show ?case by simp
next
  case (Cons r rs)
  then show ?case by (simp only: match_exprs_Cons list.set ball_simps)
qed

text \<open>A selector matches a label set exactly when every term of it holds (logical AND over both
  kinds of terms); an expression with an operator other than the four documented ones holds for no
  labels. In particular the order of the terms, and so the iteration order of the Go map
  \<open>matchLabels\<close>, does not matter.\<close>

theorem Matches_iff_all_terms:
  "Matches s ls \<longleftrightarrow>
     (\<forall>t \<in> set (MatchLabels s). label_holds ls t) \<and> (\<forall>r \<in> set (MatchExpressions s). req_holds ls r)"
  by (simp only: Matches_def match_labels_iff match_exprs_iff)

theorem Matches_iff_all_terms_witness:
  "\<not> Matches \<lparr>MatchLabels = [(''app'', ''x'')], MatchExpressions = [\<lparr>Key = ''tier'', Operator = ''NotIn'', Values = [''a'']\<rparr>]\<rparr>
     [(''app'', ''x''), (''tier'', ''a'')]"
  by (subst Matches_iff_all_terms) (simp add: req_holds_def)

lemma Matches_empty [simp]: "Matches empty_selector ls"
  by (simp add: Matches_def empty_selector_def)

lemma Matches_cong:
  assumes "gm_get ls = gm_get ls'"
  shows "Matches s ls = Matches s ls'"
proof -
  have "gm_str ls = gm_str ls'" using assms by (simp add: gm_str_def fun_eq_iff)
  then have "match_labels ts ls = match_labels ts ls'" for ts
    by (induction ts) (auto split: if_splits)
  moreover have "match_exprs rs ls = match_exprs rs ls'" for rs
    by (simp only: match_exprs_iff req_holds_def assms)
  ultimately show ?thesis by (simp only: Matches_def)
qed

end
