(* ===== verification/Config_Env.thy ===== *)
theory Config_Env
  imports Go_Path "HOL-Library.List_Lexorder" "HOL-Library.Char_ord"
begin

text \<open>
  Configuration loading (\<^verbatim>\<open>src/config\<close>): the expansion of environment variables
  (\<^verbatim>\<open>env.go\<close>), the resource stream (\<^verbatim>\<open>resource.go\<close>) and the file loader
  (\<^verbatim>\<open>loader.go\<close>). The YAML decoder and the file system are arguments: \<open>yaml\<close> gives the
  results of successive \<open>Decode\<close> calls on a text, up to end of file, and \<open>osfs\<close> the
  answers of \<open>Stat\<close>, \<open>ReadDir\<close> and \<open>ReadFile\<close>.
\<close>

section \<open>ExpandEnv\<close>

datatype env_error = Unterminated | RequiredUnset string

lemma Index_drop_less: "Index s sub = Some i \<Longrightarrow> sub \<noteq> [] \<Longrightarrow> length (drop (i + n + 1) s) < length s"
  using Index_le [of s sub i] by (cases sub) auto

function expand_loop :: "(string \<Rightarrow> string option) \<Rightarrow> string \<Rightarrow> string \<Rightarrow> (env_error, string) result" where
  "expand_loop lookup b s =
     (case Index s ''${'' of
        None \<Rightarrow> Inr (b @ s)
      | Some i \<Rightarrow>
          (case Index (drop i s) ''}'' of
             None \<Rightarrow> Inl Unterminated
           | Some e \<Rightarrow>
               let expr = drop 2 (take e (drop i s));
                   (name, def, hasDef) =
                     (case Cut expr '':-'' of Some (before, after) \<Rightarrow> (before, after, True)
                      | None \<Rightarrow> (expr, [], False))
               in (case lookup name of
                     Some v \<Rightarrow> expand_loop lookup (b @ take i s @ v) (drop (i + e + 1) s)
                   | None \<Rightarrow>
                       if hasDef then expand_loop lookup (b @ take i s @ def) (drop (i + e + 1) s)
                       else Inl (RequiredUnset name))))"
  by pat_completeness auto
termination
  by (relation "measure (\<lambda>(l, b, s). length s)") (auto dest: Index_drop_less)

declare expand_loop.simps [simp del]

definition ExpandEnv :: "string \<Rightarrow> (string \<Rightarrow> string option) \<Rightarrow> (env_error, string) result" where
  "ExpandEnv s lookup = expand_loop lookup [] s"

section \<open>Resources\<close>

record metadata =
  Name :: string
  Labels :: "(string, string) gomap"

record 'n resource =
  APIVersion :: string
  Kind :: string
  Metadata :: metadata
  Spec :: 'n

datatype config_error =
    StatFailed string
  | ReadDirFailed string
  | ReadFileFailed string
  | ExpandFailed string env_error
  | DecodeFailed string string

text \<open>\<open>DecodeAll\<close> over the results of the decoder's successive calls.\<close>

fun decode_loop :: "'n resource list \<Rightarrow> (string, 'n resource) result list \<Rightarrow> (string, 'n resource list) result" where
  "decode_loop out [] = Inr out"
| "decode_loop out (Inl e # ds) = Inl e"
| "decode_loop out (Inr r # ds) =
     (if Kind r = [] then decode_loop out ds else decode_loop (out @ [r]) ds)"

definition DecodeAll :: "(string, 'n resource) result list \<Rightarrow> (string, 'n resource list) result" where
  "DecodeAll ds = decode_loop [] ds"

section \<open>Load\<close>

record osfs =
  Stat :: "string \<Rightarrow> (string, bool) result"
  ReadDir :: "string \<Rightarrow> (string, (string \<times> bool) list) result"
  ReadFile :: "string \<Rightarrow> (string, string) result"

definition is_yaml :: "(nat \<Rightarrow> nat) \<Rightarrow> string \<Rightarrow> bool" where
  "is_yaml ulower name \<longleftrightarrow> (let ext = ToLower ulower (Ext name) in ext = ''.yaml'' \<or> ext = ''.yml'')"

definition yaml_files :: "(nat \<Rightarrow> nat) \<Rightarrow> string \<Rightarrow> (string \<times> bool) list \<Rightarrow> string list" where
  "yaml_files ulower path es =
     sort (map (\<lambda>(n, d). PathJoin [path, n]) (filter (\<lambda>(n, d). \<not> d \<and> is_yaml ulower n) es))"

definition config_files :: "(nat \<Rightarrow> nat) \<Rightarrow> osfs \<Rightarrow> string \<Rightarrow> (config_error, string list) result" where
  "config_files ulower fs path =
     (case Stat fs path of
        Inl e \<Rightarrow> Inl (StatFailed e)
      | Inr isDir \<Rightarrow>
          if isDir then
            (case ReadDir fs path of
               Inl e \<Rightarrow> Inl (ReadDirFailed e)
             | Inr es \<Rightarrow>
                 Inr (yaml_files ulower path es))
          else Inr [path])"

definition load_file :: "osfs \<Rightarrow> (string \<Rightarrow> string option) \<Rightarrow> (string \<Rightarrow> (string, 'n resource) result list)
    \<Rightarrow> string \<Rightarrow> (config_error, 'n resource list) result" where
  "load_file fs env yaml f =
     (case ReadFile fs f of
        Inl e \<Rightarrow> Inl (ReadFileFailed e)
      | Inr raw \<Rightarrow>
          (case ExpandEnv raw env of
             Inl e \<Rightarrow> Inl (ExpandFailed f e)
           | Inr expanded \<Rightarrow>
               (case DecodeAll (yaml expanded) of
                  Inl e \<Rightarrow> Inl (DecodeFailed f e)
                | Inr rs \<Rightarrow> Inr rs)))"

definition Load :: "(nat \<Rightarrow> nat) \<Rightarrow> osfs \<Rightarrow> (string \<Rightarrow> string option) \<Rightarrow> (string \<Rightarrow> (string, 'n resource) result list)
    \<Rightarrow> string \<Rightarrow> (config_error, 'n resource list) result" where
  "Load ulower fs env yaml path =
     (case config_files ulower fs path of
        Inl e \<Rightarrow> Inl e
      | Inr files \<Rightarrow>
          foldR (\<lambda>out f. case load_file fs env yaml f of Inl e \<Rightarrow> Inl e | Inr rs \<Rightarrow> Inr (out @ rs)) [] files)"

section \<open>Templates: what ExpandEnv computes\<close>

text \<open>An abstract template: literal text, a required variable, a variable with a default.\<close>

datatype seg = Lit string | Var string | VarDef string string

fun print_seg :: "seg \<Rightarrow> string" where
  "print_seg (Lit t) = t"
| "print_seg (Var n) = ''${'' @ n @ ''}''"
| "print_seg (VarDef n d) = ''${'' @ n @ '':-'' @ d @ ''}''"

fun wf_seg :: "seg \<Rightarrow> bool" where
  "wf_seg (Lit t) = (CHR ''$'' \<notin> set t)"
| "wf_seg (Var n) = (CHR ''}'' \<notin> set n \<and> CHR '':'' \<notin> set n)"
| "wf_seg (VarDef n d) = (CHR ''}'' \<notin> set n \<and> CHR '':'' \<notin> set n \<and> CHR ''}'' \<notin> set d)"

fun eval_seg :: "(string \<Rightarrow> string option) \<Rightarrow> seg \<Rightarrow> (env_error, string) result" where
  "eval_seg env (Lit t) = Inr t"
| "eval_seg env (Var n) = (case env n of Some v \<Rightarrow> Inr v | None \<Rightarrow> Inl (RequiredUnset n))"
| "eval_seg env (VarDef n d) = (case env n of Some v \<Rightarrow> Inr v | None \<Rightarrow> Inr d)"

definition eval_template :: "(string \<Rightarrow> string option) \<Rightarrow> seg list \<Rightarrow> (env_error, string) result" where
  "eval_template env segs = (case traverseR (eval_seg env) segs of Inl e \<Rightarrow> Inl e | Inr vs \<Rightarrow> Inr (concat vs))"

lemma Index_fresh: "c \<notin> set a \<Longrightarrow> Index (a @ (c # p) @ b) (c # p) = Some (length a)"
  by (induction a) auto

lemma Index_fresh_None: "c \<notin> set s \<Longrightarrow> Index s (c # p) = None"
  by (induction s) auto

lemma Index_brace:
  assumes "CHR ''}'' \<notin> set body"
  shows "Index (''${'' @ body @ CHR ''}'' # rest) ''}'' = Some (2 + length body)"
  using Index_fresh [of "CHR ''}''" "''${'' @ body" "[]" rest] assms by simp

text \<open>One variable of the input: whatever stands before the first dollar sign is copied, the
  variable's value goes to the output, and the rest is expanded.\<close>

lemma expand_loop_var:
  assumes "CHR ''$'' \<notin> set a" "CHR ''}'' \<notin> set body"
  shows "expand_loop env b (a @ ''${'' @ body @ ''}'' @ rest) =
    (case Cut body '':-'' of
       None \<Rightarrow> (case env body of Some v \<Rightarrow> expand_loop env (b @ a @ v) rest | None \<Rightarrow> Inl (RequiredUnset body))
     | Some (n, d) \<Rightarrow> (case env n of Some v \<Rightarrow> expand_loop env (b @ a @ v) rest | None \<Rightarrow> expand_loop env (b @ a @ d) rest))"
proof -
  have i: "Index (a @ ''${'' @ body @ ''}'' @ rest) ''${'' = Some (length a)"
    using Index_fresh [of "CHR ''$''" a "''{''" "body @ ''}'' @ rest"] assms(1) by simp
  have e: "Index (drop (length a) (a @ ''${'' @ body @ ''}'' @ rest)) ''}'' = Some (2 + length body)"
    using Index_brace [OF assms(2), of rest] by simp
  have d: "drop (length a + (2 + length body) + 1) (a @ ''${'' @ body @ ''}'' @ rest) = rest"
    by (simp add: numeral_eq_Suc)
  have t: "drop 2 (take (2 + length body) (drop (length a) (a @ ''${'' @ body @ ''}'' @ rest))) = body"
    by (simp add: numeral_eq_Suc)
  show ?thesis
    by (subst expand_loop.simps)
       (simp only: i e d t option.simps Let_def, simp split: option.splits)
qed

lemma Cut_colon: "CHR '':'' \<notin> set n \<Longrightarrow> Cut (n @ '':-'' @ d) '':-'' = Some (n, d)"
  using Index_fresh [of "CHR '':''" n "''-''" d] by (simp add: Cut_def)

lemma Cut_no_colon: "CHR '':'' \<notin> set n \<Longrightarrow> Cut n '':-'' = None"
  by (simp add: Cut_def Index_fresh_None)

lemma expand_template:
  assumes "list_all wf_seg segs" "CHR ''$'' \<notin> set a"
  shows "expand_loop env b (a @ concat (map print_seg segs)) =
    (case eval_template env segs of Inl e \<Rightarrow> Inl e | Inr t \<Rightarrow> Inr (b @ a @ t))"
  using assms
proof (induction segs arbitrary: a b)
  case Nil
  then show ?case
    by (subst expand_loop.simps) (simp add: Index_fresh_None eval_template_def)
next
  case (Cons x segs)
  show ?case
  proof (cases x)
    case (Lit t)
    with Cons.prems have "CHR ''$'' \<notin> set (a @ t)" by simp
    with Lit Cons.IH [of "a @ t" b] Cons.prems show ?thesis
      by (simp add: eval_template_def split: sum.splits)
  next
    case (Var n)
    with Cons.prems have "CHR ''}'' \<notin> set n" "CHR '':'' \<notin> set n" "CHR ''$'' \<notin> set a" by auto
    with Var Cons.IH [of "[]"] Cons.prems
      expand_loop_var [of a n env b "concat (map print_seg segs)"] show ?thesis
      by (simp add: Cut_no_colon eval_template_def split: sum.splits option.splits)
  next
    case (VarDef n d)
    with Cons.prems have w: "CHR ''}'' \<notin> set (n @ '':-'' @ d)" "CHR '':'' \<notin> set n" "CHR ''$'' \<notin> set a" by auto
    with VarDef Cons.IH [of "[]"] Cons.prems
      expand_loop_var [of a "n @ '':-'' @ d" env b "concat (map print_seg segs)"] show ?thesis
      by (simp add: Cut_colon [of n d, simplified] eval_template_def split: sum.splits option.splits)
  qed
qed

text \<open>C38. Expanding the text of a template gives the concatenation of its literals and its variables'
  values: a set variable (even one set to the empty string) replaces its occurrence and suppresses its
  default, an unset one takes its default, and the first unset variable with no default fails the
  expansion with its name. Substituted values are copied, never expanded again.\<close>

theorem ExpandEnv_template:
  assumes "list_all wf_seg segs"
  shows "ExpandEnv (concat (map print_seg segs)) env = eval_template env segs"
  using expand_template [OF assms, of "[]" env "[]"]
  by (simp add: ExpandEnv_def split: sum.splits)

theorem ExpandEnv_template_witness:
  "ExpandEnv ''a=${A} b=${B:-${x}'' [''A'' \<mapsto> ''${B}''] = Inr ''a=${B} b=${x''"
proof -
  let ?segs = "[Lit ''a='', Var ''A'', Lit '' b='', VarDef ''B'' ''${x'']"
  have "list_all wf_seg ?segs" by simp
  from ExpandEnv_template [OF this, of "[''A'' \<mapsto> ''${B}'']"] show ?thesis
    by (simp add: eval_template_def)
qed

section \<open>Loading a directory\<close>

lemma decode_loop_ok:
  "decode_loop out ds = Inr rs \<longleftrightarrow>
     (\<forall>d \<in> set ds. \<exists>r. d = Inr r) \<and> rs = out @ filter (\<lambda>r. Kind r \<noteq> []) (map projr ds)"
proof (induction ds arbitrary: out)
  case Nil
  then show ?case by auto
next
  case (Cons d ds)
  show ?case
  proof (cases d)
    case (Inl e)
    then show ?thesis by auto
  next
    case (Inr r)
    then show ?thesis by (simp add: Cons.IH)
  qed
qed

lemma load_fold:
  "foldR (\<lambda>out f. case g f of Inl e \<Rightarrow> Inl e | Inr rs \<Rightarrow> Inr (out @ rs)) out files =
     (case traverseR g files of Inl e \<Rightarrow> Inl e | Inr rss \<Rightarrow> Inr (out @ concat rss))"
  by (induction files arbitrary: out) (auto split: sum.splits)

text \<open>Loading a directory reads exactly its non-directory entries with a .yaml or .yml extension
  (in any letter case), in lexical order of their paths, and yields the concatenation of their
  resources; it fails as soon as one of them fails. No resource with an empty kind is returned.\<close>

theorem Load_directory:
  assumes "Stat fs dir = Inr True" "ReadDir fs dir = Inr es"
  shows "Load ul fs env yaml dir =
      (case traverseR (load_file fs env yaml) (yaml_files ul dir es) of Inl e \<Rightarrow> Inl e | Inr rss \<Rightarrow> Inr (concat rss))
    \<and> sorted (yaml_files ul dir es)
    \<and> (\<forall>rs. Load ul fs env yaml dir = Inr rs \<longrightarrow> (\<forall>r \<in> set rs. Kind r \<noteq> []))"
proof -
  let ?files = "yaml_files ul dir es"
  have eq: "Load ul fs env yaml dir =
      (case traverseR (load_file fs env yaml) ?files of Inl e \<Rightarrow> Inl e | Inr rss \<Rightarrow> Inr (concat rss))"
    using load_fold [of "load_file fs env yaml" "[]" ?files] assms
    by (simp add: Load_def config_files_def split: sum.splits)
  have one: "\<forall>r \<in> set rs. Kind r \<noteq> []" if "load_file fs env yaml f = Inr rs" for f rs
    using that by (auto simp: load_file_def DecodeAll_def decode_loop_ok split: sum.splits)
  have "\<forall>r \<in> set (concat rss). Kind r \<noteq> []" if "traverseR (load_file fs env yaml) ?files = Inr rss" for rss
  proof -
    have "\<exists>f. load_file fs env yaml f = Inr rs" if "rs \<in> set rss" for rs
      using that \<open>traverseR (load_file fs env yaml) ?files = Inr rss\<close>
      by (auto simp: traverseR_Inr list_all2_conv_all_nth in_set_conv_nth)
    then show ?thesis using one by fastforce
  qed
  with eq show ?thesis by (auto simp: yaml_files_def split: sum.splits)
qed

definition demo_fs :: osfs where
  "demo_fs = \<lparr>Stat = (\<lambda>p. Inr True),
     ReadDir = (\<lambda>p. Inr [(''b.yml'', False), (''x.txt'', False), (''a.YAML'', False), (''d.yaml'', True)]),
     ReadFile = (\<lambda>p. Inr p)\<rparr>"

definition demo_yaml :: "string \<Rightarrow> (string, unit resource) result list" where
  "demo_yaml t = [Inr \<lparr>APIVersion = [], Kind = t, Metadata = \<lparr>Name = t, Labels = []\<rparr>, Spec = ()\<rparr>]"

theorem Load_directory_witness:
  "map_sum id (map Kind) (Load id demo_fs Map.empty demo_yaml ''c'') = Inr [''c/a.YAML'', ''c/b.yml'']"
proof -
  have "Stat demo_fs ''c'' = Inr True"
    "ReadDir demo_fs ''c'' = Inr [(''b.yml'', False), (''x.txt'', False), (''a.YAML'', False), (''d.yaml'', True)]"
    by (simp_all add: demo_fs_def)
  from Load_directory [OF this, of id Map.empty demo_yaml, THEN conjunct1] show ?thesis
    by (simp only:) code_simp
qed

end
