(* ===== verification/Route.thy ===== *)
theory Route
  imports Auth_Gates Selector Config_Env
begin

text \<open>
  Routes and route groups (\<^verbatim>\<open>src/route/route.go\<close>): parsing the resources and resolving the effective
  access block of a route from its own fields, the matching groups and the defaults of its type. The
  YAML decoder is an argument; it fills a value that already holds the resource's name and labels.
  Policy names, types and auth modes are plain strings, as in the source.
\<close>

record 'n handler_spec =
  hsType :: string
  hsConfig :: 'n

record groups_projection =
  gpHeader :: string

record session_projection =
  spClaims :: "(string, string) gomap"
  spGroups :: "groups_projection option"

record projection_config =
  pjSession :: "session_projection option"

record on_deny =
  odRedirect :: string

record access_spec =
  acAuth :: string
  acAuthorize :: "string list"
  acProjection :: "projection_config option"
  acOnDeny :: "on_deny option"

record 'n route =
  rtName :: string
  rtLabels :: labels
  rtMatch :: string
  rtType :: string
  rtHandler :: "'n handler_spec"
  rtAccess :: access_spec

record route_group =
  rgName :: string
  rgType :: string
  rgSelector :: selector
  rgAccess :: access_spec

datatype route_error =
    WrongKind string
  | RouteDecode string string
  | NoMatch string
  | NoHandlerType string
  | InvalidType string string
  | InvalidAuth string string
  | InvalidRedirect string string

definition empty_access :: access_spec where
  "empty_access = \<lparr>acAuth = [], acAuthorize = [], acProjection = None, acOnDeny = None\<rparr>"

section \<open>Parsing\<close>

definition ParseRoute :: "('n \<Rightarrow> 'n route \<Rightarrow> (string, 'n route) result) \<Rightarrow> 'n \<Rightarrow> 'n resource \<Rightarrow> (route_error, 'n route) result" where
  "ParseRoute dec zero r =
     guardR (Kind r \<noteq> ''Route'') (WrongKind (Kind r)) (
     let name = Name (Metadata r);
         out0 = \<lparr>rtName = name, rtLabels = Labels (Metadata r), rtMatch = [], rtType = [],
                 rtHandler = \<lparr>hsType = [], hsConfig = zero\<rparr>, rtAccess = empty_access\<rparr> in
     bindR (mapErr (RouteDecode name) (dec (Spec r) out0)) (\<lambda>out.
     guardR (rtMatch out = []) (NoMatch name) (
     guardR (hsType (rtHandler out) = []) (NoHandlerType name) (
     Inr out))))"

definition ParseGroup :: "('n \<Rightarrow> route_group \<Rightarrow> (string, route_group) result) \<Rightarrow> 'n resource \<Rightarrow> (route_error, route_group) result" where
  "ParseGroup dec r =
     guardR (Kind r \<noteq> ''RouteGroup'') (WrongKind (Kind r)) (
     let name = Name (Metadata r) in
     mapErr (RouteDecode name)
       (dec (Spec r) \<lparr>rgName = name, rgType = [], rgSelector = empty_selector, rgAccess = empty_access\<rparr>))"

section \<open>Resolving\<close>

record resolved =
  rsType :: string
  rsAuth :: string
  rsProjection :: "projection_config option"
  rsAuthorize :: "string list"
  rsOnDeny :: "on_deny option"

definition firstNonEmpty :: "string \<Rightarrow> string \<Rightarrow> string" where
  "firstNonEmpty a b = (if a \<noteq> [] then a else b)"

definition inferType :: "string \<Rightarrow> string" where
  "inferType handlerType = (if handlerType = ''reverse-proxy'' \<or> handlerType = ''api'' then ''service'' else ''app'')"

definition merge_group :: "labels \<Rightarrow> string \<times> string \<times> projection_config option \<times> on_deny option \<Rightarrow> route_group
    \<Rightarrow> string \<times> string \<times> projection_config option \<times> on_deny option" where
  "merge_group ls acc g =
     (case acc of (gType, gAuth, proj, onDeny) \<Rightarrow>
      if Matches (rgSelector g) ls then
        (if rgType g \<noteq> [] then rgType g else gType,
         if acAuth (rgAccess g) \<noteq> [] then acAuth (rgAccess g) else gAuth,
         if acProjection (rgAccess g) \<noteq> None then acProjection (rgAccess g) else proj,
         if acOnDeny (rgAccess g) \<noteq> None then acOnDeny (rgAccess g) else onDeny)
      else acc)"

text \<open>\<open>add\<close>: the names collected so far are the names seen so far.\<close>

definition add_name :: "string list \<Rightarrow> string \<Rightarrow> string list" where
  "add_name authorize n = (if n \<noteq> [] \<and> n \<notin> set authorize then authorize @ [n] else authorize)"

definition add_names :: "string list \<Rightarrow> string list \<Rightarrow> string list" where
  "add_names authorize names = foldl add_name authorize names"

definition same_origin :: "string \<Rightarrow> bool" where
  "same_origin redirect \<longleftrightarrow>
     \<not> (\<not> HasPrefix redirect ''/'' \<or> HasPrefix redirect ''//'' \<or> HasPrefix redirect [CHR ''/'', CHR 0x5C]
        \<or> Contains redirect ''://'')"

definition effective_type :: "(nat \<Rightarrow> nat) \<Rightarrow> 'n route \<Rightarrow> string \<Rightarrow> string" where
  "effective_type ulower rt gType =
     (let typ = firstNonEmpty (rtType rt) gType in
      ToLower ulower (if typ = [] then inferType (hsType (rtHandler rt)) else typ))"

definition effective_auth :: "(nat \<Rightarrow> nat) \<Rightarrow> 'n route \<Rightarrow> string \<Rightarrow> string \<Rightarrow> string" where
  "effective_auth ulower rt typ gAuth =
     (let auth = firstNonEmpty (acAuth (rtAccess rt)) gAuth in
      ToLower ulower (if auth = [] then (if typ = ''service'' then ''required'' else ''public'') else auth))"

definition deny_redirect :: "on_deny option \<Rightarrow> string" where
  "deny_redirect onDeny = (case onDeny of None \<Rightarrow> [] | Some d \<Rightarrow> odRedirect d)"

definition effective_authorize :: "'n route \<Rightarrow> route_group list \<Rightarrow> string list" where
  "effective_authorize rt groups =
     foldl (\<lambda>a g. if Matches (rgSelector g) (rtLabels rt) then add_names a (acAuthorize (rgAccess g)) else a)
       (add_names [] (acAuthorize (rtAccess rt))) groups"

definition Resolve :: "(nat \<Rightarrow> nat) \<Rightarrow> 'n route \<Rightarrow> route_group list \<Rightarrow> (route_error, resolved) result" where
  "Resolve ulower rt groups =
     (let (gType, gAuth, gProj, gDeny) = foldl (merge_group (rtLabels rt)) ([], [], None, None) groups;
          typ = effective_type ulower rt gType;
          auth = effective_auth ulower rt typ gAuth;
          proj = (if acProjection (rtAccess rt) \<noteq> None then acProjection (rtAccess rt) else gProj);
          onDeny = (if acOnDeny (rtAccess rt) \<noteq> None then acOnDeny (rtAccess rt) else gDeny);
          redirect = deny_redirect onDeny
      in guardR (typ \<noteq> ''app'' \<and> typ \<noteq> ''service'') (InvalidType (rtName rt) typ) (
         guardR (auth \<noteq> ''required'' \<and> auth \<noteq> ''public'') (InvalidAuth (rtName rt) auth) (
         guardR (redirect \<noteq> [] \<and> \<not> same_origin redirect) (InvalidRedirect (rtName rt) redirect) (
         Inr \<lparr>rsType = typ, rsAuth = auth, rsProjection = proj, rsAuthorize = effective_authorize rt groups,
              rsOnDeny = onDeny\<rparr>))))"

section \<open>What resolution guarantees\<close>

definition matching :: "'n route \<Rightarrow> route_group list \<Rightarrow> route_group list" where
  "matching rt groups = filter (\<lambda>g. Matches (rgSelector g) (rtLabels rt)) groups"

lemma add_names_props:
  "set (add_names a ns) = set a \<union> (set ns - {[]}) \<and> (distinct a \<longrightarrow> distinct (add_names a ns))"
proof (induction ns arbitrary: a)
  case (Cons n ns)
  have "set (add_name a n) = set a \<union> ({n} - {[]})" "distinct a \<longrightarrow> distinct (add_name a n)"
    by (auto simp: add_name_def)
  with Cons.IH [of "add_name a n"] show ?case by (auto simp: add_names_def)
qed (simp add: add_names_def)

lemma authorize_fold:
  "set (foldl (\<lambda>a g. if P g then add_names a (f g) else a) a groups) = set a \<union> (\<Union>g \<in> {g \<in> set groups. P g}. set (f g) - {[]})
   \<and> (distinct a \<longrightarrow> distinct (foldl (\<lambda>a g. if P g then add_names a (f g) else a) a groups))"
proof (induction groups arbitrary: a)
  case (Cons g groups)
  show ?case
  proof (cases "P g")
    case True
    then have "{h \<in> set (g # groups). P h} = insert g {h \<in> set groups. P h}" by auto
    with True Cons.IH [of "add_names a (f g)"] add_names_props [of a "f g"] show ?thesis by auto
  next
    case False
    then have "{h \<in> set (g # groups). P h} = {h \<in> set groups. P h}" by auto
    with False Cons.IH [of a] show ?thesis by auto
  qed
qed simp

lemma Resolve_cases:
  assumes "Resolve u rt groups = Inr res"
  obtains gType gAuth gProj gDeny where
    "foldl (merge_group (rtLabels rt)) ([], [], None, None) groups = (gType, gAuth, gProj, gDeny)"
    "rsType res = effective_type u rt gType" "rsType res \<in> {''app'', ''service''}"
    "rsAuth res = effective_auth u rt (rsType res) gAuth" "rsAuth res \<in> {''required'', ''public''}"
    "rsProjection res = (if acProjection (rtAccess rt) \<noteq> None then acProjection (rtAccess rt) else gProj)"
    "rsOnDeny res = (if acOnDeny (rtAccess rt) \<noteq> None then acOnDeny (rtAccess rt) else gDeny)"
    "deny_redirect (rsOnDeny res) = [] \<or> same_origin (deny_redirect (rsOnDeny res))"
    "rsAuthorize res = effective_authorize rt groups"
proof -
  obtain gType gAuth gProj gDeny where acc: "foldl (merge_group (rtLabels rt)) ([], [], None, None) groups = (gType, gAuth, gProj, gDeny)"
    by (cases "foldl (merge_group (rtLabels rt)) ([], [], None, None) groups")
  show ?thesis
    using assms unfolding Resolve_def acc Let_def prod.case guardR_eq_Inr sum.inject
    by (intro that [OF acc]; elim conjE; hypsubst?; simp add: resolved.defs; blast)
qed

lemma same_origin_safeReturnTo: "redirect \<noteq> [] \<Longrightarrow> same_origin redirect \<longleftrightarrow> safeReturnTo redirect = redirect"
proof -
  assume ne: "redirect \<noteq> []"
  have root: "same_origin ''/''" by code_simp
  have "HasPrefix redirect ''/'' \<longleftrightarrow> hd redirect = CHR ''/''" using ne by (cases redirect) auto
  with ne root show ?thesis by (auto simp: same_origin_def safeReturnTo_def)
qed

lemma effective_authorize_props:
  "set (effective_authorize rt groups) =
     (set (acAuthorize (rtAccess rt)) \<union> (\<Union>g \<in> set (matching rt groups). set (acAuthorize (rgAccess g)))) - {[]}
   \<and> distinct (effective_authorize rt groups)"
  using authorize_fold [of "\<lambda>g. Matches (rgSelector g) (rtLabels rt)" "\<lambda>g. acAuthorize (rgAccess g)"
      "add_names [] (acAuthorize (rtAccess rt))" groups] add_names_props [of "[]" "acAuthorize (rtAccess rt)"]
  by (auto simp: effective_authorize_def matching_def)

text \<open>Every route that resolves is enforceable: its type is app or service, its auth mode is required
  or public, its deny redirect (if any) is one the login flow's check accepts unchanged, and its
  policy set is exactly the union of its own and of every matching group's policies, each once: no
  matching group can be overridden out of the set by another.\<close>

theorem Resolve_enforceable:
  assumes "Resolve u rt groups = Inr res"
  shows "rsType res \<in> {''app'', ''service''} \<and> rsAuth res \<in> {''required'', ''public''}
    \<and> (\<forall>d. rsOnDeny res = Some d \<and> odRedirect d \<noteq> [] \<longrightarrow> safeReturnTo (odRedirect d) = odRedirect d)
    \<and> set (rsAuthorize res) = (set (acAuthorize (rtAccess rt)) \<union> (\<Union>g \<in> set (matching rt groups). set (acAuthorize (rgAccess g)))) - {[]}
    \<and> distinct (rsAuthorize res)"
proof (rule Resolve_cases [OF assms])
  fix gType gAuth gProj gDeny
  assume r: "rsType res \<in> {''app'', ''service''}" "rsAuth res \<in> {''required'', ''public''}"
    "deny_redirect (rsOnDeny res) = [] \<or> same_origin (deny_redirect (rsOnDeny res))"
    "rsAuthorize res = effective_authorize rt groups"
  have "safeReturnTo (odRedirect d) = odRedirect d" if "rsOnDeny res = Some d" "odRedirect d \<noteq> []" for d
    using r(3) that same_origin_safeReturnTo [of "odRedirect d"] by (simp add: deny_redirect_def)
  with r(1,2,4) effective_authorize_props [of rt groups] show ?thesis by simp
qed

definition last_or :: "'a \<Rightarrow> 'a list \<Rightarrow> 'a" where
  "last_or d xs = (if xs = [] then d else last xs)"

definition group_auth :: "'n route \<Rightarrow> route_group list \<Rightarrow> string" where
  "group_auth rt groups = last_or [] (filter (\<lambda>a. a \<noteq> []) (map (\<lambda>g. acAuth (rgAccess g)) (matching rt groups)))"

definition group_type :: "'n route \<Rightarrow> route_group list \<Rightarrow> string" where
  "group_type rt groups = last_or [] (filter (\<lambda>a. a \<noteq> []) (map rgType (matching rt groups)))"

lemma last_or_snoc [simp]: "last_or d (xs @ [x]) = x" "last_or d [] = d"
  by (simp_all add: last_or_def)

lemma merge_group_sel:
  "fst (merge_group ls acc g) = (if Matches (rgSelector g) ls \<and> rgType g \<noteq> [] then rgType g else fst acc)"
  "fst (snd (merge_group ls acc g)) = (if Matches (rgSelector g) ls \<and> acAuth (rgAccess g) \<noteq> [] then acAuth (rgAccess g) else fst (snd acc))"
  by (auto simp: merge_group_def split: prod.splits)

lemma merge_last:
  "fst (foldl (merge_group (rtLabels rt)) ([], [], None, None) groups) = group_type rt groups \<and>
   fst (snd (foldl (merge_group (rtLabels rt)) ([], [], None, None) groups)) = group_auth rt groups"
proof (induction groups rule: rev_induct)
  case Nil
  then show ?case by (simp add: group_type_def group_auth_def matching_def)
next
  case (snoc g groups)
  then show ?case by (simp add: merge_group_sel group_type_def group_auth_def matching_def)
qed

lemma ToLower_modes: "ToLower u ''required'' = ''required''" "ToLower u ''public'' = ''public''"
proof -
  have "list_all ascii ''required''" "list_all ascii ''public''" "map byte_lower ''required'' = ''required''"
    "map byte_lower ''public'' = ''public''" by code_simp+
  then show "ToLower u ''required'' = ''required''" "ToLower u ''public'' = ''public''" by (simp_all add: ToLower_ascii)
qed

text \<open>Precedence: the route's own type and auth mode win, else those of the last matching group that
  sets them, else the defaults: the type follows from the handler, and a service route that nobody
  configured requires authentication.\<close>

theorem Resolve_precedence:
  assumes "Resolve u rt groups = Inr res"
  shows "rsType res = effective_type u rt (group_type rt groups)
    \<and> rsAuth res = effective_auth u rt (rsType res) (group_auth rt groups)
    \<and> (acAuth (rtAccess rt) = [] \<and> group_auth rt groups = [] \<longrightarrow>
         rsAuth res = (if rsType res = ''service'' then ''required'' else ''public''))"
proof (rule Resolve_cases [OF assms])
  fix gType gAuth gProj gDeny
  assume acc: "foldl (merge_group (rtLabels rt)) ([], [], None, None) groups = (gType, gAuth, gProj, gDeny)"
    and r: "rsType res = effective_type u rt gType" "rsAuth res = effective_auth u rt (rsType res) gAuth"
  have "gType = group_type rt groups" "gAuth = group_auth rt groups" using merge_last [of rt groups] acc by auto
  moreover have "effective_auth u rt t [] = (if t = ''service'' then ''required'' else ''public'')"
    if "acAuth (rtAccess rt) = []" for t
    using that by (simp add: effective_auth_def firstNonEmpty_def ToLower_modes)
  ultimately show ?thesis using r by auto
qed

definition demo_route :: "unit route" where
  "demo_route = \<lparr>rtName = ''api'', rtLabels = [(''tier'', ''be'')], rtMatch = ''/api/'', rtType = [],
     rtHandler = \<lparr>hsType = ''reverse-proxy'', hsConfig = ()\<rparr>, rtAccess = empty_access\<lparr>acAuthorize := [''p1'']\<rparr>\<rparr>"

definition demo_group :: route_group where
  "demo_group = \<lparr>rgName = ''g'', rgType = [], rgSelector = \<lparr>MatchLabels = [(''tier'', ''be'')], MatchExpressions = []\<rparr>,
     rgAccess = \<lparr>acAuth = [], acAuthorize = [''p2'', ''p1''], acProjection = None, acOnDeny = Some \<lparr>odRedirect = ''/no-access''\<rparr>\<rparr>\<rparr>"

lemma demo_resolved:
  "Resolve ascii_rune_lower demo_route [demo_group] = Inr \<lparr>rsType = ''service'', rsAuth = ''required'', rsProjection = None,
     rsAuthorize = [''p1'', ''p2''], rsOnDeny = Some \<lparr>odRedirect = ''/no-access''\<rparr>\<rparr>"
  by code_simp

theorem Resolve_enforceable_witness: "set [''p1'', ''p2''] =
    (set (acAuthorize (rtAccess demo_route)) \<union> (\<Union>g \<in> set (matching demo_route [demo_group]). set (acAuthorize (rgAccess g)))) - {[]}"
  using Resolve_enforceable [OF demo_resolved] by simp

theorem Resolve_precedence_witness: "''required'' = effective_auth ascii_rune_lower demo_route ''service'' (group_auth demo_route [demo_group])"
  using Resolve_precedence [OF demo_resolved] by simp

end
