(* ===== verification/Projection.thy ===== *)
theory Projection
  imports Route
begin

text \<open>
  Identity projection (\<^verbatim>\<open>src/auth/projection.go\<close>): the gate strips inbound \<open>X-User-*\<close> headers and
  writes the principal's own. Go ranges over the passport and over the configured claims in any order;
  the order of the association lists is that order. Header-name and value checks look at runes in the
  source and at bytes here: a byte below 0x80 is a rune of its own, a rune of several bytes is neither a
  token character nor a control character.
\<close>

definition invalidHeaderNameChar :: "char \<Rightarrow> bool" where
  "invalidHeaderNameChar c \<longleftrightarrow> \<not> tokenByte c"

definition setHeaderSafe :: "string \<Rightarrow> string \<Rightarrow> header \<Rightarrow> header" where
  "setHeaderSafe name val h =
     (if name = [] \<or> list_ex invalidHeaderNameChar name then h
      else if list_ex (\<lambda>c. byte c < 32 \<or> byte c = 127) val then h
      else hSet name val h)"

definition isScalar :: "any \<Rightarrow> bool" where
  "isScalar v = (case v of VNil \<Rightarrow> False | VList _ \<Rightarrow> False | VStrs _ \<Rightarrow> False | VMap _ \<Rightarrow> False | _ \<Rightarrow> True)"

definition stringify :: "any \<Rightarrow> string" where
  "stringify v = (case as_string v of Some s \<Rightarrow> s | None \<Rightarrow> Sprint v)"

definition canon :: "(nat \<Rightarrow> nat) \<Rightarrow> (nat \<Rightarrow> nat) \<Rightarrow> string \<Rightarrow> string" where
  "canon ulower uupper name =
     Join (map (\<lambda>part. if part = [] then part else ToUpper uupper (take 1 part) @ ToLower ulower (drop 1 part))
       (FieldsFunc name (\<lambda>c. c = CHR ''_'' \<or> c = CHR ''-''))) ''-''"

definition stripUserHeaders :: "header \<Rightarrow> header" where
  "stripUserHeaders h = hDelAll (filter (\<lambda>name. HasPrefix (CanonicalHeaderKey name) ''X-User-'') (map fst h)) h"

definition projectionSession :: "projection_config option \<Rightarrow> session_projection option" where
  "projectionSession proj = (case proj of None \<Rightarrow> None | Some p \<Rightarrow> pjSession p)"

definition groups_header :: "(nat \<Rightarrow> nat) \<Rightarrow> (nat \<Rightarrow> nat) \<Rightarrow> session_projection option \<Rightarrow> string \<Rightarrow> string" where
  "groups_header ulower uupper sp groupsAs =
     (case sp of
        Some s \<Rightarrow> (case spGroups s of
            Some g \<Rightarrow> if gpHeader g \<noteq> [] then gpHeader g else ''X-User-'' @ canon ulower uupper groupsAs
          | None \<Rightarrow> ''X-User-'' @ canon ulower uupper groupsAs)
      | None \<Rightarrow> ''X-User-'' @ canon ulower uupper groupsAs)"

text \<open>Override mode: clear every configured target, then set the claims the passport carries.\<close>

definition project_override :: "(string, string) gomap \<Rightarrow> claims \<Rightarrow> header \<Rightarrow> header" where
  "project_override cs passport h =
     foldl (\<lambda>h (claim, header). case gm_get passport claim of Some v \<Rightarrow> setHeaderSafe header (stringify v) h | None \<Rightarrow> h)
       (hDelAll (map snd cs) h) cs"

text \<open>Derive mode: one header per scalar claim that does not collide with a reserved one.\<close>

definition project_claim :: "(nat \<Rightarrow> nat) \<Rightarrow> (nat \<Rightarrow> nat) \<Rightarrow> string \<Rightarrow> header \<Rightarrow> string \<times> any \<Rightarrow> header" where
  "project_claim ulower uupper groupsHeader h kv =
     (let c = canon ulower uupper (fst kv); header = ''X-User-'' @ c in
      if c = [] then h
      else if header = ''X-User-Id'' \<or> header = groupsHeader then h
      else if \<not> isScalar (snd kv) then h
      else setHeaderSafe header (stringify (snd kv)) h)"

definition applyProjection :: "(nat \<Rightarrow> nat) \<Rightarrow> (nat \<Rightarrow> nat) \<Rightarrow> principal \<Rightarrow> projection_config option \<Rightarrow> string \<Rightarrow> header \<Rightarrow> header" where
  "applyProjection ulower uupper p proj groupsAs h =
     (let sp = projectionSession proj;
          gh = groups_header ulower uupper sp groupsAs;
          cs = (case sp of None \<Rightarrow> [] | Some s \<Rightarrow> spClaims s);
          h1 = (if cs \<noteq> [] then project_override cs (Passport p) h
                else foldl (project_claim ulower uupper gh) h (Passport p));
          h2 = setHeaderSafe ''X-User-Id'' (Subject p) h1;
          h3 = hDel gh h2
      in if Groups p \<noteq> [] then setHeaderSafe gh (Join (Groups p) '','') h3 else h3)"

definition project_header :: "(nat \<Rightarrow> nat) \<Rightarrow> (nat \<Rightarrow> nat) \<Rightarrow> projection_config option \<Rightarrow> string \<Rightarrow> principal option \<Rightarrow> header \<Rightarrow> header" where
  "project_header ulower uupper proj groupsAs0 p h =
     (let groupsAs = (if groupsAs0 = [] then ''groups'' else groupsAs0);
          h1 = stripUserHeaders h
      in case p of None \<Rightarrow> h1 | Some pr \<Rightarrow> applyProjection ulower uupper pr proj groupsAs h1)"

definition ProjectionGate :: "(nat \<Rightarrow> nat) \<Rightarrow> (nat \<Rightarrow> nat) \<Rightarrow> projection_config option \<Rightarrow> string \<Rightarrow> 'st middleware" where
  "ProjectionGate ulower uupper proj groupsAs next r w =
     next (mapHeader (project_header ulower uupper proj groupsAs (FromContext r)) r) w"

definition projection_step :: "(nat \<Rightarrow> nat) \<Rightarrow> (nat \<Rightarrow> nat) \<Rightarrow> projection_config option \<Rightarrow> string \<Rightarrow> request \<Rightarrow> 'st world \<Rightarrow> 'st step" where
  "projection_step ulower uupper proj groupsAs r w =
     Pass (mapHeader (project_header ulower uupper proj groupsAs (FromContext r)) r) w"

interpretation projectionF: filter_mw "ProjectionGate l u proj ga" "projection_step l u proj ga" for l u proj ga
  by unfold_locales (simp add: ProjectionGate_def projection_step_def)

section \<open>What a backend sees depends on the principal only\<close>

text \<open>Two header maps agree on a set of keys.\<close>

definition agree :: "(string \<Rightarrow> bool) \<Rightarrow> header \<Rightarrow> header \<Rightarrow> bool" where
  "agree P h h' \<longleftrightarrow> (\<forall>k. P k \<longrightarrow> gm_get h k = gm_get h' k)"

lemma agree_hSet: "agree P h h' \<Longrightarrow> agree P (hSet n v h) (hSet n v h')"
  by (simp add: agree_def gm_get_hSet)

lemma agree_setHeaderSafe: "agree P h h' \<Longrightarrow> agree P (setHeaderSafe n v h) (setHeaderSafe n v h')"
  by (simp add: setHeaderSafe_def agree_hSet)

lemma agree_foldl: "(\<And>h h' x. agree P h h' \<Longrightarrow> agree P (f h x) (f h' x)) \<Longrightarrow> agree P h h' \<Longrightarrow> agree P (foldl f h xs) (foldl f h' xs)"
  by (induction xs arbitrary: h h') auto

text \<open>What is cleared is no longer a difference.\<close>

lemma agree_cleared:
  "agree P h h' \<Longrightarrow> agree (\<lambda>k. P k \<or> k = CanonicalHeaderKey n) (hDel n h) (hDel n h')"
  "agree P h h' \<Longrightarrow> agree (\<lambda>k. P k \<or> k \<in> CanonicalHeaderKey ` set ns) (hDelAll ns h) (hDelAll ns h')"
  by (simp_all add: agree_def gm_get_hDel gm_get_hDelAll)

lemma agree_override:
  "agree P h h' \<Longrightarrow> agree (\<lambda>k. P k \<or> k \<in> CanonicalHeaderKey ` set (map snd cs)) (project_override cs ps h) (project_override cs ps h')"
  unfolding project_override_def
  by (rule agree_foldl [OF _ agree_cleared(2)]) (auto intro: agree_setHeaderSafe split: option.splits)

lemma agree_claim: "agree P h h' \<Longrightarrow> agree P (project_claim l u gh h kv) (project_claim l u gh h' kv)"
  by (simp add: project_claim_def Let_def agree_setHeaderSafe)

text \<open>The headers a projection is configured to write outside the derived ones: its claim targets and its groups header.\<close>

definition projection_targets :: "(nat \<Rightarrow> nat) \<Rightarrow> (nat \<Rightarrow> nat) \<Rightarrow> projection_config option \<Rightarrow> string \<Rightarrow> string list" where
  "projection_targets l u proj groupsAs =
     groups_header l u (projectionSession proj) (if groupsAs = [] then ''groups'' else groupsAs)
     # (case projectionSession proj of None \<Rightarrow> [] | Some s \<Rightarrow> map snd (spClaims s))"

lemma agree_applyProjection:
  assumes "agree P h h'"
  shows "agree (\<lambda>k. P k \<or> k \<in> CanonicalHeaderKey ` set (projection_targets l u proj ga))
    (applyProjection l u p proj (if ga = [] then ''groups'' else ga) h) (applyProjection l u p proj (if ga = [] then ''groups'' else ga) h')"
proof -
  define gh where "gh = groups_header l u (projectionSession proj) (if ga = [] then ''groups'' else ga)"
  define cs where "cs = (case projectionSession proj of None \<Rightarrow> [] | Some s \<Rightarrow> spClaims s)"
  define f where "f h = (if cs \<noteq> [] then project_override cs (Passport p) h else foldl (project_claim l u gh) h (Passport p))" for h
  let ?Q = "\<lambda>k. P k \<or> k \<in> CanonicalHeaderKey ` set (map snd cs)"
  have "agree ?Q (f h) (f h')"
  proof (cases "cs = []")
    case True
    have "agree P (foldl (project_claim l u gh) h (Passport p)) (foldl (project_claim l u gh) h' (Passport p))"
      using agree_claim assms by (rule agree_foldl)
    with True show ?thesis by (simp add: f_def)
  next
    case False
    with agree_override [OF assms, of cs "Passport p"] show ?thesis by (simp add: f_def)
  qed
  then have "agree ?Q (setHeaderSafe ''X-User-Id'' (Subject p) (f h)) (setHeaderSafe ''X-User-Id'' (Subject p) (f h'))"
    by (rule agree_setHeaderSafe)
  from agree_cleared(1) [OF this, of gh]
  have "agree (\<lambda>k. ?Q k \<or> k = CanonicalHeaderKey gh)
      (applyProjection l u p proj (if ga = [] then ''groups'' else ga) h) (applyProjection l u p proj (if ga = [] then ''groups'' else ga) h')"
    unfolding applyProjection_def Let_def gh_def [symmetric] cs_def [symmetric] f_def [symmetric]
    by (cases "Groups p = []") (simp_all add: agree_setHeaderSafe)
  moreover have "(\<lambda>k. ?Q k \<or> k = CanonicalHeaderKey gh) = (\<lambda>k. P k \<or> k \<in> CanonicalHeaderKey ` set (projection_targets l u proj ga))"
    by (auto simp: projection_targets_def gh_def cs_def fun_eq_iff split: option.splits)
  ultimately show ?thesis by simp
qed

lemma stripUserHeaders_gone:
  assumes "header_ok h" "HasPrefix k ''X-User-''"
  shows "gm_get (stripUserHeaders h) k = None"
proof (cases "k \<in> fst ` set h")
  case True
  then have "CanonicalHeaderKey k = k" using assms(1) by (auto simp: header_ok_def)
  with True assms(2) have "k \<in> CanonicalHeaderKey ` set (filter (\<lambda>name. HasPrefix (CanonicalHeaderKey name) ''X-User-'') (map fst h))"
    by (intro image_eqI [of _ _ k]) auto
  then show ?thesis by (simp add: stripUserHeaders_def gm_get_hDelAll)
next
  case False
  then have "gm_get h k = None" by (simp add: gm_get_None)
  then show ?thesis by (simp add: stripUserHeaders_def gm_get_hDelAll)
qed



lemma canonical_user_id: "CanonicalHeaderKey ''X-User-Id'' = ''X-User-Id''" "list_all tokenByte ''X-User-Id''"
  by code_simp+

lemma setHeaderSafe_other: "CanonicalHeaderKey n \<noteq> k \<Longrightarrow> gm_get (setHeaderSafe n v h) k = gm_get h k"
  by (auto simp: setHeaderSafe_def gm_get_hSet)

definition safe_value :: "string \<Rightarrow> bool" where
  "safe_value v \<longleftrightarrow> list_all (\<lambda>c. 32 \<le> byte c \<and> byte c \<noteq> 127) v"

lemma setHeaderSafe_same:
  "n \<noteq> [] \<Longrightarrow> list_all tokenByte n \<Longrightarrow> gm_get (setHeaderSafe n v h) (CanonicalHeaderKey n) =
     (if safe_value v then Some [v] else gm_get h (CanonicalHeaderKey n))"
  by (auto simp: setHeaderSafe_def gm_get_hSet safe_value_def list_ex_iff list_all_iff invalidHeaderNameChar_def not_less)

text \<open>The subject and the groups a backend sees are the principal's, whatever claims the passport carries
  and however they are mapped: \<open>X-User-Id\<close> is the subject, and the groups header holds the joined
  groups, or is absent when there are none or they cannot be written safely.\<close>

theorem projection_authoritative:
  assumes "gh = groups_header l u (projectionSession proj) (if ga = [] then ''groups'' else ga)"
    and "CanonicalHeaderKey gh \<noteq> ''X-User-Id''" "safe_value (Subject p)" "gh \<noteq> []" "list_all tokenByte gh"
  shows "gm_get (project_header l u proj ga (Some p) h) ''X-User-Id'' = Some [Subject p]
    \<and> gm_get (project_header l u proj ga (Some p) h) (CanonicalHeaderKey gh) =
        (if Groups p \<noteq> [] \<and> safe_value (Join (Groups p) '','') then Some [Join (Groups p) '',''] else None)"
proof -
  define h1 where "h1 = (let sp = projectionSession proj; cs = (case sp of None \<Rightarrow> [] | Some s \<Rightarrow> spClaims s) in
      if cs \<noteq> [] then project_override cs (Passport p) (stripUserHeaders h)
      else foldl (project_claim l u gh) (stripUserHeaders h) (Passport p))"
  have h1: "project_header l u proj ga (Some p) h =
      (let h3 = hDel gh (setHeaderSafe ''X-User-Id'' (Subject p) h1)
       in if Groups p \<noteq> [] then setHeaderSafe gh (Join (Groups p) '','') h3 else h3)"
    by (simp add: project_header_def applyProjection_def Let_def assms(1) h1_def)
  have id: "gm_get (setHeaderSafe ''X-User-Id'' (Subject p) h1) ''X-User-Id'' = Some [Subject p]"
    using setHeaderSafe_same [of "''X-User-Id''" "Subject p" h1] canonical_user_id assms(3) by simp
  show ?thesis
    using assms(2,4,5) id unfolding h1
    by (auto simp: Let_def gm_get_hDel setHeaderSafe_other setHeaderSafe_same)
qed

theorem projection_authoritative_witness:
  "gm_get (project_header ascii_rune_lower (\<lambda>r. if 97 \<le> r \<and> r \<le> 122 then r - 32 else r) None []
     (Some \<lparr>Subject = ''ann'', Passport = [(''id'', VStr ''root''), (''groups'', VStr ''admin'')], Groups = [''ops'', ''dev''],
        AccessToken = [], SessionID = []\<rparr>) []) ''X-User-Id'' = Some [''ann'']"
proof -
  let ?u = "\<lambda>r :: nat. if 97 \<le> r \<and> r \<le> 122 then r - 32 else r"
  let ?p = "\<lparr>Subject = ''ann'', Passport = [(''id'', VStr ''root''), (''groups'', VStr ''admin'')], Groups = [''ops'', ''dev''],
        AccessToken = [], SessionID = []\<rparr>"
  have gh: "''X-User-Groups'' = groups_header ascii_rune_lower ?u (projectionSession None) (if ([] :: string) = [] then ''groups'' else [])"
    by code_simp
  have "CanonicalHeaderKey ''X-User-Groups'' \<noteq> ''X-User-Id''" "safe_value (Subject ?p)" "list_all tokenByte ''X-User-Groups''"
    by code_simp+
  then show ?thesis using projection_authoritative [OF gh, of ?p "[]"] by simp
qed

text \<open>Headers the projection is configured to own outside \<open>X-User-*\<close> are only cleared when there is a
  principal: on an anonymous request to a public route the client's own value reaches the backend.\<close>

theorem override_target_spoofable_anonymous:
  "gm_get (project_header l u (Some \<lparr>pjSession = Some \<lparr>spClaims = [(''email'', ''X-Email'')], spGroups = None\<rparr>\<rparr>) ga None
     [(''X-Email'', [''root@corp''])]) ''X-Email'' = Some [''root@corp'']"
  by (simp add: project_header_def stripUserHeaders_def hDelAll_def) code_simp

end
