(* ===== verification/Authz.thy ===== *)
theory Authz
  imports Projection
begin

text \<open>
  Authorization (\<^verbatim>\<open>src/authz\<close>): the built-in require rule, the policy engine, the compiled policies
  and the gate. OPA is an argument: \<open>opa\<close> bundles its loader, compiler and the preparation of a
  query, and a prepared query maps an input document to an error or to its result set, a list of the
  values of the expressions of each result. Denials are also logged and recorded on a span, which is left out.
\<close>

section \<open>The require rule\<close>

record require =
  rqGroups :: "string list"
  rqClaims :: "(string, string list) gomap"

text \<open>\<open>StringOrList.UnmarshalYAML\<close>: a scalar node gives one string, any other is decoded as a list.\<close>

definition StringOrList_Unmarshal :: "bool \<Rightarrow> (string, string) result \<Rightarrow> (string, string list) result \<Rightarrow> (string, string list) result" where
  "StringOrList_Unmarshal scalar one many = (if scalar then bindR one (\<lambda>s. Inr [s]) else many)"

definition Require_Empty :: "require \<Rightarrow> bool" where
  "Require_Empty r \<longleftrightarrow> rqGroups r = [] \<and> rqClaims r = []"

fun anyGroup :: "string list \<Rightarrow> string list \<Rightarrow> bool" where
  "anyGroup have [] = False"
| "anyGroup have (w # want) = (if w \<in> set have then True else anyGroup have want)"

definition containsStr :: "string list \<Rightarrow> string \<Rightarrow> bool" where
  "containsStr list v \<longleftrightarrow> v \<in> set list"

fun claims_hold :: "(string, string list) gomap \<Rightarrow> claims \<Rightarrow> bool" where
  "claims_hold [] passport = True"
| "claims_hold ((claim, allowed) # cs) passport =
     (case gm_get passport claim of
        None \<Rightarrow> False
      | Some v \<Rightarrow> if \<not> containsStr allowed (stringify v) then False else claims_hold cs passport)"

definition Satisfied :: "require \<Rightarrow> principal option \<Rightarrow> bool" where
  "Satisfied r p =
     (if Require_Empty r then True
      else case p of
        None \<Rightarrow> False
      | Some pr \<Rightarrow>
          if rqGroups r \<noteq> [] \<and> \<not> anyGroup (Groups pr) (rqGroups r) then False
          else claims_hold (rqClaims r) (Passport pr))"

section \<open>The engine\<close>

type_synonym query = "any \<Rightarrow> (string, any list list) result"

record ('m, 'c) opa =
  opLoad :: "string \<Rightarrow> (string, 'm list) result"
  opCompile :: "'m list \<Rightarrow> (string, 'c) result"
  opDenyRules :: "'c \<Rightarrow> nat"
  opPrepare :: "'c \<Rightarrow> (string, query) result"

datatype engine_error =
    LoadRego string string | NoModules string | CompileRego string string | NoDenyRule string | PrepareRego string string

definition NewEngine :: "('m, 'c) opa \<Rightarrow> string \<Rightarrow> (engine_error, query option) result" where
  "NewEngine opa path =
     (if path = [] then Inr None
      else
        bindR (mapErr (LoadRego path) (opLoad opa path)) (\<lambda>modules.
        guardR (modules = []) (NoModules path) (
        bindR (mapErr (CompileRego path) (opCompile opa modules)) (\<lambda>compiler.
        guardR (opDenyRules opa compiler = 0) (NoDenyRule path) (
        bindR (mapErr (PrepareRego path) (opPrepare opa compiler)) (\<lambda>pq.
        Inr (Some pq)))))))"

datatype eval_error = QueryError string | NotASet

definition Eval :: "query \<Rightarrow> any \<Rightarrow> (eval_error, string list) result" where
  "Eval q input =
     bindR (mapErr QueryError (q input)) (\<lambda>rs.
     case rs of
       [] \<Rightarrow> Inr []
     | [] # _ \<Rightarrow> Inr []
     | (v # _) # _ \<Rightarrow>
         (case v of
            VList vs \<Rightarrow> Inr (map (\<lambda>v. case as_string v of Some s \<Rightarrow> s | None \<Rightarrow> Sprint v) vs)
          | _ \<Rightarrow> Inl NotASet))"

section \<open>Policies\<close>

record policy =
  plName :: string
  plRequire :: "require option"
  plEngine :: "query option"

record policy_spec =
  psRequire :: "require option"
  psRego :: "string option"

datatype policy_error =
    PolicyDecode string string | EmptyRequire string | NeitherTier string | EmptyClaim string string
  | DuplicatePolicy string | PolicyEngine string engine_error

definition empty_claim :: "require option \<Rightarrow> string option" where
  "empty_claim rq = (case rq of None \<Rightarrow> None | Some r \<Rightarrow> map_option fst (List.find (\<lambda>(claim, vals). vals = []) (rqClaims r)))"

definition compile_one :: "('n \<Rightarrow> (string, policy_spec) result) \<Rightarrow> ('m, 'c) opa \<Rightarrow> (string, policy) gomap \<Rightarrow> 'n resource
    \<Rightarrow> (policy_error, (string, policy) gomap) result" where
  "compile_one dec opa out r =
     (let name = Name (Metadata r) in
      bindR (mapErr (PolicyDecode name) (dec (Spec r))) (\<lambda>spec.
      let hasRego = (case psRego spec of None \<Rightarrow> False | Some path \<Rightarrow> path \<noteq> []) in
      guardR (case psRequire spec of None \<Rightarrow> False | Some q \<Rightarrow> Require_Empty q) (EmptyRequire name) (
      guardR (psRequire spec = None \<and> \<not> hasRego) (NeitherTier name) (
      guardR (empty_claim (psRequire spec) \<noteq> None) (EmptyClaim name (the (empty_claim (psRequire spec)))) (
      guardR (gm_get out name \<noteq> None) (DuplicatePolicy name) (
      bindR (if hasRego then mapErr (PolicyEngine name) (NewEngine opa (the (psRego spec))) else Inr None) (\<lambda>eng.
      Inr (gm_set name \<lparr>plName = name, plRequire = psRequire spec, plEngine = eng\<rparr> out))))))))"

definition Compile :: "('n \<Rightarrow> (string, policy_spec) result) \<Rightarrow> ('m, 'c) opa \<Rightarrow> 'n resource list \<Rightarrow> (policy_error, (string, policy) gomap) result" where
  "Compile dec opa resources = foldR (compile_one dec opa) [] resources"

definition Decision :: "policy \<Rightarrow> principal option \<Rightarrow> any \<Rightarrow> bool \<times> string \<times> eval_error option" where
  "Decision pol p input =
     (if (case plRequire pol of None \<Rightarrow> False | Some r \<Rightarrow> \<not> Satisfied r p)
      then (True, ''require not satisfied'', None)
      else case plEngine pol of
        None \<Rightarrow> (False, [], None)
      | Some q \<Rightarrow>
          (case Eval q input of
             Inl e \<Rightarrow> (True, ''policy evaluation error'', Some e)
           | Inr reasons \<Rightarrow> if reasons \<noteq> [] then (True, Join reasons ''; '', None) else (False, [], None)))"

section \<open>The gate\<close>

definition buildInput :: "principal option \<Rightarrow> request \<Rightarrow> string \<Rightarrow> labels \<Rightarrow> any" where
  "buildInput p r routeName labels =
     VMap [(''subject'', VStr (case p of None \<Rightarrow> [] | Some pr \<Rightarrow> Subject pr)),
           (''groups'', VStrs (case p of None \<Rightarrow> [] | Some pr \<Rightarrow> Groups pr)),
           (''claims'', VMap (case p of None \<Rightarrow> [] | Some pr \<Rightarrow> Passport pr)),
           (''request'', VMap [(''method'', VStr (rMethod r)), (''path'', VStr (rPath r)), (''route'', VStr (rPattern r)),
              (''route_name'', VStr routeName), (''labels'', VMap (map (\<lambda>(k, v). (k, VStr v)) labels))])]"

fun authz_loop :: "principal option \<Rightarrow> any \<Rightarrow> string \<Rightarrow> policy list \<Rightarrow> request \<Rightarrow> 'st world \<Rightarrow> 'st step" where
  "authz_loop p input denyRedirect [] r w = Pass r w"
| "authz_loop p input denyRedirect (pol # pols) r w =
     (case Decision pol p input of (deny, reason, err) \<Rightarrow>
        if \<not> deny then authz_loop p input denyRedirect pols r w
        else if denyRedirect \<noteq> [] \<and> err = None then Answer (Redirect denyRedirect 302 w)
        else Answer (httpError ''forbidden'' 403 w))"

definition Gate :: "policy list \<Rightarrow> string \<Rightarrow> labels \<Rightarrow> string \<Rightarrow> 'st middleware" where
  "Gate policies routeName labels denyRedirect next r w =
     (if policies = [] then next r w
      else run_step (authz_loop (FromContext r) (buildInput (FromContext r) r routeName labels) denyRedirect policies r w) next)"

interpretation authzF: filter_mw "Gate ps n ls d"
    "\<lambda>r w. authz_loop (FromContext r) (buildInput (FromContext r) r n ls) d ps r w" for ps n ls d
  by unfold_locales (simp add: Gate_def)

section \<open>The rule\<close>

lemma anyGroup_iff: "anyGroup have want \<longleftrightarrow> set have \<inter> set want \<noteq> {}"
  by (induction want) auto

lemma claims_hold_iff:
  "claims_hold cs ps \<longleftrightarrow> (\<forall>(claim, allowed) \<in> set cs. \<exists>v. gm_get ps claim = Some v \<and> stringify v \<in> set allowed)"
  by (induction cs ps rule: claims_hold.induct) (auto simp: containsStr_def split: option.splits)

text \<open>The require rule: an empty rule holds for everybody; any other rule holds for nobody anonymous, and
  for a principal exactly when it shares a group with the listed ones (if any are listed) and every
  constrained claim is present with one of its allowed values.\<close>

theorem Satisfied_iff:
  "Satisfied rq p \<longleftrightarrow> Require_Empty rq \<or>
     (\<exists>pr. p = Some pr \<and> (rqGroups rq = [] \<or> set (Groups pr) \<inter> set (rqGroups rq) \<noteq> {})
        \<and> (\<forall>(claim, allowed) \<in> set (rqClaims rq). \<exists>v. gm_get (Passport pr) claim = Some v \<and> stringify v \<in> set allowed))"
  by (cases p) (auto simp: Satisfied_def anyGroup_iff claims_hold_iff)

theorem Satisfied_iff_witness:
  "\<not> Satisfied \<lparr>rqGroups = [''ops''], rqClaims = [(''dept'', [''it''])]\<rparr>
     (Some \<lparr>Subject = ''ann'', Passport = [(''dept'', VStr ''hr'')], Groups = [''ops''], AccessToken = [], SessionID = []\<rparr>)"
  by (subst Satisfied_iff) (simp add: Require_Empty_def stringify_def as_string_def)

section \<open>The gate\<close>

definition allows :: "principal option \<Rightarrow> any \<Rightarrow> policy \<Rightarrow> bool" where
  "allows p input pol \<longleftrightarrow> \<not> fst (Decision pol p input)"

lemma allows_iff:
  "allows p input pol \<longleftrightarrow> (\<forall>rq. plRequire pol = Some rq \<longrightarrow> Satisfied rq p) \<and> (\<forall>q. plEngine pol = Some q \<longrightarrow> Eval q input = Inr [])"
  by (auto simp: allows_def Decision_def split: option.splits sum.splits)

lemma authz_loop_cases:
  "authz_loop p input d pols r w = Pass r w \<and> (\<forall>pol \<in> set pols. allows p input pol) \<or>
   (\<exists>pol \<in> set pols. \<not> allows p input pol \<and>
      authz_loop p input d pols r w = Answer (if d \<noteq> [] \<and> snd (snd (Decision pol p input)) = None then Redirect d 302 w else httpError ''forbidden'' 403 w))"
proof (induction pols)
  case (Cons pol pols)
  obtain deny reason err where dec: "Decision pol p input = (deny, reason, err)" by (cases "Decision pol p input")
  then have "allows p input pol \<longleftrightarrow> \<not> deny" by (simp add: allows_def)
  with dec Cons show ?case by (cases deny) auto
qed simp

text \<open>C12. The gate lets a request through exactly when every policy of the route allows it: its require rule
  holds and its engine evaluates, without error, to an empty deny set. Otherwise the inner handlers
  are not called and the answer is 403, or a 302 to the configured target when the denying policy did
  not fail to evaluate: an evaluation error never becomes a redirect or a pass.\<close>

theorem Gate_enforces:
  assumes "wStatus (resp w) = None"
  shows "if \<forall>pol \<in> set pols. (\<forall>rq. plRequire pol = Some rq \<longrightarrow> Satisfied rq (FromContext r)) \<and>
             (\<forall>q. plEngine pol = Some q \<longrightarrow> Eval q (buildInput (FromContext r) r n ls) = Inr [])
         then Gate pols n ls d next r w = next r w
         else \<exists>w'. Gate pols n ls d next r w = Done w' \<and>
           (wStatus (resp w') = Some 403 \<or> wStatus (resp w') = Some 302 \<and> wGet w' ''Location'' = d \<and> d \<noteq> [] \<and>
              (\<exists>pol \<in> set pols. \<not> allows (FromContext r) (buildInput (FromContext r) r n ls) pol \<and>
                 snd (snd (Decision pol (FromContext r) (buildInput (FromContext r) r n ls))) = None))"
proof (cases "pols = []")
  case True
  then show ?thesis by (simp add: Gate_def)
next
  case False
  let ?p = "FromContext r" and ?i = "buildInput (FromContext r) r n ls"
  have all: "(\<forall>pol \<in> set pols. (\<forall>rq. plRequire pol = Some rq \<longrightarrow> Satisfied rq ?p) \<and> (\<forall>q. plEngine pol = Some q \<longrightarrow> Eval q ?i = Inr []))
      \<longleftrightarrow> (\<forall>pol \<in> set pols. allows ?p ?i pol)"
    by (simp add: allows_iff)
  from authz_loop_cases [of ?p ?i d pols r w] show ?thesis
  proof
    assume "authz_loop ?p ?i d pols r w = Pass r w \<and> (\<forall>pol \<in> set pols. allows ?p ?i pol)"
    with False show ?thesis unfolding all by (simp add: Gate_def)
  next
    assume "\<exists>pol \<in> set pols. \<not> allows ?p ?i pol \<and>
      authz_loop ?p ?i d pols r w = Answer (if d \<noteq> [] \<and> snd (snd (Decision pol ?p ?i)) = None then Redirect d 302 w else httpError ''forbidden'' 403 w)"
    then obtain pol where pol: "pol \<in> set pols" "\<not> allows ?p ?i pol" "authz_loop ?p ?i d pols r w =
        Answer (if d \<noteq> [] \<and> snd (snd (Decision pol ?p ?i)) = None then Redirect d 302 w else httpError ''forbidden'' 403 w)" by blast
    then have "\<not> (\<forall>pol \<in> set pols. allows ?p ?i pol)" by blast
    with pol False assms show ?thesis
      unfolding all by (auto simp: Gate_def httpError_status Redirect_status wGet_Redirect)
  qed
qed

definition demo_policy :: policy where
  "demo_policy = \<lparr>plName = ''ops'', plRequire = Some \<lparr>rqGroups = [''ops''], rqClaims = []\<rparr>, plEngine = None\<rparr>"

theorem Gate_enforces_witness:
  "\<exists>w'. Gate [demo_policy] ''r'' [] [] (\<lambda>r w. Done w) demo_request (demo_world ()) = Done w' \<and> wStatus (resp w') = Some 403"
proof -
  have "\<not> Satisfied \<lparr>rqGroups = [''ops''], rqClaims = []\<rparr> (FromContext demo_request)" "wStatus (resp (demo_world ())) = None"
    by code_simp+
  then show ?thesis
    using Gate_enforces [of "demo_world ()" "[demo_policy]" demo_request "''r''" "[]" "[]" "\<lambda>r w. Done w"]
    by (auto simp: demo_policy_def)
qed

text \<open>The order in which a route lists its policies does not decide whether a request gets through.\<close>

theorem Gate_order_irrelevant:
  assumes "set pols = set pols'"
  shows "(Gate pols n ls d next r w = next r w \<or> (\<exists>w'. Gate pols n ls d next r w = Done w'))
    \<and> ((\<exists>pol \<in> set pols. \<not> allows (FromContext r) (buildInput (FromContext r) r n ls) pol) \<longleftrightarrow>
       (\<exists>w1. authz_loop (FromContext r) (buildInput (FromContext r) r n ls) d pols' r w = Answer w1))"
proof -
  let ?p = "FromContext r" and ?i = "buildInput (FromContext r) r n ls"
  have "Gate pols n ls d next r w = next r w \<or> (\<exists>w'. Gate pols n ls d next r w = Done w')"
    using authz_loop_cases [of ?p ?i d pols r w] by (auto simp: Gate_def)
  moreover have "(\<exists>pol \<in> set pols'. \<not> allows ?p ?i pol) \<longleftrightarrow> (\<exists>w1. authz_loop ?p ?i d pols' r w = Answer w1)"
    using authz_loop_cases [of ?p ?i d pols' r w] by auto
  ultimately show ?thesis using assms by simp
qed

theorem Gate_order_irrelevant_witness:
  "\<exists>w1. authz_loop None (buildInput None demo_request [] []) [] [demo_policy\<lparr>plRequire := None\<rparr>, demo_policy] demo_request (demo_world ()) = Answer w1"
proof -
  have f: "FromContext demo_request = None" by (simp add: demo_request_def FromContext_def)
  have "\<not> allows None (buildInput None demo_request [] []) demo_policy"
    by (simp add: allows_iff demo_policy_def Satisfied_def Require_Empty_def)
  then show ?thesis
    using Gate_order_irrelevant [of "[demo_policy, demo_policy\<lparr>plRequire := None\<rparr>]" "[demo_policy\<lparr>plRequire := None\<rparr>, demo_policy]"
        "[]" "[]" "[]" "\<lambda>r w. Done w" demo_request "demo_world ()"] unfolding f
    by (simp add: insert_commute)
qed

text \<open>What a policy sees never contains a credential: the input document is the same for principals that
  differ only in access token or session id; and subject, groups, claims and request are always present.\<close>

theorem buildInput_no_token:
  "buildInput (Some (p\<lparr>AccessToken := t, SessionID := s\<rparr>)) r n ls = buildInput (Some p) r n ls
   \<and> (\<exists>m. buildInput q r n ls = VMap m \<and> map fst m = [''subject'', ''groups'', ''claims'', ''request''])"
  by (simp add: buildInput_def)

section \<open>The engine fails closed\<close>

text \<open>An engine allows only when its query yields no result or the empty set: a value that is not a set is
  an error, a query error is an error, and a non-empty set always gives as many reasons as members.\<close>

theorem Eval_fail_closed:
  "(Eval q input = Inr [] \<longleftrightarrow>
      q input = Inr [] \<or> (\<exists>rest. q input = Inr ([] # rest)) \<or> (\<exists>es rest. q input = Inr ((VList [] # es) # rest)))
   \<and> (\<forall>vs es rest. q input = Inr ((VList vs # es) # rest) \<longrightarrow> (\<exists>rs. Eval q input = Inr rs \<and> length rs = length vs))"
proof (cases "q input")
  case (Inl e)
  then show ?thesis by (simp add: Eval_def)
next
  case (Inr rs)
  then show ?thesis
    by (cases rs) (auto simp: Eval_def split: list.splits any.splits)
qed

theorem Eval_fail_closed_witness: "\<exists>rs. Eval (\<lambda>i. Inr [[VList [VNum ''42'']]]) VNil = Inr rs \<and> length rs = 1"
  using Eval_fail_closed [of "\<lambda>i. Inr [[VList [VNum ''42'']]]" VNil] by auto

section \<open>Compiled policies\<close>

definition policy_wf :: "policy \<Rightarrow> bool" where
  "policy_wf pol \<longleftrightarrow> (plRequire pol \<noteq> None \<or> plEngine pol \<noteq> None)
     \<and> (\<forall>rq. plRequire pol = Some rq \<longrightarrow> \<not> Require_Empty rq \<and> (\<forall>(claim, vals) \<in> set (rqClaims rq). vals \<noteq> []))"

text \<open>The engine of a file of rules: it loads, holds at least one module, compiles, declares at least one deny rule, and its
  query is the one prepared from it.\<close>

definition engine_of :: "('m, 'c) opa \<Rightarrow> string \<Rightarrow> query \<Rightarrow> bool" where
  "engine_of opa path q \<longleftrightarrow> (\<exists>modules compiler. opLoad opa path = Inr modules \<and> modules \<noteq> [] \<and> opCompile opa modules = Inr compiler
     \<and> 0 < opDenyRules opa compiler \<and> opPrepare opa compiler = Inr q)"

definition rego_path :: "policy_spec \<Rightarrow> string" where
  "rego_path spec = (case psRego spec of None \<Rightarrow> [] | Some path \<Rightarrow> path)"

text \<open>The policy a resource declares: its own rule, and the engine of its own file exactly when it names one.\<close>

definition declares :: "('n \<Rightarrow> (string, policy_spec) result) \<Rightarrow> ('m, 'c) opa \<Rightarrow> 'n resource \<Rightarrow> policy \<Rightarrow> bool" where
  "declares dec opa r pol \<longleftrightarrow> (\<exists>spec. dec (Spec r) = Inr spec \<and> plName pol = Name (Metadata r) \<and> plRequire pol = psRequire spec
     \<and> (if rego_path spec = [] then plEngine pol = None else \<exists>q. plEngine pol = Some q \<and> engine_of opa (rego_path spec) q))"

lemma NewEngine_engine: "NewEngine opa path = Inr eng \<Longrightarrow> path \<noteq> [] \<Longrightarrow> \<exists>q. eng = Some q \<and> engine_of opa path q"
  by (auto simp: NewEngine_def result_inr engine_of_def)

lemma empty_claim_None: "empty_claim (Some rq) = None \<Longrightarrow> (claim, vals) \<in> set (rqClaims rq) \<Longrightarrow> vals \<noteq> []"
  by (auto simp: empty_claim_def find_None_iff)

lemma compile_one_wf:
  assumes "compile_one dec opa out r = Inr out'"
  obtains pol where "out' = gm_set (Name (Metadata r)) pol out" "declares dec opa r pol" "policy_wf pol"
    "gm_get out (Name (Metadata r)) = None"
proof -
  let ?name = "Name (Metadata r)"
  from assms obtain spec :: policy_spec and eng where dec: "dec (Spec r) = Inr spec"
    and req: "\<not> (case psRequire spec of None \<Rightarrow> False | Some q \<Rightarrow> Require_Empty q)"
    and tier: "\<not> (psRequire spec = None \<and> \<not> (case psRego spec of None \<Rightarrow> False | Some path \<Rightarrow> path \<noteq> []))"
    and claims: "empty_claim (psRequire spec) = None" and dup: "gm_get out ?name = None"
    and eng: "(if (case psRego spec of None \<Rightarrow> False | Some path \<Rightarrow> path \<noteq> [])
       then mapErr (PolicyEngine ?name) (NewEngine opa (the (psRego spec))) else Inr None) = Inr eng"
    and out': "out' = gm_set ?name \<lparr>plName = ?name, plRequire = psRequire spec, plEngine = eng\<rparr> out"
    unfolding compile_one_def Let_def bindR_eq_Inr guardR_eq_Inr mapErr_eq_Inr sum.inject not_not by blast
  let ?pol = "\<lparr>plName = ?name, plRequire = psRequire spec, plEngine = eng\<rparr>"
  have e: "if rego_path spec = [] then eng = None else \<exists>q. eng = Some q \<and> engine_of opa (rego_path spec) q"
    using eng NewEngine_engine [of opa "rego_path spec" eng] by (auto simp: rego_path_def split: option.splits if_splits)
  then have "declares dec opa r ?pol" using dec by (simp add: declares_def)
  moreover have "policy_wf ?pol"
    using req tier claims e empty_claim_None by (auto simp: policy_wf_def rego_path_def split: option.splits if_splits)
  ultimately show ?thesis using that out' dup by blast
qed

lemma Compile_fold:
  assumes "foldR (compile_one dec opa) out rs = Inr m"
  shows "(\<forall>n pol. gm_get out n = Some pol \<longrightarrow> gm_get m n = Some pol)
    \<and> (\<forall>r \<in> set rs. \<exists>pol. gm_get m (Name (Metadata r)) = Some pol \<and> declares dec opa r pol \<and> policy_wf pol)
    \<and> dom (gm_get m) = dom (gm_get out) \<union> (\<lambda>r. Name (Metadata r)) ` set rs
    \<and> distinct (map (\<lambda>r. Name (Metadata r)) rs) \<and> dom (gm_get out) \<inter> (\<lambda>r. Name (Metadata r)) ` set rs = {}"
  using assms
proof (induction rs arbitrary: out)
  case (Cons r rs)
  then obtain out' where o: "compile_one dec opa out r = Inr out'" "foldR (compile_one dec opa) out' rs = Inr m"
    by (auto split: sum.splits)
  from compile_one_wf [OF o(1)] obtain pol where p: "out' = gm_set (Name (Metadata r)) pol out" "declares dec opa r pol" "policy_wf pol"
    "gm_get out (Name (Metadata r)) = None" .
  then have g: "gm_get out' n = (if n = Name (Metadata r) then Some pol else gm_get out n)" for n by (simp add: gm_get_set)
  then have d: "dom (gm_get out') = insert (Name (Metadata r)) (dom (gm_get out))" by (auto split: if_splits)
  note ih = Cons.IH [OF o(2)]
  have "\<forall>n pol. gm_get out n = Some pol \<longrightarrow> gm_get m n = Some pol"
    using ih p(4) g by (metis option.distinct(1))
  moreover have "gm_get m (Name (Metadata r)) = Some pol" using ih g by simp
  moreover have "dom (gm_get m) = dom (gm_get out) \<union> (\<lambda>r. Name (Metadata r)) ` set (r # rs)" using ih d by auto
  moreover have "distinct (map (\<lambda>r. Name (Metadata r)) (r # rs)) \<and> dom (gm_get out) \<inter> (\<lambda>r. Name (Metadata r)) ` set (r # rs) = {}"
    using ih d p(4) by auto
  ultimately show ?case using ih p(2,3) by simp
qed simp

text \<open>C27. The compiled policies are exactly the declared ones. There is one policy per Policy resource, under its name and under no
  other; it carries that resource's own require rule, and an engine exactly when the resource names a file of rules: the query
  prepared from that file, which loaded, compiled and declares at least one deny rule. None is vacuous: each has a rule or an
  engine, no rule is empty or has a claim without values, and so no compiled rule lets an anonymous request through.\<close>

theorem Compile_sound:
  assumes "Compile dec opa rs = Inr m"
  shows "distinct (map (\<lambda>r. Name (Metadata r)) rs) \<and> dom (gm_get m) = (\<lambda>r. Name (Metadata r)) ` set rs
    \<and> (\<forall>r \<in> set rs. \<exists>pol. gm_get m (Name (Metadata r)) = Some pol \<and> declares dec opa r pol \<and> policy_wf pol
         \<and> (\<forall>rq. plRequire pol = Some rq \<longrightarrow> \<not> Satisfied rq None))"
proof -
  have "policy_wf pol \<Longrightarrow> plRequire pol = Some rq \<Longrightarrow> \<not> Satisfied rq None" for pol rq
    by (simp add: policy_wf_def Satisfied_def)
  moreover note Compile_fold [OF assms [unfolded Compile_def]]
  ultimately show ?thesis by simp blast
qed

definition demo_policy_resource :: "unit resource" where
  "demo_policy_resource = \<lparr>APIVersion = [], Kind = ''Policy'', Metadata = \<lparr>Name = ''ops'', Labels = []\<rparr>, Spec = ()\<rparr>"

definition demo_opa :: "(unit, unit) opa" where
  "demo_opa = \<lparr>opLoad = (\<lambda>p. Inl ''no file''), opCompile = (\<lambda>ms. Inr ()), opDenyRules = (\<lambda>c. 0),
     opPrepare = (\<lambda>c. Inr (\<lambda>i. Inr []))\<rparr>"

definition demo_rules :: "(unit, unit) opa" where
  "demo_rules = demo_opa\<lparr>opLoad := (\<lambda>p. Inr [()]), opDenyRules := (\<lambda>c. 1)\<rparr>"

theorem Compile_sound_witness:
  "\<exists>m pol. Compile (\<lambda>n. Inr \<lparr>psRequire = Some \<lparr>rqGroups = [''ops''], rqClaims = []\<rparr>, psRego = Some ''ops.rego''\<rparr>)
      demo_rules [demo_policy_resource] = Inr m \<and> gm_get m ''ops'' = Some pol
      \<and> plRequire pol = Some \<lparr>rqGroups = [''ops''], rqClaims = []\<rparr> \<and> plEngine pol \<noteq> None"
proof -
  let ?dec = "\<lambda>n :: unit. Inr \<lparr>psRequire = Some \<lparr>rqGroups = [''ops''], rqClaims = []\<rparr>, psRego = Some ''ops.rego''\<rparr>"
  obtain m where m: "Compile ?dec demo_rules [demo_policy_resource] = Inr m"
    by (simp add: Compile_def compile_one_def Let_def demo_policy_resource_def Require_Empty_def empty_claim_def NewEngine_def
        demo_rules_def demo_opa_def guardR_def)
  with Compile_sound [OF this] show ?thesis
    by (auto simp: demo_policy_resource_def declares_def rego_path_def split: if_splits)
qed

end
