(* ===== verification/Security.thy ===== *)
theory Security
  imports Chain
begin

text \<open>
  The security stage (\<^verbatim>\<open>src/security/security.go\<close>): cross-origin protection and response
  headers. \<open>http.CrossOriginProtection\<close> is modelled as it is documented: safe methods pass; with a
  \<open>Sec-Fetch-Site\<close> header only \<open>same-origin\<close> and \<open>none\<close> pass; without one, the
  host of the Origin header must be the host of the request; trusted origins and bypass patterns are exempt. The
  syntax checks of origins and patterns, the host of an origin and the pattern matching of the request
  multiplexer are arguments.
\<close>

section \<open>Configuration\<close>

record csrf_config =
  csEnabled :: "bool option"
  csTrustedOrigins :: "string list"
  csBypassPatterns :: "string list"

record hsts_config =
  hsEnabled :: "bool option"
  hsMaxAge :: "int option"
  hsIncludeSubDomains :: "bool option"
  hsPreload :: bool

record headers_config =
  hcFrameOptions :: "string option"
  hcContentTypeOptions :: "string option"
  hcReferrerPolicy :: "string option"
  hcHSTS :: hsts_config
  hcContentSecurityPolicy :: string

record security_config =
  seCSRF :: csrf_config
  seHeaders :: headers_config

definition default_security :: security_config where
  "default_security = \<lparr>seCSRF = \<lparr>csEnabled = None, csTrustedOrigins = [], csBypassPatterns = []\<rparr>,
     seHeaders = \<lparr>hcFrameOptions = None, hcContentTypeOptions = None, hcReferrerPolicy = None,
       hcHSTS = \<lparr>hsEnabled = None, hsMaxAge = None, hsIncludeSubDomains = None, hsPreload = False\<rparr>,
       hcContentSecurityPolicy = []\<rparr>\<rparr>"

text \<open>\<open>None\<close> is the zero YAML node.\<close>

definition security_Parse :: "('n \<Rightarrow> (string, security_config) result) \<Rightarrow> 'n option \<Rightarrow> (string, security_config) result" where
  "security_Parse dec node = (case node of None \<Rightarrow> Inr default_security | Some n \<Rightarrow> dec n)"

definition deref :: "'a option \<Rightarrow> 'a \<Rightarrow> 'a" where
  "deref p d = (case p of None \<Rightarrow> d | Some v \<Rightarrow> v)"

section \<open>Response headers\<close>

definition hstsValue :: "hsts_config \<Rightarrow> string" where
  "hstsValue h =
     Join ([''max-age='' @ Itoa_int (deref (hsMaxAge h) 31536000)]
       @ (if deref (hsIncludeSubDomains h) True then [''includeSubDomains''] else [])
       @ (if hsPreload h then [''preload''] else [])) ''; ''"

definition set_unless_empty :: "string \<Rightarrow> string \<Rightarrow> 'st world \<Rightarrow> 'st world" where
  "set_unless_empty k v w = (if v \<noteq> [] then wSet k v w else w)"

definition security_headers :: "headers_config \<Rightarrow> 'st world \<Rightarrow> 'st world" where
  "security_headers h w =
     (let w1 = set_unless_empty ''X-Frame-Options'' (deref (hcFrameOptions h) ''DENY'') w;
          w2 = set_unless_empty ''X-Content-Type-Options'' (deref (hcContentTypeOptions h) ''nosniff'') w1;
          w3 = set_unless_empty ''Referrer-Policy'' (deref (hcReferrerPolicy h) ''strict-origin-when-cross-origin'') w2;
          w4 = (if deref (hsEnabled (hcHSTS h)) True then wSet ''Strict-Transport-Security'' (hstsValue (hcHSTS h)) w3 else w3)
      in set_unless_empty ''Content-Security-Policy'' (hcContentSecurityPolicy h) w4)"

definition headersHandler :: "headers_config \<Rightarrow> 'st middleware" where
  "headersHandler h next r w = next r (security_headers h w)"

section \<open>Cross-origin protection\<close>

record cop_env =
  coValidOrigin :: "string \<Rightarrow> bool"
  coAddPattern :: "string list \<Rightarrow> string \<Rightarrow> bool"
  coOriginHost :: "string \<Rightarrow> string option"
  coMatches :: "string list \<Rightarrow> request \<Rightarrow> bool"

record cop =
  cpTrusted :: "string list"
  cpBypass :: "string list"

definition isRequestExempt :: "cop_env \<Rightarrow> cop \<Rightarrow> request \<Rightarrow> bool" where
  "isRequestExempt X c r \<longleftrightarrow>
     coMatches X (cpBypass c) r \<or> (let origin = reqGet r ''Origin'' in origin \<noteq> [] \<and> origin \<in> set (cpTrusted c))"

datatype cop_error = CrossOriginRequest | CrossOriginFromOldBrowser

definition cop_Check :: "cop_env \<Rightarrow> cop \<Rightarrow> request \<Rightarrow> cop_error option" where
  "cop_Check X c r =
     (if rMethod r \<in> {''GET'', ''HEAD'', ''OPTIONS''} then None
      else
        let site = reqGet r ''Sec-Fetch-Site'' in
        if site \<noteq> [] then
          (if site = ''same-origin'' \<or> site = ''none'' then None
           else if isRequestExempt X c r then None else Some CrossOriginRequest)
        else
          let origin = reqGet r ''Origin'' in
          if origin = [] then None
          else if coOriginHost X origin = Some (rHost r) then None
          else if isRequestExempt X c r then None
          else Some CrossOriginFromOldBrowser)"

definition cop_message :: "cop_error \<Rightarrow> string" where
  "cop_message e = (case e of
       CrossOriginRequest \<Rightarrow> ''cross-origin request detected from Sec-Fetch-Site header''
     | CrossOriginFromOldBrowser \<Rightarrow> ''cross-origin request detected, and/or browser is out of date: Sec-Fetch-Site is missing, and Origin does not match Host'')"

definition cop_step :: "cop_env \<Rightarrow> cop \<Rightarrow> request \<Rightarrow> 'st world \<Rightarrow> 'st step" where
  "cop_step X c r w = (case cop_Check X c r of None \<Rightarrow> Pass r w | Some e \<Rightarrow> Answer (httpError (cop_message e) 403 w))"

definition cop_Handler :: "cop_env \<Rightarrow> cop \<Rightarrow> 'st middleware" where
  "cop_Handler X c next r w = run_step (cop_step X c r w) next"

section \<open>The stage\<close>

datatype security_error = TrustedOrigin string | BypassPattern string

definition addTrusted :: "cop_env \<Rightarrow> cop \<Rightarrow> string \<Rightarrow> (security_error, cop) result" where
  "addTrusted X c origin =
     guardR (\<not> coValidOrigin X origin) (TrustedOrigin origin) (Inr (c\<lparr>cpTrusted := cpTrusted c @ [origin]\<rparr>))"

definition addBypass :: "cop_env \<Rightarrow> cop \<Rightarrow> string \<Rightarrow> (security_error, cop) result" where
  "addBypass X c pattern =
     guardR (\<not> coAddPattern X (cpBypass c) pattern) (BypassPattern pattern) (Inr (c\<lparr>cpBypass := cpBypass c @ [pattern]\<rparr>))"

definition build_cop :: "cop_env \<Rightarrow> csrf_config \<Rightarrow> (security_error, cop) result" where
  "build_cop X cs =
     bindR (foldR (addTrusted X) \<lparr>cpTrusted = [], cpBypass = []\<rparr> (csTrustedOrigins cs)) (\<lambda>c.
     foldR (addBypass X) c (csBypassPatterns cs))"

definition security_Build :: "cop_env \<Rightarrow> security_config \<Rightarrow> (security_error, 'st middleware) result" where
  "security_Build X cfg =
     (if \<not> deref (csEnabled (seCSRF cfg)) True then Inr (headersHandler (seHeaders cfg))
      else bindR (build_cop X (seCSRF cfg)) (\<lambda>c.
        Inr (\<lambda>next. headersHandler (seHeaders cfg) (cop_Handler X c next))))"

interpretation headersF: filter_mw "headersHandler h" "\<lambda>r w. Pass r (security_headers h w)" for h
  by unfold_locales (simp add: headersHandler_def)

interpretation copF: filter_mw "cop_Handler X c" "cop_step X c" for X c
  by unfold_locales (simp add: cop_Handler_def)

section \<open>Cross-site writes\<close>

lemma build_cop_fields:
  assumes "build_cop X cs = Inr c"
  shows "cpTrusted c = csTrustedOrigins cs \<and> cpBypass c = csBypassPatterns cs"
proof -
  have t: "foldR (addTrusted X) c0 os = Inr c1 \<Longrightarrow> cpTrusted c1 = cpTrusted c0 @ os \<and> cpBypass c1 = cpBypass c0" for c0 c1 os
    by (induction os arbitrary: c0) (auto simp: addTrusted_def guardR_def split: if_splits)
  have b: "foldR (addBypass X) c0 ps = Inr c1 \<Longrightarrow> cpBypass c1 = cpBypass c0 @ ps \<and> cpTrusted c1 = cpTrusted c0" for c0 c1 ps
    by (induction ps arbitrary: c0) (auto simp: addBypass_def guardR_def split: if_splits)
  show ?thesis using assms t b by (fastforce simp: build_cop_def bindR_eq_Inr)
qed

text \<open>A request the browser marks as coming from another site, or whose Origin is another host, and that may
  change state: it has an unsafe method and is neither from a trusted origin nor under a bypass pattern.\<close>

definition cross_site_write :: "cop_env \<Rightarrow> csrf_config \<Rightarrow> request \<Rightarrow> bool" where
  "cross_site_write X cs r \<longleftrightarrow>
     rMethod r \<notin> {''GET'', ''HEAD'', ''OPTIONS''}
     \<and> (if reqGet r ''Sec-Fetch-Site'' \<noteq> [] then reqGet r ''Sec-Fetch-Site'' \<notin> {''same-origin'', ''none''}
        else reqGet r ''Origin'' \<noteq> [] \<and> coOriginHost X (reqGet r ''Origin'') \<noteq> Some (rHost r))
     \<and> \<not> coMatches X (csBypassPatterns cs) r \<and> reqGet r ''Origin'' \<notin> set (csTrustedOrigins cs)"

lemma cop_Check_iff:
  assumes "build_cop X cs = Inr c" "[] \<notin> set (csTrustedOrigins cs)"
  shows "cross_site_write X cs r \<longleftrightarrow> cop_Check X c r \<noteq> None"
proof -
  have "isRequestExempt X c r \<longleftrightarrow> coMatches X (csBypassPatterns cs) r \<or> reqGet r ''Origin'' \<in> set (csTrustedOrigins cs)"
    using build_cop_fields [OF assms(1)] assms(2) by (auto simp: isRequestExempt_def Let_def)
  then show ?thesis unfolding cross_site_write_def cop_Check_def Let_def by simp
qed

text \<open>The stage stops cross-site writes: unless switched off, a cross-site write is answered 403 without running
  anything behind the stage, and every other request reaches the next handler with the configured response
  headers already set.\<close>

theorem security_stops_cross_site_writes:
  fixes w :: "'st world"
  assumes "security_Build X cfg = Inr mw" "deref (csEnabled (seCSRF cfg)) True" "[] \<notin> set (csTrustedOrigins (seCSRF cfg))"
    and "wStatus (resp w) = None"
  shows "if cross_site_write X (seCSRF cfg) r
     then \<exists>w'. (\<forall>next. mw next r w = Done w') \<and> wStatus (resp w') = Some 403
     else \<forall>next. mw next r w = next r (security_headers (seHeaders cfg) w)"
proof -
  from assms(1,2) obtain c where c: "build_cop X (seCSRF cfg) = Inr c"
    and mw: "mw = (\<lambda>next. headersHandler (seHeaders cfg) (cop_Handler X c next))"
    by (auto simp: security_Build_def bindR_eq_Inr)
  have st: "wStatus (resp (security_headers (seHeaders cfg) w)) = None"
    using assms(4) by (simp add: security_headers_def set_unless_empty_def Let_def)
  show ?thesis
    using cop_Check_iff [OF c assms(3)] httpError_status [OF st] unfolding mw headersHandler_def cop_Handler_def cop_step_def
    by (cases "cop_Check X c r") simp_all
qed

definition demo_cop_env :: cop_env where
  "demo_cop_env = \<lparr>coValidOrigin = (\<lambda>s. s \<noteq> []), coAddPattern = (\<lambda>ps p. p \<noteq> []), coOriginHost = (\<lambda>s. Some s), coMatches = (\<lambda>ps r. rPath r \<in> set ps)\<rparr>"

definition demo_cross_site :: request where
  "demo_cross_site = (demo_req [(''Sec-Fetch-Site'', [''cross-site''])])\<lparr>rMethod := ''POST''\<rparr>"

theorem security_stops_cross_site_writes_witness:
  "\<exists>mw w'. security_Build demo_cop_env default_security = Inr mw
     \<and> mw (\<lambda>r w. Panicked [] w) demo_cross_site (demo_world ()) = Done w' \<and> wStatus (resp w') = Some 403"
proof -
  obtain mw :: "unit middleware" where mw: "security_Build demo_cop_env default_security = Inr mw"
    by (auto simp: security_Build_def default_security_def deref_def build_cop_def)
  have "cross_site_write demo_cop_env (seCSRF default_security) demo_cross_site" "deref (csEnabled (seCSRF default_security)) True"
    "[] \<notin> set (csTrustedOrigins (seCSRF default_security))" "wStatus (resp (demo_world ())) = None"
    by code_simp+
  with security_stops_cross_site_writes [OF mw, of "demo_world ()" demo_cross_site] mw show ?thesis by auto
qed

end
