(* ===== verification/Forwarded.thy ===== *)
theory Forwarded
  imports Chain "HOL-Library.Word"
begin

unbundle bit_operations_syntax

text \<open>
  Trusted proxies and the Forwarded edge layer (\<^verbatim>\<open>src/chain/forwarded.go\<close>). Addresses are
  words of 32 or 128 bits as in \<open>net/netip\<close>; the parsers of \<open>netip\<close> are arguments
  (\<open>parseAddr\<close>, \<open>parsePrefix\<close>), the arithmetic of prefixes is modelled.
\<close>

section \<open>Addresses\<close>

datatype addr = Addr4 "32 word" | Addr6 "128 word" string

record addr_prefix =
  pfxAddr :: addr
  pfxBits :: nat

definition BitLen :: "addr \<Rightarrow> nat" where
  "BitLen a = (case a of Addr4 _ \<Rightarrow> 32 | Addr6 _ _ \<Rightarrow> 128)"

definition withoutZone :: "addr \<Rightarrow> addr" where
  "withoutZone a = (case a of Addr4 x \<Rightarrow> Addr4 x | Addr6 x z \<Rightarrow> Addr6 x [])"

definition hasZone :: "addr \<Rightarrow> bool" where
  "hasZone a = (case a of Addr4 _ \<Rightarrow> False | Addr6 _ z \<Rightarrow> z \<noteq> [])"

text \<open>An IPv4 address mapped into IPv6: the upper 96 bits are \<open>::ffff\<close>.\<close>

definition Unmap :: "addr \<Rightarrow> addr" where
  "Unmap a = (case a of Addr4 x \<Rightarrow> Addr4 x
     | Addr6 x z \<Rightarrow> if drop_bit 32 x = 65535 then Addr4 (ucast x) else Addr6 x z)"

definition PrefixFrom :: "addr \<Rightarrow> nat \<Rightarrow> addr_prefix" where
  "PrefixFrom a n = \<lparr>pfxAddr = withoutZone a, pfxBits = n\<rparr>"

definition Masked :: "addr_prefix \<Rightarrow> addr_prefix" where
  "Masked p = p\<lparr>pfxAddr := (case pfxAddr p of
       Addr4 x \<Rightarrow> Addr4 (x AND NOT (mask (32 - pfxBits p)))
     | Addr6 x z \<Rightarrow> Addr6 (x AND NOT (mask (128 - pfxBits p))) z)\<rparr>"

definition pfxContains :: "addr_prefix \<Rightarrow> addr \<Rightarrow> bool" where
  "pfxContains p a \<longleftrightarrow> \<not> hasZone a \<and> (case (pfxAddr p, a) of
       (Addr4 x, Addr4 y) \<Rightarrow> pfxBits p \<le> 32 \<and> drop_bit (32 - pfxBits p) (y XOR x) = 0
     | (Addr6 x _, Addr6 y _) \<Rightarrow> pfxBits p \<le> 128 \<and> drop_bit (128 - pfxBits p) (y XOR x) = 0
     | _ \<Rightarrow> False)"

section \<open>Trusted proxies\<close>

record trusted_proxies =
  prefixes :: "addr_prefix list"
  trustAll :: bool

datatype proxy_error = InvalidCIDR string | InvalidIP string

definition add_entry :: "(string \<Rightarrow> addr option) \<Rightarrow> (string \<Rightarrow> addr_prefix option)
    \<Rightarrow> trusted_proxies \<Rightarrow> string \<Rightarrow> (proxy_error, trusted_proxies) result" where
  "add_entry parseAddr parsePrefix tp e0 =
     (let e = TrimSpace e0 in
      if e = [] then Inr tp
      else if e = ''*'' then Inr (tp\<lparr>trustAll := True\<rparr>)
      else if Contains e ''/'' then
        (case parsePrefix e of None \<Rightarrow> Inl (InvalidCIDR e)
         | Some p \<Rightarrow> Inr (tp\<lparr>prefixes := prefixes tp @ [Masked p]\<rparr>))
      else
        (case parseAddr e of None \<Rightarrow> Inl (InvalidIP e)
         | Some a \<Rightarrow> Inr (tp\<lparr>prefixes := prefixes tp @ [PrefixFrom a (BitLen a)]\<rparr>)))"

definition ParseTrustedProxies :: "(string \<Rightarrow> addr option) \<Rightarrow> (string \<Rightarrow> addr_prefix option)
    \<Rightarrow> string list \<Rightarrow> (proxy_error, trusted_proxies) result" where
  "ParseTrustedProxies parseAddr parsePrefix entries =
     foldR (add_entry parseAddr parsePrefix) \<lparr>prefixes = [], trustAll = False\<rparr> entries"

definition Trusts :: "trusted_proxies \<Rightarrow> addr \<Rightarrow> bool" where
  "Trusts tp a0 = (if trustAll tp then True
     else let a = Unmap a0 in list_ex (\<lambda>p. pfxContains p a) (prefixes tp))"

section \<open>The peer of a request\<close>

text \<open>\<open>net.SplitHostPort\<close>: the host part, or nothing on a malformed address.\<close>

definition lastIndexByte :: "string \<Rightarrow> char \<Rightarrow> nat option" where
  "lastIndexByte s c = (if c \<in> set s then Some (length s - 1 - length (takeWhile (\<lambda>x. x \<noteq> c) (rev s))) else None)"

definition SplitHost :: "string \<Rightarrow> string option" where
  "SplitHost s =
     (case lastIndexByte s (CHR '':'') of None \<Rightarrow> None
      | Some i \<Rightarrow>
          if HasPrefix s ''['' then
            (case Index s '']'' of None \<Rightarrow> None
             | Some e \<Rightarrow>
                 if Suc e \<noteq> i then None
                 else if CHR ''['' \<in> set (drop 1 s) \<or> CHR '']'' \<in> set (drop (Suc e) s) then None
                 else Some (drop 1 (take e s)))
          else if CHR '':'' \<in> set (take i s) then None
          else if CHR ''['' \<in> set s \<or> CHR '']'' \<in> set s then None
          else Some (take i s))"

definition clientIP :: "request \<Rightarrow> string" where
  "clientIP r = (case SplitHost (rRemoteAddr r) of Some h \<Rightarrow> h | None \<Rightarrow> rRemoteAddr r)"

definition peerTrusted :: "(string \<Rightarrow> addr option) \<Rightarrow> trusted_proxies \<Rightarrow> request \<Rightarrow> bool" where
  "peerTrusted parseAddr tp r =
     (let host = (case SplitHost (rRemoteAddr r) of Some h \<Rightarrow> h | None \<Rightarrow> rRemoteAddr r) in
      case parseAddr host of None \<Rightarrow> False | Some a \<Rightarrow> Trusts tp a)"

section \<open>The middleware\<close>

definition forwardedHeaders :: "string list" where
  "forwardedHeaders = [''X-Forwarded-For'', ''X-Forwarded-Proto'', ''X-Forwarded-Host'',
     ''X-Forwarded-Port'', ''X-Real-Ip'', ''Forwarded'']"

definition Forwarded :: "(string \<Rightarrow> addr option) \<Rightarrow> trusted_proxies \<Rightarrow> 'st middleware" where
  "Forwarded parseAddr tp next r w =
     (if \<not> peerTrusted parseAddr tp r then next (mapHeader (hDelAll forwardedHeaders) r) w
      else next r w)"

definition forwarded_step :: "(string \<Rightarrow> addr option) \<Rightarrow> trusted_proxies \<Rightarrow> request \<Rightarrow> 'st world \<Rightarrow> 'st step" where
  "forwarded_step parseAddr tp r w =
     Pass (if peerTrusted parseAddr tp r then r else mapHeader (hDelAll forwardedHeaders) r) w"

interpretation forwardedF: filter_mw "Forwarded pa tp" "forwarded_step pa tp" for pa tp
  by unfold_locales (simp add: Forwarded_def forwarded_step_def)

section \<open>Properties\<close>

lemma xor_drop_bit_zero:
  "drop_bit n (a XOR b) = 0 \<longleftrightarrow> drop_bit n a = drop_bit n (b :: 'a::len word)"
  by (metis drop_bit_xor bit.xor_left_self xor.right_neutral xor_self_eq)

lemma drop_bit_masked:
  "drop_bit n (x AND NOT (mask n)) = drop_bit n (x :: 'a::len word)"
  by (rule bit_word_eqI) (auto simp: bit_simps dest: bit_imp_le_length)

text \<open>A CIDR block contains an address exactly when both are of the same family, the address has no
  zone, and the leading bits the block fixes agree; masking the block at parse time changes nothing.\<close>

theorem prefix_contains_leading_bits:
  "pfxContains (Masked p) a \<longleftrightarrow>
     \<not> hasZone a \<and>
     ((\<exists>x y. pfxAddr p = Addr4 x \<and> a = Addr4 y \<and> pfxBits p \<le> 32
         \<and> drop_bit (32 - pfxBits p) y = drop_bit (32 - pfxBits p) x)
      \<or> (\<exists>x y z z'. pfxAddr p = Addr6 x z \<and> a = Addr6 y z' \<and> pfxBits p \<le> 128
         \<and> drop_bit (128 - pfxBits p) y = drop_bit (128 - pfxBits p) x))"
  by (cases "pfxAddr p"; cases a)
     (auto simp: pfxContains_def Masked_def xor_drop_bit_zero drop_bit_masked
       simp del: drop_bit_xor drop_bit_and)

lemma Trusts_Unmap: "Trusts tp (Unmap a) = Trusts tp a"
proof -
  have "Unmap (Unmap a) = Unmap a" by (simp add: Unmap_def split: addr.splits)
  then show ?thesis by (simp add: Trusts_def Let_def)
qed

lemma add_entry_foldR_trustAll:
  "foldR (add_entry pa pp) tp es = Inr tp' \<Longrightarrow>
     trustAll tp' \<longleftrightarrow> trustAll tp \<or> (\<exists>e \<in> set es. TrimSpace e = ''*'')"
proof (induction es arbitrary: tp)
  case Nil
  then show ?case by simp
next
  case (Cons e es)
  then obtain t where t: "add_entry pa pp tp e = Inr t" and r: "foldR (add_entry pa pp) t es = Inr tp'"
    by (auto split: sum.splits)
  from t have "trustAll t \<longleftrightarrow> trustAll tp \<or> TrimSpace e = ''*''"
    by (auto simp: add_entry_def Let_def split: if_splits option.splits)
  with Cons.IH [OF r] show ?case by auto
qed

lemma add_entry_foldR_prefixes:
  "foldR (add_entry pa pp) tp es = Inr tp' \<Longrightarrow>
     set (prefixes tp') = set (prefixes tp) \<union>
       {Masked p | p e. e \<in> set es \<and> Contains (TrimSpace e) ''/'' \<and> pp (TrimSpace e) = Some p} \<union>
       {PrefixFrom a (BitLen a) | a e. e \<in> set es \<and> TrimSpace e \<notin> {[], ''*''} \<and>
          \<not> Contains (TrimSpace e) ''/'' \<and> pa (TrimSpace e) = Some a}"
proof (induction es arbitrary: tp)
  case Nil
  then show ?case by simp
next
  case (Cons e es)
  then obtain t where t: "add_entry pa pp tp e = Inr t" and r: "foldR (add_entry pa pp) t es = Inr tp'"
    by (auto split: sum.splits)
  have star: "\<not> Contains [] ''/''" "\<not> Contains ''*'' ''/''"
    by (simp_all add: Contains_def)
  show ?case
    unfolding Cons.IH [OF r] using t star
    by (auto simp: add_entry_def Let_def split: if_splits option.splits)
qed

text \<open>An address lies in a block when it has no zone, both are of the same family, and the leading bits the block fixes agree.\<close>

definition in_block :: "addr_prefix \<Rightarrow> addr \<Rightarrow> bool" where
  "in_block p a \<longleftrightarrow> \<not> hasZone a \<and> (case (pfxAddr p, a) of
       (Addr4 x, Addr4 y) \<Rightarrow> pfxBits p \<le> 32 \<and> (\<forall>i < 32. 32 - pfxBits p \<le> i \<longrightarrow> bit y i = bit x i)
     | (Addr6 x _, Addr6 y _) \<Rightarrow> pfxBits p \<le> 128 \<and> (\<forall>i < 128. 128 - pfxBits p \<le> i \<longrightarrow> bit y i = bit x i)
     | _ \<Rightarrow> False)"

lemma leading_bits: "drop_bit n x = drop_bit n y \<longleftrightarrow> (\<forall>i < LENGTH('a). n \<le> i \<longrightarrow> bit x i = bit y i)" for x y :: "'a::len word"
proof -
  have "drop_bit n x = drop_bit n y \<longleftrightarrow> (\<forall>i. bit x (n + i) = bit y (n + i))"
    unfolding bit_eq_iff bit_drop_bit_eq by (simp, meson bit_imp_le_length le_add2 le_trans not_less)
  also have "\<dots> \<longleftrightarrow> (\<forall>i \<ge> n. bit x i = bit y i)" by (metis le_add1 le_iff_add)
  also have "\<dots> \<longleftrightarrow> (\<forall>i < LENGTH('a). n \<le> i \<longrightarrow> bit x i = bit y i)" by (meson bit_imp_le_length)
  finally show ?thesis .
qed

lemma contains_in_block: "pfxContains (Masked p) a \<longleftrightarrow> in_block p a"
proof -
  have "drop_bit n x = drop_bit n y \<longleftrightarrow> (\<forall>i < 32. n \<le> i \<longrightarrow> bit x i = bit y i)" for n and x y :: "32 word"
    using leading_bits [of n x y] by simp
  moreover have "drop_bit n x = drop_bit n y \<longleftrightarrow> (\<forall>i < 128. n \<le> i \<longrightarrow> bit x i = bit y i)" for n and x y :: "128 word"
    using leading_bits [of n x y] by simp
  ultimately show ?thesis
    by (cases "pfxAddr p"; cases a) (simp_all add: prefix_contains_leading_bits in_block_def)
qed

lemma contains_single: "pfxContains (PrefixFrom b (BitLen b)) c \<longleftrightarrow> c = withoutZone b"
  using xor_drop_bit_zero [of 0]
  by (cases b; cases c) (auto simp: pfxContains_def PrefixFrom_def BitLen_def withoutZone_def hasZone_def)

text \<open>C39. Whom a parsed proxy list trusts, exactly. A peer address, an IPv4-mapped one read as IPv4, is trusted when the list has a
  star entry, when the address lies in a configured block, or when it is a configured single address without that address's
  zone. So a listed single address that has no zone and is not IPv4-mapped is itself trusted, and the empty list trusts nobody.
  Entries are not normalised as peers are: an address with a zone is never trusted through an entry, and an entry that is an
  IPv4-mapped address matches no peer.\<close>

theorem Trusts_iff_configured:
  assumes "ParseTrustedProxies pa pp es = Inr tp"
  shows "(Trusts tp a \<longleftrightarrow> (\<exists>e \<in> set es. TrimSpace e = ''*'')
       \<or> (\<exists>e \<in> set es. \<exists>p. Contains (TrimSpace e) ''/'' \<and> pp (TrimSpace e) = Some p \<and> in_block p (Unmap a))
       \<or> (\<exists>e \<in> set es. \<exists>b. TrimSpace e \<notin> {[], ''*''} \<and> \<not> Contains (TrimSpace e) ''/''
            \<and> pa (TrimSpace e) = Some b \<and> Unmap a = withoutZone b))
    \<and> (\<forall>e \<in> set es. \<forall>b. TrimSpace e \<notin> {[], ''*''} \<and> \<not> Contains (TrimSpace e) ''/'' \<and> pa (TrimSpace e) = Some b
         \<and> \<not> hasZone b \<and> Unmap b = b \<longrightarrow> Trusts tp b)
    \<and> (\<forall>p. hasZone (Unmap a) \<longrightarrow> \<not> in_block p (Unmap a)) \<and> (\<forall>b. hasZone (Unmap a) \<longrightarrow> Unmap a \<noteq> withoutZone b)
    \<and> (\<forall>x z. drop_bit 32 x = 65535 \<longrightarrow> Unmap a \<noteq> withoutZone (Addr6 x z))"
proof (intro conjI)
  note f = assms [unfolded ParseTrustedProxies_def]
  have t: "Trusts tp a \<longleftrightarrow> (\<exists>e \<in> set es. TrimSpace e = ''*'')
       \<or> (\<exists>e \<in> set es. \<exists>p. Contains (TrimSpace e) ''/'' \<and> pp (TrimSpace e) = Some p \<and> in_block p (Unmap a))
       \<or> (\<exists>e \<in> set es. \<exists>b. TrimSpace e \<notin> {[], ''*''} \<and> \<not> Contains (TrimSpace e) ''/''
            \<and> pa (TrimSpace e) = Some b \<and> Unmap a = withoutZone b)" for a
    unfolding Trusts_def Let_def list_ex_iff add_entry_foldR_prefixes [OF f] contains_in_block [symmetric] contains_single [symmetric]
    using add_entry_foldR_trustAll [OF f] by (simp add: bex_Un) blast
  show "Trusts tp a \<longleftrightarrow> (\<exists>e \<in> set es. TrimSpace e = ''*'')
       \<or> (\<exists>e \<in> set es. \<exists>p. Contains (TrimSpace e) ''/'' \<and> pp (TrimSpace e) = Some p \<and> in_block p (Unmap a))
       \<or> (\<exists>e \<in> set es. \<exists>b. TrimSpace e \<notin> {[], ''*''} \<and> \<not> Contains (TrimSpace e) ''/''
            \<and> pa (TrimSpace e) = Some b \<and> Unmap a = withoutZone b)" by (rule t)
  have "withoutZone b = b" if "\<not> hasZone b" for b using that by (cases b) (simp_all add: withoutZone_def hasZone_def)
  then show "\<forall>e \<in> set es. \<forall>b. TrimSpace e \<notin> {[], ''*''} \<and> \<not> Contains (TrimSpace e) ''/'' \<and> pa (TrimSpace e) = Some b
         \<and> \<not> hasZone b \<and> Unmap b = b \<longrightarrow> Trusts tp b"
    unfolding t by metis
  show "\<forall>p. hasZone (Unmap a) \<longrightarrow> \<not> in_block p (Unmap a)" by (simp add: in_block_def)
  show "\<forall>b. hasZone (Unmap a) \<longrightarrow> Unmap a \<noteq> withoutZone b"
    by (auto simp: hasZone_def withoutZone_def split: addr.splits)
  show "\<forall>x z. drop_bit 32 x = 65535 \<longrightarrow> Unmap a \<noteq> withoutZone (Addr6 x z)"
    by (auto simp: Unmap_def withoutZone_def split: addr.splits)
qed

theorem Trusts_iff_configured_witness:
  "\<exists>tp. ParseTrustedProxies (\<lambda>s. Some (Addr6 281470849515778 [])) (\<lambda>s. Some \<lparr>pfxAddr = Addr4 184549381, pfxBits = 8\<rparr>)
       [''11.0.0.5/8'', ''::ffff:10.0.1.2''] = Inr tp
     \<and> Trusts tp (Addr4 184549631) \<and> \<not> Trusts tp (Addr6 281470849515778 [])"
proof -
  let ?pp = "\<lambda>s. Some \<lparr>pfxAddr = Addr4 184549381, pfxBits = 8\<rparr>" and ?pa = "\<lambda>s. Some (Addr6 281470849515778 [])"
  let ?es = "[''11.0.0.5/8'', ''::ffff:10.0.1.2'']"
  have ts: "TrimSpace ''11.0.0.5/8'' = ''11.0.0.5/8''" "TrimSpace ''::ffff:10.0.1.2'' = ''::ffff:10.0.1.2''"
    by (rule TrimSpace_graphic, simp_all add: graphic_def byte_def)+
  have cs: "Contains ''11.0.0.5/8'' ''/''" "\<not> Contains ''::ffff:10.0.1.2'' ''/''" by (simp_all add: Contains_def)
  obtain tp where tp: "ParseTrustedProxies ?pa ?pp ?es = Inr tp"
    by (simp add: ParseTrustedProxies_def add_entry_def Let_def ts cs)
  note iff = conjunct1 [OF Trusts_iff_configured [OF tp]]
  have "Trusts tp (Addr4 184549631)"
    unfolding iff by (simp add: ts cs contains_in_block [symmetric] prefix_contains_leading_bits Unmap_def hasZone_def)
  moreover have "\<not> Trusts tp (Addr6 281470849515778 [])"
    unfolding iff by (simp add: ts cs contains_in_block [symmetric] prefix_contains_leading_bits Unmap_def hasZone_def withoutZone_def)
  ultimately show ?thesis using tp by blast
qed

text \<open>When the immediate peer is not a trusted proxy, the handlers behind the Forwarded layer see no
  X-Forwarded-For, -Proto, -Host, -Port, X-Real-Ip or Forwarded header under any spelling, and every
  other header as it was sent; a trusted peer's request is handed on unchanged.\<close>

theorem Forwarded_strips_untrusted:
  "Forwarded pa tp next r w = next (if peerTrusted pa tp r then r else mapHeader (hDelAll forwardedHeaders) r) w
   \<and> (\<forall>h. h \<in> set forwardedHeaders \<longrightarrow> hGet (hDelAll forwardedHeaders (rHeader r)) h = [])
   \<and> (\<forall>k. k \<notin> CanonicalHeaderKey ` set forwardedHeaders \<longrightarrow>
        gm_get (hDelAll forwardedHeaders (rHeader r)) k = gm_get (rHeader r) k)"
  by (auto simp: Forwarded_def hGet_def gm_get_hDelAll)

theorem Forwarded_strips_untrusted_witness:
  "hGet (hDelAll forwardedHeaders [(''X-Forwarded-For'', [''1.2.3.4'']), (''Accept'', [''a''])]) ''X-Forwarded-For'' = []
   \<and> gm_get (hDelAll forwardedHeaders [(''X-Forwarded-For'', [''1.2.3.4'']), (''Accept'', [''a''])]) ''Accept'' = Some [''a'']"
proof -
  let ?r = "demo_request\<lparr>rHeader := [(''X-Forwarded-For'', [''1.2.3.4'']), (''Accept'', [''a''])]\<rparr>"
  have "''Accept'' \<notin> CanonicalHeaderKey ` set forwardedHeaders"
    by code_simp
  then show ?thesis
    using Forwarded_strips_untrusted [of "\<lambda>_. None" "\<lparr>prefixes = [], trustAll = False\<rparr>" "\<lambda>r w. Done w" ?r
        "demo_world ()"]
    by (simp add: forwardedHeaders_def)
qed

end
