(* ===== verification/Telemetry.thy ===== *)
theory Telemetry
  imports Forwarded Go_Url Config_Env
begin

text \<open>
  Telemetry configuration and the access log (\<^verbatim>\<open>src/telemetry/config.go\<close>,
  \<^verbatim>\<open>accesslog.go\<close>, \<^verbatim>\<open>log.go\<close>). The span of a request and the level check of the logger are
  arguments. The header map of a request is shared with the handlers behind the access log, which may change it;
  its content when the handler returns is the argument \<open>final\<close>. A sampling ratio is a 64-bit float:
  a dyadic fraction \<open>m / 2 ^ k\<close>, an infinity or not a number.
\<close>

section \<open>Configuration\<close>

datatype float64 = NaN | NegInf | PosInf | Finite int nat

definition f_less :: "float64 \<Rightarrow> float64 \<Rightarrow> bool" where
  "f_less a b = (case (a, b) of
       (NaN, _) \<Rightarrow> False | (_, NaN) \<Rightarrow> False
     | (Finite m k, Finite n l) \<Rightarrow> m * 2 ^ l < n * 2 ^ k
     | (NegInf, NegInf) \<Rightarrow> False | (NegInf, _) \<Rightarrow> True
     | (_, PosInf) \<Rightarrow> (case a of PosInf \<Rightarrow> False | _ \<Rightarrow> True)
     | _ \<Rightarrow> False)"

record otlp_config =
  otEndpoint :: string
  otProtocol :: string
  otHeaders :: "(string, string) gomap"
  otInsecure :: bool
  otTimeout :: string

record access_log_config =
  alLevel :: string
  alProperties :: "string list option"
  alHeaders :: "(string, string) gomap"
  alFields :: "(string, string) gomap"

record telemetry_config =
  tcLogLevel :: string
  tcOTLP :: otlp_config
  tcServiceName :: string
  tcServiceVersion :: string
  tcSamplingRatio :: float64
  tcAccessLog :: access_log_config

definition protoHTTP :: string where "protoHTTP = ''http/protobuf''"

definition protoGRPC :: string where "protoGRPC = ''grpc''"

definition logLevels :: "(string, int) gomap" where
  "logLevels = [(''debug'', - 4), (''info'', 0), (''warn'', 4), (''error'', 8)]"

definition allowedProperties :: "string list" where
  "allowedProperties = [''method'', ''path'', ''route'', ''query'', ''status'', ''duration_ms'', ''bytes_out'', ''client_ip'',
     ''host'', ''protocol'', ''user_id'', ''session_id'', ''request_id'', ''trace_id'', ''span_id'']"

definition default_properties :: "string list" where
  "default_properties = [''method'', ''path'', ''status'', ''duration_ms'', ''client_ip'', ''request_id'', ''trace_id'', ''span_id'']"

definition telemetry_Default :: telemetry_config where
  "telemetry_Default = \<lparr>tcLogLevel = ''info'',
     tcOTLP = \<lparr>otEndpoint = [], otProtocol = protoHTTP, otHeaders = [], otInsecure = False, otTimeout = []\<rparr>,
     tcServiceName = ''hog'', tcServiceVersion = [], tcSamplingRatio = Finite 1 0,
     tcAccessLog = \<lparr>alLevel = ''info'', alProperties = Some default_properties, alHeaders = [], alFields = []\<rparr>\<rparr>"

section \<open>Redaction\<close>

definition credentialHeaders :: "string list" where
  "credentialHeaders = [''authorization'', ''proxy-authorization'', ''cookie'', ''set-cookie'', ''x-hog-identity'']"

definition isCredentialHeader :: "(nat \<Rightarrow> nat) \<Rightarrow> string \<Rightarrow> bool" where
  "isCredentialHeader ulower header \<longleftrightarrow> ToLower ulower header \<in> set credentialHeaders"

definition redactHeader :: "(nat \<Rightarrow> nat) \<Rightarrow> string \<Rightarrow> string \<Rightarrow> string" where
  "redactHeader ulower header v = (if isCredentialHeader ulower header then ''REDACTED'' else v)"

definition sensitiveParams :: "string list" where
  "sensitiveParams = [''code'', ''state'', ''token'', ''access_token'', ''id_token'', ''refresh_token'', ''api_key'', ''apikey'',
     ''client_secret'', ''password'', ''assertion'']"

definition sensitive :: "(nat \<Rightarrow> nat) \<Rightarrow> string \<Rightarrow> bool" where
  "sensitive ulower k \<longleftrightarrow> ToLower ulower k \<in> set sensitiveParams"

text \<open>The error of \<open>url.ParseQuery\<close>: a piece with a semicolon or a malformed escape.\<close>

definition bad_pair :: "string \<Rightarrow> bool" where
  "bad_pair key \<longleftrightarrow> Contains key '';'' \<or>
     (key \<noteq> [] \<and> (let (k, v) = (case Cut key ''='' of Some (a, b) \<Rightarrow> (a, b) | None \<Rightarrow> (key, [])) in
        QueryUnescape k = None \<or> QueryUnescape v = None))"

definition query_error :: "string \<Rightarrow> bool" where
  "query_error q \<longleftrightarrow> list_ex bad_pair (Split (CHR ''&'') q)"

definition redactQuery :: "(nat \<Rightarrow> nat) \<Rightarrow> string \<Rightarrow> string" where
  "redactQuery ulower raw =
     (if raw = [] then []
      else if query_error raw then []
      else Encode (map (\<lambda>(k, vs). if sensitive ulower k then (k, [''REDACTED'']) else (k, vs)) (ParseQuery raw)))"

section \<open>Parsing a Telemetry resource\<close>

datatype telemetry_error =
    TelemetryDecode string
  | ServiceNameRequired
  | LogLevel string
  | OtlpProtocol string
  | OtlpTimeout string
  | OtlpEndpoint string
  | SamplingRatio float64
  | AccessLogLevel string
  | UnknownProperty string
  | CredentialHeader string

text \<open>\<open>parseURL\<close> gives scheme and host. The decoder overlays the document on the value it is given.\<close>

definition telemetry_FromResource :: "(nat \<Rightarrow> nat) \<Rightarrow> ('n \<Rightarrow> telemetry_config \<Rightarrow> (string, telemetry_config) result)
    \<Rightarrow> (string \<Rightarrow> (string, int) result) \<Rightarrow> (string \<Rightarrow> (string \<times> string) option) \<Rightarrow> 'n resource
    \<Rightarrow> (telemetry_error, telemetry_config) result" where
  "telemetry_FromResource ulower dec parseDuration parseURL r =
     (let c0 = telemetry_Default\<lparr>tcServiceName := [], tcAccessLog := (tcAccessLog telemetry_Default)\<lparr>alProperties := None\<rparr>\<rparr> in
     bindR (mapErr TelemetryDecode (dec (Spec r) c0)) (\<lambda>c.
     guardR (tcServiceName c = []) ServiceNameRequired (
     guardR (gm_get logLevels (tcLogLevel c) = None) (LogLevel (tcLogLevel c)) (
     guardR (otProtocol (tcOTLP c) \<noteq> protoHTTP \<and> otProtocol (tcOTLP c) \<noteq> protoGRPC) (OtlpProtocol (otProtocol (tcOTLP c))) (
     bindR (if otTimeout (tcOTLP c) \<noteq> [] then mapErr OtlpTimeout (parseDuration (otTimeout (tcOTLP c))) else Inr 0) (\<lambda>d.
     guardR (otEndpoint (tcOTLP c) \<noteq> [] \<and>
             (case parseURL (otEndpoint (tcOTLP c)) of None \<Rightarrow> True
              | Some (scheme, host) \<Rightarrow> host = [] \<or> (scheme \<noteq> ''http'' \<and> scheme \<noteq> ''https'')))
       (OtlpEndpoint (otEndpoint (tcOTLP c))) (
     guardR (f_less (tcSamplingRatio c) (Finite 0 0) \<or> f_less (Finite 1 0) (tcSamplingRatio c)) (SamplingRatio (tcSamplingRatio c)) (
     guardR (gm_get logLevels (alLevel (tcAccessLog c)) = None) (AccessLogLevel (alLevel (tcAccessLog c))) (
     let props = (case alProperties (tcAccessLog c) of None \<Rightarrow> default_properties | Some ps \<Rightarrow> ps);
         c' = c\<lparr>tcAccessLog := (tcAccessLog c)\<lparr>alProperties := Some props\<rparr>\<rparr>
     in case find (\<lambda>p. p \<notin> set allowedProperties) props of
          Some p \<Rightarrow> Inl (UnknownProperty p)
        | None \<Rightarrow>
            (case find (isCredentialHeader ulower) (map snd (alHeaders (tcAccessLog c'))) of
               Some h \<Rightarrow> Inl (CredentialHeader h)
             | None \<Rightarrow> Inr c'))))))))))"

definition SlogLevel :: "string \<Rightarrow> int" where
  "SlogLevel l = (case gm_get logLevels l of None \<Rightarrow> 0 | Some n \<Rightarrow> n)"

section \<open>The access log\<close>

record span_context =
  scTraceID :: "string option"
  scSpanID :: "string option"

definition accessLogClientIP :: "request \<Rightarrow> string" where
  "accessLogClientIP r = (case SplitHost (rRemoteAddr r) of Some h \<Rightarrow> h | None \<Rightarrow> rRemoteAddr r)"

definition opt_attr :: "string \<Rightarrow> string option \<Rightarrow> (string \<times> string) list" where
  "opt_attr k v = (case v of Some s \<Rightarrow> [(k, s)] | None \<Rightarrow> [])"

text \<open>One property; only \<open>duration_ms\<close> reads the clock. \<open>bytes\<close> is what the recorder counted.\<close>

definition accessLogProperty :: "(nat \<Rightarrow> nat) \<Rightarrow> span_context \<Rightarrow> request \<Rightarrow> int \<Rightarrow> nat \<Rightarrow> string \<Rightarrow> 'st world
    \<Rightarrow> (string \<times> string) list \<times> 'st world" where
  "accessLogProperty ulower sc r start bytes name w =
     (if name = ''duration_ms'' then ([(name, Itoa_int (millis (now w - start)))], tick w)
      else
       (if name = ''method'' then [(name, rMethod r)]
        else if name = ''path'' then [(name, rPath r)]
        else if name = ''route'' then [(name, rPattern r)]
        else if name = ''query'' then [(name, redactQuery ulower (rRawQuery r))]
        else if name = ''status'' then [(name, Itoa (recorded w))]
        else if name = ''bytes_out'' then [(name, Itoa bytes)]
        else if name = ''client_ip'' then [(name, accessLogClientIP r)]
        else if name = ''host'' then [(name, rHost r)]
        else if name = ''protocol'' then [(name, rProto r)]
        else if name = ''user_id'' then opt_attr name (map_option Subject (FromContext r))
        else if name = ''session_id'' then
          (case FromContext r of Some p \<Rightarrow> if SessionID p \<noteq> [] then [(name, SessionID p)] else [] | None \<Rightarrow> [])
        else if name = ''request_id'' then (let rid = wGet w ''X-Request-Id'' in if rid \<noteq> [] then [(name, rid)] else [])
        else if name = ''trace_id'' then opt_attr name (scTraceID sc)
        else if name = ''span_id'' then opt_attr name (scSpanID sc)
        else [], w))"

fun property_attrs :: "(nat \<Rightarrow> nat) \<Rightarrow> span_context \<Rightarrow> request \<Rightarrow> int \<Rightarrow> nat \<Rightarrow> string list \<Rightarrow> 'st world
    \<Rightarrow> (string \<times> string) list \<times> 'st world" where
  "property_attrs u sc r start bytes [] w = ([], w)"
| "property_attrs u sc r start bytes (p # ps) w =
     (case accessLogProperty u sc r start bytes p w of (a, w1) \<Rightarrow>
        (case property_attrs u sc r start bytes ps w1 of (b, w2) \<Rightarrow> (a @ b, w2)))"

definition header_attr :: "(nat \<Rightarrow> nat) \<Rightarrow> header \<Rightarrow> string \<times> string \<Rightarrow> (string \<times> string) list" where
  "header_attr ulower h fh = (let v = hGet h (snd fh) in if v \<noteq> [] then [(fst fh, redactHeader ulower (snd fh) v)] else [])"

definition AccessLog :: "(nat \<Rightarrow> nat) \<Rightarrow> (request \<Rightarrow> span_context) \<Rightarrow> int \<Rightarrow> (request \<Rightarrow> 'st world \<Rightarrow> header)
    \<Rightarrow> access_log_config \<Rightarrow> 'st middleware" where
  "AccessLog ulower span minLevel final cfg next r w =
     (let start = now w in
      case next r (forgetLast (tick w)) of
        Panicked v w1 \<Rightarrow> Panicked v w1
      | Done w1 \<Rightarrow>
          if SlogLevel (alLevel cfg) < minLevel then Done w1
          else
            (case property_attrs ulower (span r) r start (length (wBody (resp w1)) - length (wBody (resp w)))
                    (case alProperties cfg of None \<Rightarrow> [] | Some ps \<Rightarrow> ps) w1 of
               (attrs, w2) \<Rightarrow>
                 Done (emitLog (attrs @ concat (map (header_attr ulower (final r w)) (alHeaders cfg)) @ alFields cfg) w2)))"

definition LogAttrs :: "span_context \<Rightarrow> (string \<times> string) list" where
  "LogAttrs sc = opt_attr ''trace_id'' (scTraceID sc) @ opt_attr ''span_id'' (scSpanID sc)"

section \<open>Secrets stay out of the log\<close>

lemma redacted_ok:
  "gm_ok (map (\<lambda>(k, vs). if sensitive u k then (k, [''REDACTED'']) else (k, vs)) (ParseQuery raw))"
proof -
  have "fst \<circ> (\<lambda>(k, vs). if sensitive u k then (k, [''REDACTED'']) else (k, vs)) = fst" by (auto simp: fun_eq_iff)
  then show ?thesis using ParseQuery_inv [of raw] by (simp add: gm_ok_def)
qed

lemma redacted_get:
  "gm_get (map (\<lambda>(k, vs). if sensitive u k then (k, [''REDACTED'']) else (k, vs)) m) k =
     (if sensitive u k then map_option (\<lambda>vs. [''REDACTED'']) (gm_get m k) else gm_get m k)"
  by (induction m) auto

text \<open>A logged query says nothing about sensitive parameters: parsed back, every parameter of a well-formed query has its
  values, except that each sensitive one, however its name is written, has the single value \<open>REDACTED\<close>; a query that does not parse is
  not logged at all.\<close>

theorem redactQuery_hides:
  "gm_get (ParseQuery (redactQuery u raw)) k =
     (if query_error raw then None
      else if sensitive u k then map_option (\<lambda>vs. [''REDACTED'']) (gm_get (ParseQuery raw) k)
      else gm_get (ParseQuery raw) k)"
proof -
  let ?f = "\<lambda>(k, vs). if sensitive u k then (k, [''REDACTED'']) else (k, vs)"
  have empty: "ParseQuery [] = []" by (simp add: ParseQuery_def)
  have "[] \<notin> snd ` set (map ?f (ParseQuery raw))" using ParseQuery_inv [of raw] by (force split: if_splits)
  with redacted_ok have "gm_get (ParseQuery (Encode (map ?f (ParseQuery raw)))) k = gm_get (map ?f (ParseQuery raw)) k"
    by (rule ParseQuery_Encode)
  then show ?thesis by (auto simp: redactQuery_def empty redacted_get)
qed

lemma map_lower_canon: "map byte_lower (canon_go b s) = map byte_lower s"
proof -
  have "byte_lower (byte_upper c) = byte_lower c" for c
    by (auto simp: byte_inject [symmetric] byte_case)
  then show ?thesis by (induction b s rule: canon_go.induct) auto
qed

lemma map_lower_Canonical: "map byte_lower (CanonicalHeaderKey h) = map byte_lower h"
  by (simp add: CanonicalHeaderKey_def map_lower_canon)

lemma ascii_byte_lower: "ascii (byte_lower c) = ascii c"
  by (auto simp: ascii_def byte_lower_def Let_def byte_def)

definition secret_headers :: "string list" where
  "secret_headers = [''Authorization'', ''Proxy-Authorization'', ''Cookie'', ''Set-Cookie'', ''X-Hog-Identity'']"

lemma credential_canonical:
  assumes "CanonicalHeaderKey h \<in> set secret_headers"
  shows "isCredentialHeader u h"
proof -
  have t: "\<forall>s \<in> set secret_headers. list_all ascii s \<and> map byte_lower s \<in> set credentialHeaders" by code_simp
  have "list_all ascii (map byte_lower h) \<longleftrightarrow> list_all ascii h" for h
    by (simp add: list_all_iff ascii_byte_lower)
  then have "list_all ascii h \<longleftrightarrow> list_all ascii (CanonicalHeaderKey h)" by (metis map_lower_Canonical)
  with t assms have "list_all ascii h" by blast
  moreover have "map byte_lower h \<in> set credentialHeaders" using t assms by (metis map_lower_Canonical)
  ultimately show ?thesis by (simp add: isCredentialHeader_def ToLower_ascii)
qed

text \<open>Two header maps that differ only in the values of credential headers, and two queries that differ only in the values of
  sensitive parameters.\<close>

definition header_alike :: "header \<Rightarrow> header \<Rightarrow> bool" where
  "header_alike h h' \<longleftrightarrow> (\<forall>k. k \<notin> set secret_headers \<longrightarrow> gm_get h k = gm_get h' k)
     \<and> (\<forall>k \<in> set secret_headers. (hGet h k = []) = (hGet h' k = []))"

definition query_alike :: "(nat \<Rightarrow> nat) \<Rightarrow> string \<Rightarrow> string \<Rightarrow> bool" where
  "query_alike u q q' \<longleftrightarrow> query_error q = query_error q'
     \<and> (\<forall>k. if sensitive u k then (gm_get (ParseQuery q) k = None) = (gm_get (ParseQuery q') k = None)
            else gm_get (ParseQuery q) k = gm_get (ParseQuery q') k)"

lemma header_attr_alike:
  assumes "header_alike h h'"
  shows "header_attr u h fh = header_attr u h' fh"
proof (cases "CanonicalHeaderKey (snd fh) \<in> set secret_headers")
  case True
  then have "(hGet h (CanonicalHeaderKey (snd fh)) = []) = (hGet h' (CanonicalHeaderKey (snd fh)) = [])"
    using assms by (simp add: header_alike_def)
  then have "(hGet h (snd fh) = []) = (hGet h' (snd fh) = [])" by (simp add: hGet_def)
  then show ?thesis using credential_canonical [OF True] by (simp add: header_attr_def redactHeader_def Let_def)
next
  case False
  with assms show ?thesis by (simp add: header_alike_def header_attr_def hGet_def)
qed

lemma Encode_cong:
  assumes "gm_ok m" "gm_ok m'" "\<And>k. gm_get m k = gm_get m' k"
  shows "Encode m = Encode m'"
proof -
  have "set (map fst m) = set (map fst m')" using assms(3) by (metis gm_get_None list.set_map subsetI subset_antisym)
  then have "sort (map fst m) = sort (map fst m')"
    using assms(1,2) by (intro sorted_distinct_set_unique) (simp_all add: gm_ok_def)
  then show ?thesis by (simp add: Encode_def encode_pairs_def assms(3))
qed

lemma redactQuery_alike:
  assumes "query_alike u q q'"
  shows "redactQuery u q = redactQuery u q'"
proof -
  have e: "redactQuery u raw = (if query_error raw then [] else
      Encode (map (\<lambda>(k, vs). if sensitive u k then (k, [''REDACTED'']) else (k, vs)) (ParseQuery raw)))" for raw
    by (simp add: redactQuery_def ParseQuery_def Encode_def encode_pairs_def)
  have g: "map_option (\<lambda>vs. [''REDACTED'']) (gm_get (ParseQuery q) k) = map_option (\<lambda>vs. [''REDACTED'']) (gm_get (ParseQuery q') k)"
    if "sensitive u k" for k
  proof -
    have "(gm_get (ParseQuery q) k = None) = (gm_get (ParseQuery q') k = None)" using assms that unfolding query_alike_def by metis
    then show ?thesis by (cases "gm_get (ParseQuery q) k"; cases "gm_get (ParseQuery q') k") auto
  qed
  have "Encode (map (\<lambda>(k, vs). if sensitive u k then (k, [''REDACTED'']) else (k, vs)) (ParseQuery q))
      = Encode (map (\<lambda>(k, vs). if sensitive u k then (k, [''REDACTED'']) else (k, vs)) (ParseQuery q'))"
    by (rule Encode_cong [OF redacted_ok redacted_ok]) (use assms g in \<open>simp add: redacted_get query_alike_def\<close>)
  with assms show ?thesis by (simp add: e query_alike_def)
qed

lemma property_attrs_alike:
  assumes "redactQuery u q' = redactQuery u (rRawQuery r)"
  shows "property_attrs u sc (r\<lparr>rHeader := h', rRawQuery := q'\<rparr>) start b ps w = property_attrs u sc r start b ps w"
proof (induction ps arbitrary: w)
  case (Cons p ps)
  have "accessLogProperty u sc (r\<lparr>rHeader := h', rRawQuery := q'\<rparr>) start b p w = accessLogProperty u sc r start b p w"
    unfolding accessLogProperty_def by (simp add: assms accessLogClientIP_def FromContext_def cong: option.case_cong)
  with Cons.IH show ?case by simp
qed simp

text \<open>C32. Credentials never reach the access log, whatever the configuration (also one assembled in code). Two requests that differ
  only in the values of the built-in credential headers (Authorization, Proxy-Authorization, Cookie, Set-Cookie, X-Hog-Identity)
  and of sensitive query parameters (codes, states, tokens, keys, secrets, passwords, assertions) get the same answer and the same
  log line, provided the handlers behind the log answer them alike and do not copy a credential into another header of the
  request.\<close>

theorem access_log_no_credentials:
  assumes "r' = r\<lparr>rHeader := h', rRawQuery := q'\<rparr>" "header_alike (rHeader r) h'" "query_alike u (rRawQuery r) q'"
    and "next r' (forgetLast (tick w)) = next r (forgetLast (tick w))" "tr r' = tr r"
    and "header_alike (rHeader r) (rHeader r') \<Longrightarrow> header_alike (final r w) (final r' w)"
  shows "AccessLog u tr minLevel final cfg next r' w = AccessLog u tr minLevel final cfg next r w"
proof -
  have "header_attr u (final r' w) = header_attr u (final r w)"
    using header_attr_alike [of "final r w" "final r' w"] assms(1,2,6) by (simp add: fun_eq_iff)
  moreover have "property_attrs u sc r' start b ps v = property_attrs u sc r start b ps v" for sc start b ps and v :: "'a world"
    unfolding assms(1) by (rule property_attrs_alike) (rule redactQuery_alike [OF assms(3), symmetric])
  ultimately show ?thesis by (simp only: AccessLog_def assms(4,5))
qed

definition demo_log :: access_log_config where
  "demo_log = \<lparr>alLevel = ''info'', alProperties = Some [''method'', ''query''], alHeaders = [(''auth'', ''authorization'')], alFields = []\<rparr>"

abbreviation demo_secret :: "string \<Rightarrow> string \<Rightarrow> request" where
  "demo_secret token q \<equiv> demo_request\<lparr>rHeader := [(''Authorization'', [token])], rRawQuery := q\<rparr>"

theorem access_log_no_credentials_witness:
  "AccessLog ascii_rune_lower (\<lambda>r. \<lparr>scTraceID = None, scSpanID = None\<rparr>) 0 (\<lambda>r w. rHeader r) demo_log
     (\<lambda>r w. Done w) (demo_secret ''Bearer b'' ''a=1&code=c2'') (demo_world ()) =
   AccessLog ascii_rune_lower (\<lambda>r. \<lparr>scTraceID = None, scSpanID = None\<rparr>) 0 (\<lambda>r w. rHeader r) demo_log
     (\<lambda>r w. Done w) (demo_secret ''Bearer a'' ''code=c1&a=1'') (demo_world ())"
proof (rule access_log_no_credentials)
  show "header_alike (rHeader (demo_secret ''Bearer a'' ''code=c1&a=1'')) [(''Authorization'', [''Bearer b''])]"
    by (simp add: header_alike_def secret_headers_def) code_simp
  have q: "ParseQuery ''code=c1&a=1'' = [(''code'', [''c1'']), (''a'', [''1''])]" "ParseQuery ''a=1&code=c2'' = [(''a'', [''1'']), (''code'', [''c2''])]"
    "\<not> query_error ''code=c1&a=1''" "\<not> query_error ''a=1&code=c2''" "sensitive ascii_rune_lower ''code''" "\<not> sensitive ascii_rune_lower ''a''"
    by code_simp+
  show "query_alike ascii_rune_lower (rRawQuery (demo_secret ''Bearer a'' ''code=c1&a=1'')) ''a=1&code=c2''"
    using q(5) by (auto simp: query_alike_def q(1-4))
qed simp_all

definition ratio_ok :: "float64 \<Rightarrow> bool" where
  "ratio_ok x \<longleftrightarrow> (case x of Finite m k \<Rightarrow> 0 \<le> m \<and> m \<le> 2 ^ k | _ \<Rightarrow> False)"

text \<open>An endpoint is empty or an http(s) URL with a host.\<close>

definition endpoint_ok :: "(string \<Rightarrow> (string \<times> string) option) \<Rightarrow> string \<Rightarrow> bool" where
  "endpoint_ok parseURL e \<longleftrightarrow> e = [] \<or> (\<exists>scheme host. parseURL e = Some (scheme, host) \<and> host \<noteq> [] \<and> scheme \<in> {''http'', ''https''})"

lemma ratio_checked: "\<not> (f_less x (Finite 0 0) \<or> f_less (Finite 1 0) x) \<longleftrightarrow> x = NaN \<or> ratio_ok x"
  by (cases x) (auto simp: f_less_def ratio_ok_def)

text \<open>C33. An accepted Telemetry resource is usable: the service has a name, both log levels and the protocol are known, the
  exporter's timeout is absent or a duration, its endpoint is absent or an http(s) URL with a host, every access-log property is an
  allowed one, and no credential header is captured. The sampling ratio lies between 0 and 1, with one exception: a ratio that is
  not a number passes the range check and is accepted.\<close>

theorem telemetry_FromResource_valid:
  assumes "telemetry_FromResource u dec pd pu r = Inr c"
  shows "tcServiceName c \<noteq> [] \<and> gm_get logLevels (tcLogLevel c) \<noteq> None \<and> otProtocol (tcOTLP c) \<in> {protoHTTP, protoGRPC}
    \<and> (otTimeout (tcOTLP c) = [] \<or> (\<exists>d. pd (otTimeout (tcOTLP c)) = Inr d)) \<and> endpoint_ok pu (otEndpoint (tcOTLP c))
    \<and> (tcSamplingRatio c = NaN \<or> ratio_ok (tcSamplingRatio c))
    \<and> gm_get logLevels (alLevel (tcAccessLog c)) \<noteq> None
    \<and> (\<exists>ps. alProperties (tcAccessLog c) = Some ps \<and> set ps \<subseteq> set allowedProperties)
    \<and> (\<forall>h \<in> snd ` set (alHeaders (tcAccessLog c)). CanonicalHeaderKey h \<notin> set secret_headers)"
proof -
  from assms obtain c0 where
    g: "tcServiceName c0 \<noteq> []" "gm_get logLevels (tcLogLevel c0) \<noteq> None" "\<not> (otProtocol (tcOTLP c0) \<noteq> protoHTTP \<and> otProtocol (tcOTLP c0) \<noteq> protoGRPC)"
      "\<not> (f_less (tcSamplingRatio c0) (Finite 0 0) \<or> f_less (Finite 1 0) (tcSamplingRatio c0))"
      "gm_get logLevels (alLevel (tcAccessLog c0)) \<noteq> None"
    and t: "\<exists>d. (if otTimeout (tcOTLP c0) \<noteq> [] then mapErr OtlpTimeout (pd (otTimeout (tcOTLP c0))) else Inr 0) = Inr d"
    and e: "\<not> (otEndpoint (tcOTLP c0) \<noteq> [] \<and> (case pu (otEndpoint (tcOTLP c0)) of None \<Rightarrow> True
              | Some (scheme, host) \<Rightarrow> host = [] \<or> (scheme \<noteq> ''http'' \<and> scheme \<noteq> ''https'')))"
    and k: "(let props = (case alProperties (tcAccessLog c0) of None \<Rightarrow> default_properties | Some ps \<Rightarrow> ps);
         c' = c0\<lparr>tcAccessLog := (tcAccessLog c0)\<lparr>alProperties := Some props\<rparr>\<rparr>
     in case find (\<lambda>p. p \<notin> set allowedProperties) props of
          Some p \<Rightarrow> Inl (UnknownProperty p)
        | None \<Rightarrow>
            (case find (isCredentialHeader u) (map snd (alHeaders (tcAccessLog c'))) of
               Some h \<Rightarrow> Inl (CredentialHeader h)
             | None \<Rightarrow> Inr c')) = Inr c"
    unfolding telemetry_FromResource_def Let_def result_inr by blast
  from k obtain props where c: "c = c0\<lparr>tcAccessLog := (tcAccessLog c0)\<lparr>alProperties := Some props\<rparr>\<rparr>"
    and p: "find (\<lambda>p. p \<notin> set allowedProperties) props = None"
    and h: "find (isCredentialHeader u) (map snd (alHeaders (tcAccessLog c0))) = None"
    unfolding Let_def by (auto split: option.splits)
  from h have "\<forall>h \<in> snd ` set (alHeaders (tcAccessLog c0)). CanonicalHeaderKey h \<notin> set secret_headers"
    using credential_canonical [of _ u] by (auto simp: find_None_iff)
  moreover have "otTimeout (tcOTLP c0) = [] \<or> (\<exists>d. pd (otTimeout (tcOTLP c0)) = Inr d)" using t by (auto split: if_splits)
  moreover have "endpoint_ok pu (otEndpoint (tcOTLP c0))" using e by (auto simp: endpoint_ok_def split: option.splits)
  moreover have "tcSamplingRatio c0 = NaN \<or> ratio_ok (tcSamplingRatio c0)" using g(4) ratio_checked by blast
  ultimately show ?thesis using c g(1-3,5) p by (auto simp: find_None_iff)
qed

definition demo_telemetry :: "telemetry_config resource" where
  "demo_telemetry = \<lparr>APIVersion = [], Kind = ''Telemetry'', Metadata = \<lparr>Name = ''t'', Labels = []\<rparr>,
     Spec = telemetry_Default\<lparr>tcServiceName := ''app'', tcSamplingRatio := Finite 1 1,
       tcOTLP := (tcOTLP telemetry_Default)\<lparr>otEndpoint := ''http://c'', otTimeout := ''5s''\<rparr>\<rparr>\<rparr>"

theorem telemetry_FromResource_valid_witness:
  "\<exists>c. telemetry_FromResource ascii_rune_lower (\<lambda>n c. Inr n) (\<lambda>s. Inr 5) (\<lambda>s. Some (''http'', ''c'')) demo_telemetry = Inr c
     \<and> endpoint_ok (\<lambda>s. Some (''http'', ''c'')) (otEndpoint (tcOTLP c)) \<and> (tcSamplingRatio c = NaN \<or> ratio_ok (tcSamplingRatio c))"
proof -
  let ?r = "telemetry_FromResource ascii_rune_lower (\<lambda>n c. Inr n) (\<lambda>s. Inr 5) (\<lambda>s. Some (''http'', ''c'')) demo_telemetry"
  have "isl ?r = False" by code_simp
  then obtain c where "?r = Inr c" by (cases ?r) auto
  with telemetry_FromResource_valid [OF this] show ?thesis by blast
qed

section \<open>The user of a request\<close>

definition user_log :: access_log_config where
  "user_log = \<lparr>alLevel = ''info'', alProperties = Some [''user_id'', ''session_id''], alHeaders = [], alFields = []\<rparr>"

text \<open>A handler that records the subject it is asked for.\<close>

definition subject_handler :: "'st handler" where
  "subject_handler r w = Done (emitLog [(''subject'', case FromContext r of Some p \<Rightarrow> Subject p | None \<Rightarrow> [])] w)"

lemma user_attrs:
  assumes "FromContext r = None"
  shows "property_attrs u sc r start b [''user_id'', ''session_id''] v = ([], v)"
  unfolding property_attrs.simps accessLogProperty_def opt_attr_def assms by simp

text \<open>The access log runs outside the gates and reads the request it was given, so it never sees the principal
  they resolve: the handler serves the signed-in user, and the line of that request has neither
  \<open>user_id\<close> nor \<open>session_id\<close>.\<close>

theorem access_log_never_names_user:
  assumes "FromContext r = None"
  shows "\<exists>w'. Compose subject_handler (Skeleton (no_gates\<lparr>gSession := Some (\<lambda>next r. next (WithPrincipal p r))\<rparr>)
       (Some (AccessLog u tr 0 final user_log))) r w = Done w' \<and> alog w' = alog w @ [[(''subject'', Subject p)], []]"
proof -
  let ?inner = "\<lambda>r. subject_handler (WithPrincipal p r)"
  let ?log = "AccessLog u tr 0 final user_log ?inner"
  have chain: "Compose subject_handler (Skeleton (no_gates\<lparr>gSession := Some (\<lambda>next r. next (WithPrincipal p r))\<rparr>)
      (Some (AccessLog u tr 0 final user_log))) = recoverMW (requestIDMW ?log)"
    by (simp add: Skeleton_unfold no_gates_def orReserved_def reserved_def)
  have "SlogLevel (alLevel user_log) = 0" by code_simp
  then have log: "\<exists>v. ?log r w0 = Done v \<and> alog v = alog w0 @ [[(''subject'', Subject p)], []]" for w0
    unfolding AccessLog_def Let_def by (simp add: subject_handler_def user_attrs [OF assms] del: property_attrs.simps)
      (simp add: user_log_def user_attrs [OF assms] emitLog_def forgetLast_def tick_def del: property_attrs.simps)
  have al: "alog (wSet k x w0) = alog w0" "alog (useRand n w0) = alog w0" for k x n and w0 :: "'a world"
    by (simp_all add: wSet_def useRand_def)
  obtain v where "requestIDMW ?log r w = Done v" "alog v = alog w @ [[(''subject'', Subject p)], []]"
    using log [of "wSet ''X-Request-Id'' (hex_encode (randBytes 16 w)) (useRand 16 w)"]
      log [of "wSet ''X-Request-Id'' (reqGet r ''X-Request-Id'') w"]
    unfolding requestIDMW_def Let_def al by (cases "reqGet r ''X-Request-Id'' = []") auto
  then show ?thesis unfolding chain recoverMW_def by simp
qed

theorem access_log_never_names_user_witness:
  "\<exists>w'. Compose subject_handler (Skeleton (no_gates\<lparr>gSession := Some (\<lambda>next r. next (WithPrincipal
       \<lparr>Subject = ''ann'', Passport = [], Groups = [], AccessToken = [], SessionID = ''s1''\<rparr> r))\<rparr>)
       (Some (AccessLog ascii_rune_lower (\<lambda>r. \<lparr>scTraceID = None, scSpanID = None\<rparr>) 0 (\<lambda>r w. []) user_log))) demo_request (demo_world ()) = Done w'
     \<and> alog w' = [[(''subject'', ''ann'')], []]"
proof -
  have "FromContext demo_request = None" "alog (demo_world ()) = []" by code_simp+
  with access_log_never_names_user [of demo_request "\<lparr>Subject = ''ann'', Passport = [], Groups = [], AccessToken = [], SessionID = ''s1''\<rparr>"
      ascii_rune_lower "\<lambda>r. \<lparr>scTraceID = None, scSpanID = None\<rparr>" "\<lambda>r w. []" "demo_world ()"]
  show ?thesis by auto
qed

end
