(* ===== verification/Registry.thy ===== *)
theory Registry
  imports Hog_Prelude
begin

text \<open>
  The module registry (\<^verbatim>\<open>src/registry/registry.go\<close>): factories by kind and name.
  \<open>Register\<close> panics on a duplicate, \<open>Build\<close> instantiates a module by name. The read-write
  mutex makes each operation atomic, so an operation is a function on the registry's map.

  The locale \<open>module_registry\<close> states what the rest of the program relies on; the model is its
  interpretation.
\<close>

datatype reg_error = DuplicateModule string string | NoModule string string

type_synonym 'f registry = "(string, (string, 'f) gomap) gomap"

definition New :: "'f registry" where
  "New = []"

definition kind_map :: "'f registry \<Rightarrow> string \<Rightarrow> (string, 'f) gomap" where
  "kind_map r kind = (case gm_get r kind of None \<Rightarrow> [] | Some m \<Rightarrow> m)"

definition Register :: "string \<Rightarrow> string \<Rightarrow> 'f \<Rightarrow> 'f registry \<Rightarrow> (reg_error, 'f registry) result" where
  "Register kind name f r =
     (let m = kind_map r kind in
      if gm_get m name \<noteq> None then Inl (DuplicateModule kind name)
      else Inr (gm_set kind (gm_set name f m) r))"

definition Lookup :: "'f registry \<Rightarrow> string \<Rightarrow> string \<Rightarrow> 'f option" where
  "Lookup r kind name = gm_get (kind_map r kind) name"

text \<open>\<open>wrap\<close> embeds the registry's error in the error type of the factories.\<close>

definition Build :: "(reg_error \<Rightarrow> 'e) \<Rightarrow> (string \<Rightarrow> 'c \<Rightarrow> ('e, 'm) result) registry
    \<Rightarrow> string \<Rightarrow> string \<Rightarrow> 'c \<Rightarrow> ('e, 'm) result" where
  "Build wrap r kind name cfg =
     (case gm_get (kind_map r kind) name of
        None \<Rightarrow> Inl (wrap (NoModule kind name))
      | Some f \<Rightarrow> f name cfg)"

text \<open>Registering the modules of a binary, in \<open>init()\<close> order.\<close>

definition RegisterAll :: "(string \<times> string \<times> 'f) list \<Rightarrow> 'f registry \<Rightarrow> (reg_error, 'f registry) result" where
  "RegisterAll ms r = foldR (\<lambda>r (k, n, f). Register k n f r) r ms"

section \<open>The contract\<close>

locale module_registry =
  fixes empty :: 'r
    and register :: "string \<Rightarrow> string \<Rightarrow> 'f \<Rightarrow> 'r \<Rightarrow> ('e, 'r) result"
    and find :: "'r \<Rightarrow> string \<Rightarrow> string \<Rightarrow> 'f option"
  assumes find_empty: "find empty k n = None"
    and register_fresh: "find r k n = None \<Longrightarrow> \<exists>r'. register k n f r = Inr r'"
    and register_dup: "find r k n \<noteq> None \<Longrightarrow> \<exists>e. register k n f r = Inl e"
    and find_register: "register k n f r = Inr r' \<Longrightarrow>
      find r' k' n' = (if k' = k \<and> n' = n then Some f else find r k' n')"
begin

lemma register_ok_iff: "(\<exists>r'. register k n f r = Inr r') \<longleftrightarrow> find r k n = None"
  using register_fresh register_dup by (metis sum.simps(4))

lemma fold_register_find:
  assumes "foldR (\<lambda>r (k, n, f). register k n f r) r ms = Inr r'"
  shows "find r' k n =
    (case map_of (map (\<lambda>(k, n, f). ((k, n), f)) ms) (k, n) of None \<Rightarrow> find r k n | Some f \<Rightarrow> Some f)"
  using assms
proof (induction ms arbitrary: r)
  case Nil
  then show ?case by simp
next
  case (Cons m ms)
  obtain k0 n0 f0 where m: "m = (k0, n0, f0)" by (cases m) auto
  with Cons.prems obtain r1 where r1: "register k0 n0 f0 r = Inr r1"
    and rest: "foldR (\<lambda>r (k, n, f). register k n f r) r1 ms = Inr r'"
    by (auto split: sum.splits)
  have pre: "find r k0 n0 = None" using r1 register_ok_iff by blast
  have keep: "find r2 k0 n0 = Some f0" if "foldR (\<lambda>r (k, n, f). register k n f r) q xs = Inr r2"
    "find q k0 n0 = Some f0" for q r2 xs
    using that
  proof (induction xs arbitrary: q)
    case Nil
    then show ?case by simp
  next
    case (Cons x xs)
    obtain a b c where x: "x = (a, b, c)" by (cases x) auto
    with Cons.prems(1) obtain q1 where "register a b c q = Inr q1"
      "foldR (\<lambda>r (k, n, f). register k n f r) q1 xs = Inr r2" by (auto split: sum.splits)
    moreover from this(1) have "find q1 k0 n0 = Some f0"
      using Cons.prems(2) find_register register_ok_iff by (metis option.distinct(1))
    ultimately show ?case using Cons.IH by blast
  qed
  have "find r1 k0 n0 = Some f0" using find_register [OF r1] by simp
  with keep [OF rest] Cons.IH [OF rest] find_register [OF r1] m show ?case
    by (auto split: option.splits)
qed

lemma fold_register_ok:
  "(\<exists>r'. foldR (\<lambda>r (k, n, f). register k n f r) r ms = Inr r') \<longleftrightarrow>
     distinct (map (\<lambda>(k, n, f). (k, n)) ms) \<and> (\<forall>(k, n, f) \<in> set ms. find r k n = None)"
proof (induction ms arbitrary: r)
  case Nil
  then show ?case by simp
next
  case (Cons m ms)
  obtain k n f where m: "m = (k, n, f)" by (cases m) auto
  show ?case
  proof (cases "find r k n")
    case None
    then obtain r1 where r1: "register k n f r = Inr r1" using register_fresh by blast
    have "(\<forall>(k', n', f') \<in> set ms. find r1 k' n' = None) \<longleftrightarrow>
        (k, n) \<notin> set (map (\<lambda>(k, n, f). (k, n)) ms) \<and> (\<forall>(k', n', f') \<in> set ms. find r k' n' = None)"
      unfolding split_beta by (auto simp: find_register [OF r1] split: if_splits)
    with m None r1 Cons.IH [of r1] show ?thesis by auto
  next
    case (Some g)
    then obtain e where "register k n f r = Inl e" using register_dup by blast
    with m Some show ?thesis by auto
  qed
qed

end

section \<open>The model implements the contract\<close>

lemma kind_map_set: "kind_map (gm_set k m r) k' = (if k' = k then m else kind_map r k')"
  by (simp add: kind_map_def gm_get_set)

interpretation hogreg: module_registry New Register Lookup
  by unfold_locales
     (auto simp: New_def Register_def Lookup_def Let_def kind_map_set gm_get_set kind_map_def
       split: if_splits)

text \<open>Registering a list of modules on a fresh registry succeeds exactly when no two of them
  share a kind and a name, and then \<open>Build\<close> runs precisely the factory registered under the
  requested kind and name, and reports a missing module for any other.\<close>

theorem RegisterAll_Build:
  "((\<exists>r. RegisterAll ms New = Inr r) \<longleftrightarrow> distinct (map (\<lambda>(k, n, f). (k, n)) ms)) \<and>
   (\<forall>r. RegisterAll ms New = Inr r \<longrightarrow>
     Build wrap r kind name cfg =
       (case map_of (map (\<lambda>(k, n, f). ((k, n), f)) ms) (kind, name) of
          None \<Rightarrow> Inl (wrap (NoModule kind name)) | Some f \<Rightarrow> f name cfg))"
proof (intro conjI allI impI)
  show "(\<exists>r. RegisterAll ms New = Inr r) \<longleftrightarrow> distinct (map (\<lambda>(k, n, f). (k, n)) ms)"
    using hogreg.fold_register_ok [of New ms]
    by (simp add: RegisterAll_def hogreg.find_empty split_beta)
next
  fix r
  assume "RegisterAll ms New = Inr r"
  then have "Lookup r kind name =
      (case map_of (map (\<lambda>(k, n, f). ((k, n), f)) ms) (kind, name) of None \<Rightarrow> None | Some f \<Rightarrow> Some f)"
    unfolding RegisterAll_def
    by (simp add: hogreg.fold_register_find hogreg.find_empty split: option.splits)
  then show "Build wrap r kind name cfg =
       (case map_of (map (\<lambda>(k, n, f). ((k, n), f)) ms) (kind, name) of
          None \<Rightarrow> Inl (wrap (NoModule kind name)) | Some f \<Rightarrow> f name cfg)"
    by (auto simp: Build_def Lookup_def split: option.splits)
qed

theorem RegisterAll_Build_witness:
  "\<exists>r. RegisterAll [(''IdP'', ''oidc'', \<lambda>n (c::unit). Inr n)] New = Inr r
     \<and> Build id r ''IdP'' ''oidc'' () = Inr ''oidc'' \<and> Build id r ''IdP'' ''x'' () = Inl (NoModule ''IdP'' ''x'')"
proof -
  let ?ms = "[(''IdP'', ''oidc'', \<lambda>n (c::unit). Inr n)] ::
    (string \<times> string \<times> (string \<Rightarrow> unit \<Rightarrow> (reg_error, string) result)) list"
  obtain r where r: "RegisterAll ?ms New = Inr r"
    using RegisterAll_Build [of ?ms id "''IdP''" "''x''" "()"] by auto
  show ?thesis
    using r RegisterAll_Build [of ?ms id "''IdP''" "''oidc''" "()"] RegisterAll_Build [of ?ms id "''IdP''" "''x''" "()"]
    by simp
qed

end
