(* ===== verification/App.thy ===== *)
theory App
  imports Login_Flow Assertion Authz Security Telemetry Registry
begin

text \<open>
  Assembly (\<^verbatim>\<open>src/app/build.go\<close>, \<^verbatim>\<open>src/gateway/gateway.go\<close>): resources to a typed
  configuration, configuration to one handler. A module is what a registered factory returns; a type assertion
  on it is a case distinction. The YAML decoders, the parsers of the standard library and the libraries behind
  the components are the fields of \<open>app_env\<close>. A factory is a function of its configuration: what
  discovery or opening a directory yields at start is part of it. \<open>http.ServeMux\<close> is a list of patterns
  with their handlers; whether a pattern can be added (otherwise \<open>Handle\<close> panics) and which pattern serves a
  request are arguments. Start-up log lines are left out.
\<close>

section \<open>Gateway settings\<close>

record 'n settings =
  gwListen :: string
  gwTrustedProxies :: "string list"
  gwSecurity :: "'n option"
  gwPlugins :: "string list"
  gwSession :: "'n option"
  gwIdentity :: "'n option"
  gwAuth :: "'n option"
  gwStateProvider :: "'n option"

record 'n plugin_instance =
  piName :: string
  piType :: string
  piSelector :: selector
  piConfig :: "'n option"
  piOrder :: nat

record 'n plugin_spec =
  psType :: string
  psSelector :: selector
  psConfig :: "'n option"

record 'n app_config =
  cfGateway :: "'n settings option"
  cfRoutes :: "'n route list"
  cfGroups :: "route_group list"
  cfRequestPlugins :: "'n plugin_instance list"
  cfResponsePlugins :: "'n plugin_instance list"
  cfIdPResources :: "'n resource list"
  cfTelemetry :: "telemetry_config option"
  cfPolicies :: "'n resource list"

datatype 'st module =
    IdpModule "'st idp"
  | StoreModule "'st store"
  | HandlerModule "'st handler"
  | MiddlewareModule "'st middleware"
  | OtherModule

datatype app_error =
    DuplicateGateway string
  | DuplicateTelemetry string
  | MissingGateway
  | UnknownKind string string
  | GatewayKind string
  | GatewayDecode string string
  | RouteErr route_error
  | TelemetryErr telemetry_error
  | PluginDecode string string
  | PluginType string
  | RegistryErr reg_error
  | FactoryErr string
  | NotAnIdP string
  | NotAStore string
  | NotAHandler string
  | NotAMiddleware string
  | IdpTypeRequired string
  | IdpDecodeErr string
  | ManyIdPs nat
  | IdentityErr identity_error
  | SessionErr session_cfg_error
  | StateErr state_cfg_error
  | StateWithoutSession
  | SessionKeyErr
  | VerificationOnlySession
  | IssuerErr string
  | AuthDecode string
  | PolicyErr policy_error
  | ProxiesErr proxy_error
  | SecurityDecode string
  | SecurityErr security_error
  | DuplicateMatch string string string
  | UnknownPolicy string string
  | ForwardDecode string string
  | ForwardWithoutIssuer string
  | MuxPanic string

record ('n, 'm, 'c) app_env =
  xGateway :: "'n \<Rightarrow> (string, 'n settings) result"
  xRoute :: "'n \<Rightarrow> 'n route \<Rightarrow> (string, 'n route) result"
  xZeroNode :: 'n
  xGroup :: "'n \<Rightarrow> route_group \<Rightarrow> (string, route_group) result"
  xPlugin :: "'n \<Rightarrow> (string, 'n plugin_spec) result"
  xTelemetry :: "'n \<Rightarrow> telemetry_config \<Rightarrow> (string, telemetry_config) result"
  xIdentity :: "'n \<Rightarrow> (string, raw_identity) result"
  xSession :: "'n \<Rightarrow> (string, raw_session) result"
  xState :: "'n \<Rightarrow> (string, 'n raw_state_provider) result"
  xAuth :: "'n \<Rightarrow> (string, auth_config) result"
  xSecurity :: "'n \<Rightarrow> (string, security_config) result"
  xPolicy :: "'n \<Rightarrow> (string, policy_spec) result"
  xType :: "'n \<Rightarrow> (string, string) result"
  xRedirectURL :: "'n \<Rightarrow> (string, string) result"
  xForwards :: "'n \<Rightarrow> (string, bool \<times> bool list) result"
  xParseDuration :: "string \<Rightarrow> (string, int) result"
  xSchemeHost :: "string \<Rightarrow> (string \<times> string) option"
  xPath :: "string \<Rightarrow> string option"
  xParseURL :: "string \<Rightarrow> url option"
  xParseAddr :: "string \<Rightarrow> addr option"
  xParsePrefix :: "string \<Rightarrow> addr_prefix option"
  xLower :: "nat \<Rightarrow> nat"
  xUpper :: "nat \<Rightarrow> nat"
  xOpa :: "('m, 'c) opa"
  xCop :: cop_env
  xJws :: jws_env
  xLogin :: login_env
  xMuxAccepts :: "string list \<Rightarrow> string \<Rightarrow> bool"
  xMuxMatch :: "string list \<Rightarrow> request \<Rightarrow> nat option"
  xMuxValues :: "string \<Rightarrow> request \<Rightarrow> (string, string) gomap"

section \<open>Parsing the resources\<close>

definition gateway_FromResource :: "('n, 'm, 'c) app_env \<Rightarrow> 'n resource \<Rightarrow> (app_error, 'n settings) result" where
  "gateway_FromResource X r =
     guardR (Kind r \<noteq> ''Gateway'') (GatewayKind (Kind r)) (
     bindR (mapErr (GatewayDecode (Name (Metadata r))) (xGateway X (Spec r))) (\<lambda>s.
     Inr (if gwListen s = [] then s\<lparr>gwListen := '':8080''\<rparr> else s)))"

definition app_parsePlugin :: "('n, 'm, 'c) app_env \<Rightarrow> 'n resource \<Rightarrow> nat \<Rightarrow> (app_error, 'n plugin_instance) result" where
  "app_parsePlugin X r order =
     bindR (mapErr (PluginDecode (Name (Metadata r))) (xPlugin X (Spec r))) (\<lambda>s.
     guardR (psType s = []) (PluginType (Name (Metadata r))) (
     Inr \<lparr>piName = Name (Metadata r), piType = psType s, piSelector = psSelector s, piConfig = psConfig s, piOrder = order\<rparr>))"

definition parse_resource :: "('n, 'm, 'c) app_env \<Rightarrow> nat \<times> 'n app_config \<Rightarrow> 'n resource \<Rightarrow> (app_error, nat \<times> 'n app_config) result" where
  "parse_resource X st r =
     (let (i, cfg) = st in
      bindR
       (if Kind r = ''Gateway'' then
          guardR (cfGateway cfg \<noteq> None) (DuplicateGateway (Name (Metadata r))) (
          bindR (gateway_FromResource X r) (\<lambda>g. Inr (cfg\<lparr>cfGateway := Some g\<rparr>)))
        else if Kind r = ''Route'' then
          bindR (mapErr RouteErr (ParseRoute (xRoute X) (xZeroNode X) r)) (\<lambda>rt. Inr (cfg\<lparr>cfRoutes := cfRoutes cfg @ [rt]\<rparr>))
        else if Kind r = ''RouteGroup'' then
          bindR (mapErr RouteErr (ParseGroup (xGroup X) r)) (\<lambda>g. Inr (cfg\<lparr>cfGroups := cfGroups cfg @ [g]\<rparr>))
        else if Kind r = ''RequestPlugin'' then
          bindR (app_parsePlugin X r i) (\<lambda>p. Inr (cfg\<lparr>cfRequestPlugins := cfRequestPlugins cfg @ [p]\<rparr>))
        else if Kind r = ''ResponsePlugin'' then
          bindR (app_parsePlugin X r i) (\<lambda>p. Inr (cfg\<lparr>cfResponsePlugins := cfResponsePlugins cfg @ [p]\<rparr>))
        else if Kind r = ''IdP'' then Inr (cfg\<lparr>cfIdPResources := cfIdPResources cfg @ [r]\<rparr>)
        else if Kind r = ''Policy'' then Inr (cfg\<lparr>cfPolicies := cfPolicies cfg @ [r]\<rparr>)
        else if Kind r = ''Telemetry'' then
          guardR (cfTelemetry cfg \<noteq> None) (DuplicateTelemetry (Name (Metadata r))) (
          bindR (mapErr TelemetryErr (telemetry_FromResource (xLower X) (xTelemetry X) (xParseDuration X) (xSchemeHost X) r))
            (\<lambda>t. Inr (cfg\<lparr>cfTelemetry := Some t\<rparr>)))
        else Inl (UnknownKind (Kind r) (Name (Metadata r))))
       (\<lambda>cfg'. Inr (Suc i, cfg')))"

definition empty_config :: "'n app_config" where
  "empty_config = \<lparr>cfGateway = None, cfRoutes = [], cfGroups = [], cfRequestPlugins = [], cfResponsePlugins = [],
     cfIdPResources = [], cfTelemetry = None, cfPolicies = []\<rparr>"

definition Parse :: "('n, 'm, 'c) app_env \<Rightarrow> 'n resource list \<Rightarrow> (app_error, 'n app_config) result" where
  "Parse X resources =
     bindR (foldR (parse_resource X) (0, empty_config) resources) (\<lambda>(i, cfg).
     guardR (cfGateway cfg = None) MissingGateway (
     Inr (if cfTelemetry cfg = None then cfg\<lparr>cfTelemetry := Some telemetry_Default\<rparr> else cfg)))"

section \<open>Modules\<close>

type_synonym ('n, 'st) modules = "(string \<Rightarrow> 'n option \<Rightarrow> (app_error, 'st module) result) registry"

definition buildIdP :: "('n, 'm, 'c) app_env \<Rightarrow> ('n, 'st) modules \<Rightarrow> 'n resource list \<Rightarrow> (app_error, 'st idp option) result" where
  "buildIdP X reg resources =
     (case resources of
        [] \<Rightarrow> Inr None
      | [r] \<Rightarrow>
          bindR (mapErr IdpDecodeErr (xType X (Spec r))) (\<lambda>t.
          guardR (t = []) (IdpTypeRequired (Name (Metadata r))) (
          bindR (Build RegistryErr reg ''IdP'' t (Some (Spec r))) (\<lambda>m.
          case m of IdpModule i \<Rightarrow> Inr (Some i) | _ \<Rightarrow> Inl (NotAnIdP (Name (Metadata r))))))
      | _ \<Rightarrow> Inl (ManyIdPs (length resources)))"

text \<open>The connector as the refresher of the state manager and as the verifier of the Bearer gate.\<close>

definition as_refresher :: "'st idp \<Rightarrow> 'st refresher" where
  "as_refresher i t s = (case ipRefresh i t s of (r, s1) \<Rightarrow> (bindR r (\<lambda>tk. Inr (Some tk)), s1))"

definition as_verifier :: "'st idp \<Rightarrow> 'st bearer_verifier" where
  "as_verifier i = \<lparr>bvVerifyAccessToken = (\<lambda>t s. case ipVerifyAccessToken i t s of (r, s1) \<Rightarrow> (bindR r (\<lambda>idn. Inr (Some idn)), s1)),
     bvUserInfo = ipUserInfo i\<rparr>"

definition buildSession :: "('n, 'm, 'c) app_env \<Rightarrow> ('n, 'st) modules \<Rightarrow> 'n settings \<Rightarrow> identity_config \<Rightarrow> 'st idp option
    \<Rightarrow> (app_error, ('st manager \<times> session_config) option) result" where
  "buildSession X reg g idCfg active =
     (case gwSession g of
        None \<Rightarrow> guardR (gwStateProvider g \<noteq> None) StateWithoutSession (Inr None)
      | Some node \<Rightarrow>
          bindR (mapErr SessionErr (FromYAML (xSession X) (xParseDuration X) node)) (\<lambda>c.
          let cfg = c\<lparr>scPassportClaims := idClaims idCfg, scGroups := idGroups idCfg, scSubjectClaim := idSubjectClaim idCfg\<rparr> in
          case gwStateProvider g of
            Some sp \<Rightarrow>
              bindR (mapErr StateErr (ParseStateProvider (xState X) (xParseDuration X) sp)) (\<lambda>spc.
              bindR (Build RegistryErr reg ''StateProvider'' (spType spc) (spConfig spc)) (\<lambda>m.
              case m of
                StoreModule st \<Rightarrow>
                  (case NewStateManager cfg st (map_option as_refresher active) (spRefreshSkew spc) (spKeyPrefix spc) of
                     None \<Rightarrow> Inl SessionKeyErr
                   | Some sm \<Rightarrow> Inr (Some (stateManager_ops (sealing (xLogin X)) sm, cfg)))
              | _ \<Rightarrow> Inl (NotAStore (spType spc))))
          | None \<Rightarrow>
              (case NewManager (sealing (xLogin X)) cfg of
                 None \<Rightarrow> Inl SessionKeyErr
               | Some mgr \<Rightarrow> Inr (Some (mgr, cfg)))))"

definition callbackPath :: "('n, 'm, 'c) app_env \<Rightarrow> 'n resource list \<Rightarrow> string" where
  "callbackPath X resources =
     (case resources of
        [r] \<Rightarrow>
          (case xRedirectURL X (Spec r) of
             Inl e \<Rightarrow> ''/auth/callback''
           | Inr u \<Rightarrow>
               if u = [] then ''/auth/callback''
               else (case xPath X u of None \<Rightarrow> ''/auth/callback'' | Some p \<Rightarrow> if p = [] then ''/auth/callback'' else p))
      | _ \<Rightarrow> ''/auth/callback'')"

definition combine :: "'st middleware \<Rightarrow> 'st middleware \<Rightarrow> 'st middleware" where
  "combine a b next = a (b next)"

definition handlerForwardsIdentity :: "('n, 'm, 'c) app_env \<Rightarrow> 'n \<Rightarrow> (string, bool) result" where
  "handlerForwardsIdentity X node =
     bindR (xForwards X node) (\<lambda>(top, backends). Inr (if top then True else list_ex (\<lambda>b. b) backends))"

definition buildTerminal :: "('n, 'st) modules \<Rightarrow> 'n route \<Rightarrow> (app_error, 'st handler) result" where
  "buildTerminal reg rt =
     bindR (Build RegistryErr reg ''TerminalHandler'' (hsType (rtHandler rt)) (Some (hsConfig (rtHandler rt)))) (\<lambda>m.
     case m of HandlerModule h \<Rightarrow> Inr h | _ \<Rightarrow> Inl (NotAHandler (rtName rt)))"

definition build_plugin :: "('n, 'st) modules \<Rightarrow> string \<Rightarrow> 'n plugin_instance \<Rightarrow> (app_error, 'st middleware) result" where
  "build_plugin reg kind p =
     bindR (Build RegistryErr reg kind (piType p) (piConfig p)) (\<lambda>m.
     case m of MiddlewareModule mw \<Rightarrow> Inr mw | _ \<Rightarrow> Inl (NotAMiddleware (piName p)))"

definition resolvePlugins :: "('n, 'st) modules \<Rightarrow> string \<Rightarrow> 'n plugin_instance list \<Rightarrow> labels \<Rightarrow> (app_error, 'st middleware list) result" where
  "resolvePlugins reg kind all ls =
     traverseR (build_plugin reg kind) (sort_key piOrder (filter (\<lambda>p. Matches (piSelector p) ls) all))"

section \<open>One route\<close>

text \<open>What the routes share, as \<open>Build\<close> computes it before its loop.\<close>

record 'st shared =
  bsSession :: "'st manager option"
  bsBearer :: "'st middleware option"
  bsAssertion :: "'st middleware option"
  bsIssue :: "'st middleware option"
  bsGroupsAs :: string
  bsLoginPath :: string
  bsPolicies :: "(string, policy) gomap"
  bsAccessLog :: "'st middleware"

definition authActive :: "'st shared \<Rightarrow> bool" where
  "authActive S \<longleftrightarrow> bsSession S \<noteq> None \<or> bsBearer S \<noteq> None \<or> bsAssertion S \<noteq> None"

definition session_slot :: "'st shared \<Rightarrow> string \<Rightarrow> 'st middleware" where
  "session_slot S typ =
     (let sg = SessionGate (bsSession S) in
      if typ = ''service'' then
        (case (bsBearer S, bsAssertion S) of
           (Some b, Some a) \<Rightarrow> combine sg (combine b a)
         | (Some b, None) \<Rightarrow> combine sg b
         | (None, Some a) \<Rightarrow> combine sg a
         | (None, None) \<Rightarrow> sg)
      else sg)"

definition denyRedirect :: "resolved \<Rightarrow> string" where
  "denyRedirect res = (case rsOnDeny res of Some d \<Rightarrow> if rsType res = ''app'' then odRedirect d else [] | None \<Rightarrow> [])"

definition route_policies :: "'st shared \<Rightarrow> string \<Rightarrow> string list \<Rightarrow> (app_error, policy list) result" where
  "route_policies S rname names =
     traverseR (\<lambda>n. case gm_get (bsPolicies S) n of None \<Rightarrow> Inl (UnknownPolicy rname n) | Some p \<Rightarrow> Inr p) names"

definition route_gates :: "('n, 'm, 'c) app_env \<Rightarrow> 'st shared \<Rightarrow> 'n route \<Rightarrow> resolved \<Rightarrow> policy list \<Rightarrow> 'st gates" where
  "route_gates X S rt res pols =
     (let g = (if authActive S then
                 \<lparr>gSession = Some (session_slot S (rsType res)),
                  gAuthGate = Some (AuthGate (xParseURL X) (rsAuth res = ''required'') (rsType res = ''app'') (bsLoginPath S)),
                  gAuthz = None,
                  gProjection = Some (ProjectionGate (xLower X) (xUpper X) (rsProjection res) (bsGroupsAs S))\<rparr>
               else no_gates)
      in if rsAuthorize res \<noteq> [] then g\<lparr>gAuthz := Some (Gate pols (rtName rt) (rtLabels rt) (denyRedirect res))\<rparr> else g)"

definition route_chain :: "'st shared \<Rightarrow> 'st gates \<Rightarrow> 'st middleware list \<Rightarrow> 'st handler \<Rightarrow> 'st handler" where
  "route_chain S g inner terminal = Compose terminal (Skeleton g (Some (bsAccessLog S)) @ inner)"

definition build_route :: "('n, 'm, 'c) app_env \<Rightarrow> ('n, 'st) modules \<Rightarrow> 'n app_config \<Rightarrow> 'st shared \<Rightarrow> 'n route
    \<Rightarrow> (app_error, 'st handler) result" where
  "build_route X reg cfg S rt =
     bindR (buildTerminal reg rt) (\<lambda>terminal.
     bindR (resolvePlugins reg ''RequestPlugin'' (cfRequestPlugins cfg) (rtLabels rt)) (\<lambda>reqMW.
     bindR (resolvePlugins reg ''ResponsePlugin'' (cfResponsePlugins cfg) (rtLabels rt)) (\<lambda>respMW.
     bindR (mapErr RouteErr (Resolve (xLower X) rt (cfGroups cfg))) (\<lambda>res.
     bindR (route_policies S (rtName rt) (rsAuthorize res)) (\<lambda>pols.
     bindR (mapErr (ForwardDecode (rtName rt)) (handlerForwardsIdentity X (hsConfig (rtHandler rt)))) (\<lambda>forwards.
     if forwards then
       (case bsIssue S of
          None \<Rightarrow> Inl (ForwardWithoutIssuer (rtName rt))
        | Some issue \<Rightarrow> Inr (route_chain S (route_gates X S rt res pols) (reqMW @ respMW @ [issue]) terminal))
     else Inr (route_chain S (route_gates X S rt res pols) (reqMW @ respMW) terminal)))))))"

section \<open>The gateway\<close>

type_synonym 'st mux = "(string \<times> 'st handler) list"

definition mux_Handle :: "('n, 'm, 'c) app_env \<Rightarrow> 'st mux \<Rightarrow> string \<Rightarrow> 'st handler \<Rightarrow> (app_error, 'st mux) result" where
  "mux_Handle X mux pattern h = guardR (\<not> xMuxAccepts X (map fst mux) pattern) (MuxPanic pattern) (Inr (mux @ [(pattern, h)]))"

text \<open>\<open>other\<close> answers what no pattern serves (not found, method not allowed, path redirects).\<close>

definition mux_ServeHTTP :: "('n, 'm, 'c) app_env \<Rightarrow> 'st handler \<Rightarrow> 'st mux \<Rightarrow> 'st handler" where
  "mux_ServeHTTP X other mux r w =
     (case xMuxMatch X (map fst mux) r of
        None \<Rightarrow> other r w
      | Some i \<Rightarrow> if i < length mux then snd (mux ! i) (r\<lparr>rPattern := fst (mux ! i), rPathValues := xMuxValues X (fst (mux ! i)) r\<rparr>) w
                   else other r w)"

definition add_route :: "('n, 'm, 'c) app_env \<Rightarrow> ('n, 'st) modules \<Rightarrow> 'n app_config \<Rightarrow> 'st shared
    \<Rightarrow> (string, string) gomap \<times> 'st mux \<Rightarrow> 'n route \<Rightarrow> (app_error, (string, string) gomap \<times> 'st mux) result" where
  "add_route X reg cfg S st rt =
     (let (seen, mux) = st in
      case gm_get seen (rtMatch rt) of
        Some prev \<Rightarrow> Inl (DuplicateMatch (rtName rt) (rtMatch rt) prev)
      | None \<Rightarrow>
          bindR (build_route X reg cfg S rt) (\<lambda>h.
          bindR (mux_Handle X mux (rtMatch rt) h) (\<lambda>mux'.
          Inr (gm_set (rtMatch rt) (rtName rt) seen, mux'))))"

definition add_endpoints :: "('n, 'm, 'c) app_env \<Rightarrow> 'n app_config \<Rightarrow> 'st handlers \<Rightarrow> 'st mux \<Rightarrow> (app_error, 'st mux) result" where
  "add_endpoints X cfg h mux =
     bindR (mux_Handle X mux (auLoginPath (hCfg h)) (Login (xLogin X) h)) (\<lambda>m1.
     bindR (mux_Handle X m1 (''POST '' @ auLogoutPath (hCfg h)) (Logout h)) (\<lambda>m2.
     bindR (mux_Handle X m2 (callbackPath X (cfIdPResources cfg)) (Callback (xLogin X) h)) (\<lambda>m3.
     mux_Handle X m3 (scInfoPath (hScfg h)) (InfoHandler (sealing (xLogin X)) (hSess h)))))"

record 'st app =
  apHandler :: "'st handler"
  apIdP :: "'st idp option"
  apSession :: "'st manager option"

definition accept_gate :: "('n, 'm, 'c) app_env \<Rightarrow> identity_config \<Rightarrow> 'st middleware option" where
  "accept_gate X idCfg =
     (case idAssertion idCfg of None \<Rightarrow> None
      | Some a \<Rightarrow> (case asAccept a of None \<Rightarrow> None
         | Some acc \<Rightarrow> Some (AssertionGate (xJws X) (NewAssertionVerifier (acIssuer acc) (acKeys acc)) (acHeader acc) (acRequireBearer acc))))"

definition issue_gate :: "('n, 'm, 'c) app_env \<Rightarrow> identity_config \<Rightarrow> (app_error, 'st middleware option) result" where
  "issue_gate X idCfg =
     (case idAssertion idCfg of None \<Rightarrow> Inr None
      | Some a \<Rightarrow> (case asIssue a of None \<Rightarrow> Inr None
         | Some is \<Rightarrow> bindR (mapErr IssuerErr (NewAssertionIssuer (aiName is) (aiKeyID is) (aiSeed is) (aiTTL is)))
             (\<lambda>i. Inr (Some (IssueAssertion (xJws X) i (aiHeader is))))))"

definition groups_as :: "identity_config \<Rightarrow> string" where
  "groups_as idCfg = (case idGroups idCfg of None \<Rightarrow> ''groups'' | Some g \<Rightarrow> if gcAs g \<noteq> [] then gcAs g else ''groups'')"

definition app_Build :: "('n, 'm, 'c) app_env \<Rightarrow> (access_log_config \<Rightarrow> 'st middleware) \<Rightarrow> 'st middleware \<Rightarrow> 'st handler
    \<Rightarrow> ('n, 'st) modules \<Rightarrow> 'n app_config \<Rightarrow> 'n settings \<Rightarrow> telemetry_config \<Rightarrow> (app_error, 'st app) result" where
  "app_Build X accessLog otel other reg cfg g tel =
     bindR (buildIdP X reg (cfIdPResources cfg)) (\<lambda>active.
     bindR (mapErr IdentityErr (ParseIdentity (xIdentity X) (xParseDuration X) (gwIdentity g))) (\<lambda>idCfg.
     bindR (buildSession X reg g idCfg active) (\<lambda>sess.
     guardR (sess \<noteq> None \<and> IsVerificationOnly active) VerificationOnlySession (
     bindR (issue_gate X idCfg) (\<lambda>issue.
     bindR (if sess \<noteq> None then mapErr AuthDecode (auth_FromYAML (xAuth X) (gwAuth g))
            else Inr \<lparr>auLoginPath = ''/auth/login'', auLogoutPath = []\<rparr>) (\<lambda>authCfg.
     bindR (mapErr PolicyErr (Compile (xPolicy X) (xOpa X) (cfPolicies cfg))) (\<lambda>pols.
     bindR (mapErr ProxiesErr (ParseTrustedProxies (xParseAddr X) (xParsePrefix X) (gwTrustedProxies g))) (\<lambda>trusted.
     bindR (mapErr SecurityDecode (security_Parse (xSecurity X) (gwSecurity g))) (\<lambda>secCfg.
     bindR (mapErr SecurityErr (security_Build (xCop X) secCfg)) (\<lambda>securityMW.
     let S = \<lparr>bsSession = map_option fst sess,
              bsBearer = map_option (\<lambda>i. BearerGate (xLower X) (as_verifier i) idCfg) active,
              bsAssertion = accept_gate X idCfg, bsIssue = issue, bsGroupsAs = groups_as idCfg,
              bsLoginPath = auLoginPath authCfg, bsPolicies = pols, bsAccessLog = accessLog (tcAccessLog tel)\<rparr> in
     bindR (foldR (add_route X reg cfg S) ([], []) (cfRoutes cfg)) (\<lambda>(seen, mux).
     bindR (case (active, sess) of
              (Some i, Some (mgr, sc)) \<Rightarrow>
                (case newSealer32 (scKey sc) of
                   None \<Rightarrow> Inl SessionKeyErr
                 | Some key \<Rightarrow> add_endpoints X cfg \<lparr>hIdp = i, hSess = mgr, hSealer = key, hCfg = authCfg, hScfg = sc, hIdCfg = idCfg\<rparr> mux)
            | _ \<Rightarrow> Inr mux) (\<lambda>mux'.
     Inr \<lparr>apHandler = Forwarded (xParseAddr X) trusted (securityMW (otel (mux_ServeHTTP X other mux'))),
          apIdP = active, apSession = map_option fst sess\<rparr>))))))))))))"

section \<open>What an accepted configuration is\<close>

lemma parse_resource_step:
  assumes "parse_resource X (i, cfg) r = Inr (j, cfg')"
  shows "j = Suc i
    \<and> cfIdPResources cfg' = cfIdPResources cfg @ filter (\<lambda>r. Kind r = ''IdP'') [r]
    \<and> cfPolicies cfg' = cfPolicies cfg @ filter (\<lambda>r. Kind r = ''Policy'') [r]
    \<and> (\<exists>rts. traverseR (ParseRoute (xRoute X) (xZeroNode X)) (filter (\<lambda>r. Kind r = ''Route'') [r]) = Inr rts \<and> cfRoutes cfg' = cfRoutes cfg @ rts)
    \<and> (\<exists>gs. traverseR (ParseGroup (xGroup X)) (filter (\<lambda>r. Kind r = ''RouteGroup'') [r]) = Inr gs \<and> cfGroups cfg' = cfGroups cfg @ gs)
    \<and> (if Kind r = ''Gateway'' then cfGateway cfg = None \<and> cfGateway cfg' \<noteq> None else cfGateway cfg' = cfGateway cfg)
    \<and> (\<exists>ps. cfRequestPlugins cfg' = cfRequestPlugins cfg @ ps \<and> (\<forall>p \<in> set ps. piOrder p = i) \<and> length ps \<le> 1)
    \<and> (\<exists>ps. cfResponsePlugins cfg' = cfResponsePlugins cfg @ ps \<and> (\<forall>p \<in> set ps. piOrder p = i) \<and> length ps \<le> 1)
    \<and> Kind r \<in> {''Gateway'', ''Route'', ''RouteGroup'', ''RequestPlugin'', ''ResponsePlugin'', ''IdP'', ''Policy'', ''Telemetry''}"
  using assms unfolding parse_resource_def Let_def
  by (auto simp: result_inr app_parsePlugin_def split: if_splits)

lemma traverseR_append:
  "traverseR f xs = Inr as \<Longrightarrow> traverseR f ys = Inr bs \<Longrightarrow> traverseR f (xs @ ys) = Inr (as @ bs)"
  unfolding traverseR_Inr by (rule list_all2_appendI)

definition known_kinds :: "string list" where
  "known_kinds = [''Gateway'', ''Route'', ''RouteGroup'', ''RequestPlugin'', ''ResponsePlugin'', ''IdP'', ''Policy'', ''Telemetry'']"

definition of_kind :: "string \<Rightarrow> 'n resource list \<Rightarrow> 'n resource list" where
  "of_kind k rs = filter (\<lambda>r. Kind r = k) rs"

lemma of_kind_Cons: "of_kind k (r # rs) = filter (\<lambda>r. Kind r = k) [r] @ of_kind k rs"
  by (simp add: of_kind_def)

lemma parse_fold_Cons:
  assumes "foldR (parse_resource X) (i, cfg) (r # rs) = Inr (j, cfg')"
  obtains k c where "parse_resource X (i, cfg) r = Inr (k, c)" "foldR (parse_resource X) (k, c) rs = Inr (j, cfg')"
  using assms by (auto split: sum.splits)

lemma parse_fold:
  assumes "foldR (parse_resource X) (i, cfg) rs = Inr (j, cfg')"
  shows "cfIdPResources cfg' = cfIdPResources cfg @ of_kind ''IdP'' rs"
    and "cfPolicies cfg' = cfPolicies cfg @ of_kind ''Policy'' rs"
    and "\<exists>rts. traverseR (ParseRoute (xRoute X) (xZeroNode X)) (of_kind ''Route'' rs) = Inr rts \<and> cfRoutes cfg' = cfRoutes cfg @ rts"
    and "\<exists>gs. traverseR (ParseGroup (xGroup X)) (of_kind ''RouteGroup'' rs) = Inr gs \<and> cfGroups cfg' = cfGroups cfg @ gs"
    and "(if cfGateway cfg' = None then 0 else 1) = (if cfGateway cfg = None then 0 else 1) + length (of_kind ''Gateway'' rs)"
    and "Kind ` set rs \<subseteq> set known_kinds"
  using assms
proof (induction rs arbitrary: i cfg)
  case Nil
  { case 1 then show ?case by (simp add: of_kind_def) }
  { case 2 then show ?case by (simp add: of_kind_def) }
  { case 3 then show ?case by (simp add: of_kind_def) }
  { case 4 then show ?case by (simp add: of_kind_def) }
  { case 5 then show ?case by (simp add: of_kind_def) }
  { case 6 then show ?case by simp }
next
  case (Cons r rs)
  { case 1 then show ?case by (rule parse_fold_Cons) (simp add: Cons.IH(1) parse_resource_step of_kind_def) }
  { case 2 then show ?case by (rule parse_fold_Cons) (simp add: Cons.IH(2) parse_resource_step of_kind_def) }
  { case 3 then show ?case
    proof (rule parse_fold_Cons)
      fix k c assume p: "parse_resource X (i, cfg) r = Inr (k, c)" "foldR (parse_resource X) (k, c) rs = Inr (j, cfg')"
      from parse_resource_step [OF p(1)] Cons.IH(3) [OF p(2)] show ?case
        unfolding of_kind_Cons using traverseR_append by (elim conjE exE) (fastforce simp del: filter.simps)
    qed }
  { case 4 then show ?case
    proof (rule parse_fold_Cons)
      fix k c assume p: "parse_resource X (i, cfg) r = Inr (k, c)" "foldR (parse_resource X) (k, c) rs = Inr (j, cfg')"
      from parse_resource_step [OF p(1)] Cons.IH(4) [OF p(2)] show ?case
        unfolding of_kind_Cons using traverseR_append by (elim conjE exE) (fastforce simp del: filter.simps)
    qed }
  { case 5 then show ?case
    proof (rule parse_fold_Cons)
      fix k c assume p: "parse_resource X (i, cfg) r = Inr (k, c)" "foldR (parse_resource X) (k, c) rs = Inr (j, cfg')"
      from parse_resource_step [OF p(1)] Cons.IH(5) [OF p(2)] show ?case by (auto simp: of_kind_def split: if_splits)
    qed }
  { case 6 then show ?case
    proof (rule parse_fold_Cons)
      fix k c assume p: "parse_resource X (i, cfg) r = Inr (k, c)" "foldR (parse_resource X) (k, c) rs = Inr (j, cfg')"
      from parse_resource_step [OF p(1)] Cons.IH(6) [OF p(2)] show ?case by (simp add: known_kinds_def)
    qed }
qed

text \<open>A configuration is accepted only if it has exactly one Gateway, no resource of an unknown kind, and every route and
  group parses; it then holds exactly the parsed routes and groups, the IdP resources and the policies, in document order.\<close>

theorem Parse_sound:
  assumes "Parse X rs = Inr cfg"
  shows "length (of_kind ''Gateway'' rs) = 1 \<and> Kind ` set rs \<subseteq> set known_kinds
    \<and> traverseR (ParseRoute (xRoute X) (xZeroNode X)) (of_kind ''Route'' rs) = Inr (cfRoutes cfg)
    \<and> traverseR (ParseGroup (xGroup X)) (of_kind ''RouteGroup'' rs) = Inr (cfGroups cfg)
    \<and> cfIdPResources cfg = of_kind ''IdP'' rs \<and> cfPolicies cfg = of_kind ''Policy'' rs \<and> cfTelemetry cfg \<noteq> None"
proof -
  from assms obtain j c where f: "foldR (parse_resource X) (0, empty_config) rs = Inr (j, c)" and g: "cfGateway c \<noteq> None"
    and cfg: "cfg = (if cfTelemetry c = None then c\<lparr>cfTelemetry := Some telemetry_Default\<rparr> else c)"
    by (auto simp: Parse_def result_inr)
  have "cfRoutes cfg = cfRoutes c" "cfGroups cfg = cfGroups c" "cfIdPResources cfg = cfIdPResources c" "cfPolicies cfg = cfPolicies c"
    "cfTelemetry cfg \<noteq> None"
    by (auto simp: cfg)
  with parse_fold [OF f] g show ?thesis by (auto simp: empty_config_def)
qed

definition numbered_below :: "nat \<Rightarrow> 'n plugin_instance list \<Rightarrow> bool" where
  "numbered_below n ps \<longleftrightarrow> sorted_wrt (<) (map piOrder ps) \<and> (\<forall>p \<in> set ps. piOrder p < n)"

lemma numbered_append:
  "numbered_below n ps \<Longrightarrow> \<forall>p \<in> set qs. piOrder p = n \<Longrightarrow> length qs \<le> 1 \<Longrightarrow> numbered_below (Suc n) (ps @ qs)"
  by (cases qs) (auto simp: numbered_below_def sorted_wrt_append less_Suc_eq)

lemma parse_fold_numbered:
  assumes "foldR (parse_resource X) (0, empty_config) rs = Inr (j, cfg)"
  shows "numbered_below j (cfRequestPlugins cfg) \<and> numbered_below j (cfResponsePlugins cfg)"
proof -
  let ?P = "\<lambda>(j, c). numbered_below j (cfRequestPlugins c) \<and> numbered_below j (cfResponsePlugins c)"
  have "?P (j, cfg)"
  proof (rule foldR_invariant [OF assms, where P = ?P])
    show "?P (0, empty_config)" by (simp add: numbered_below_def empty_config_def)
    fix s x s' assume "?P s" "parse_resource X s x = Inr s'"
    then show "?P s'" using parse_resource_step [of X "fst s" "snd s" x "fst s'" "snd s'"] numbered_append
      by (cases s; cases s') force
  qed
  then show ?thesis by simp
qed

lemma sort_numbered:
  assumes "numbered_below n ps"
  shows "sort_key piOrder (filter P ps) = filter P ps"
proof (rule sort_key_id_if_sorted)
  from assms have "sorted_wrt (\<lambda>p q. piOrder p < piOrder q) (filter P ps)"
    by (simp add: numbered_below_def sorted_wrt_map sorted_wrt_filter)
  then show "sorted (map piOrder (filter P ps))"
    unfolding sorted_wrt_map by (rule sorted_wrt_mono_rel [rotated]) simp
qed

text \<open>Plugins run in document order: for every route, the plugins whose selector matches its labels are instantiated in the
  order in which the configuration lists them, and the explicit sort changes nothing.\<close>

theorem plugins_in_document_order:
  assumes "Parse X rs = Inr cfg"
  shows "resolvePlugins reg kind (cfRequestPlugins cfg) ls =
      traverseR (build_plugin reg kind) (filter (\<lambda>p. Matches (piSelector p) ls) (cfRequestPlugins cfg))
    \<and> resolvePlugins reg kind (cfResponsePlugins cfg) ls =
      traverseR (build_plugin reg kind) (filter (\<lambda>p. Matches (piSelector p) ls) (cfResponsePlugins cfg))"
proof -
  from assms obtain j c where f: "foldR (parse_resource X) (0, empty_config) rs = Inr (j, c)"
    and cfg: "cfg = (if cfTelemetry c = None then c\<lparr>cfTelemetry := Some telemetry_Default\<rparr> else c)"
    by (auto simp: Parse_def result_inr)
  have "cfRequestPlugins cfg = cfRequestPlugins c" "cfResponsePlugins cfg = cfResponsePlugins c" by (auto simp: cfg)
  with parse_fold_numbered [OF f] show ?thesis by (simp add: resolvePlugins_def sort_numbered [of j])
qed


section \<open>A small gateway\<close>

text \<open>One gateway with a session, one identity provider, one proxied route that forwards the identity, and two request plugins.\<close>

definition demo_issuing :: raw_identity where
  "demo_issuing = zero_identity\<lparr>rdAssertion := Some \<lparr>rxIssue = Some \<lparr>riName = ''edge'', riKeyID = ''k1'', riKey = replicate 43 CHR ''A'' @ ''='',
     riTTL = [], riHeader = []\<rparr>, rxAccept = None\<rparr>\<rparr>"

definition demo_app_env :: "(unit, unit, unit) app_env" where
  "demo_app_env = \<lparr>xGateway = (\<lambda>n. Inr \<lparr>gwListen = [], gwTrustedProxies = [], gwSecurity = None, gwPlugins = [], gwSession = Some (),
       gwIdentity = Some (), gwAuth = None, gwStateProvider = None\<rparr>),
     xRoute = (\<lambda>n rt. Inr (rt\<lparr>rtMatch := ''/api/'', rtHandler := \<lparr>hsType = ''reverse-proxy'', hsConfig = ()\<rparr>\<rparr>)), xZeroNode = (),
     xGroup = (\<lambda>n gr. Inr gr), xPlugin = (\<lambda>n. Inr \<lparr>psType = ''tag'', psSelector = empty_selector, psConfig = None\<rparr>),
     xTelemetry = (\<lambda>n t. Inr t), xIdentity = (\<lambda>n. Inr demo_issuing),
     xSession = (\<lambda>n. Inr \<lparr>rsCookieName = [], rsKey = replicate 32 CHR ''k'', rsTTL = [], rsFingerprintHeaders = [], rsInfoPath = [], rsPostLogoutRedirect = []\<rparr>),
     xState = (\<lambda>n. Inl []), xAuth = (\<lambda>n. Inl []), xSecurity = (\<lambda>n. Inl []), xPolicy = (\<lambda>n. Inl []), xType = (\<lambda>n. Inr ''oidc''),
     xRedirectURL = (\<lambda>n. Inr ''https://app/cb''), xForwards = (\<lambda>n. Inr (True, [])), xParseDuration = (\<lambda>s. Inl []), xSchemeHost = (\<lambda>s. None),
     xPath = (\<lambda>s. Some ''/cb''), xParseURL = (\<lambda>s. None), xParseAddr = (\<lambda>s. None), xParsePrefix = (\<lambda>s. None), xLower = ascii_rune_lower, xUpper = id,
     xOpa = demo_opa, xCop = demo_cop_env, xJws = demo_jws, xLogin = demo_login_env,
     xMuxAccepts = (\<lambda>ps p. True), xMuxMatch = (\<lambda>ps r. if ps = [] then None else Some 0), xMuxValues = (\<lambda>p r. [])\<rparr>"

definition demo_resource :: "string \<Rightarrow> string \<Rightarrow> unit resource" where
  "demo_resource kind name = \<lparr>APIVersion = ''hog/v1'', Kind = kind, Metadata = \<lparr>Name = name, Labels = []\<rparr>, Spec = ()\<rparr>"

definition demo_resources :: "unit resource list" where
  "demo_resources = [demo_resource ''RequestPlugin'' ''p1'', demo_resource ''Gateway'' ''g'', demo_resource ''IdP'' ''i'',
     demo_resource ''Route'' ''api'', demo_resource ''RequestPlugin'' ''p2'']"

definition demo_settings :: "unit settings" where
  "demo_settings = \<lparr>gwListen = '':8080'', gwTrustedProxies = [], gwSecurity = None, gwPlugins = [], gwSession = Some (),
       gwIdentity = Some (), gwAuth = None, gwStateProvider = None\<rparr>"

definition demo_config :: "unit app_config" where
  "demo_config = \<lparr>cfGateway = Some demo_settings,
     cfRoutes = [\<lparr>rtName = ''api'', rtLabels = [], rtMatch = ''/api/'', rtType = [], rtHandler = \<lparr>hsType = ''reverse-proxy'', hsConfig = ()\<rparr>, rtAccess = empty_access\<rparr>],
     cfGroups = [],
     cfRequestPlugins = [\<lparr>piName = ''p1'', piType = ''tag'', piSelector = empty_selector, piConfig = None, piOrder = 0\<rparr>,
        \<lparr>piName = ''p2'', piType = ''tag'', piSelector = empty_selector, piConfig = None, piOrder = 4\<rparr>],
     cfResponsePlugins = [], cfIdPResources = [demo_resource ''IdP'' ''i''], cfTelemetry = Some telemetry_Default, cfPolicies = []\<rparr>"

lemma demo_Parse: "Parse demo_app_env demo_resources = Inr demo_config"
  by (simp add: Parse_def demo_resources_def parse_resource_def demo_resource_def demo_app_env_def gateway_FromResource_def
      app_parsePlugin_def ParseRoute_def guardR_def Let_def empty_config_def demo_config_def demo_settings_def)

theorem Parse_sound_witness: "length (of_kind ''Gateway'' demo_resources) = 1 \<and> cfIdPResources demo_config = of_kind ''IdP'' demo_resources"
  using Parse_sound [OF demo_Parse] by simp

theorem plugins_in_document_order_witness:
  "resolvePlugins [(''RequestPlugin'', [(''tag'', \<lambda>n c. Inr (MiddlewareModule reserved))])] ''RequestPlugin'' (cfRequestPlugins demo_config) [] =
   Inr [reserved, reserved]"
proof -
  have m: "Matches empty_selector []" by code_simp
  show ?thesis
    unfolding plugins_in_document_order [OF demo_Parse, THEN conjunct1]
    by (simp add: demo_config_def m build_plugin_def Build_def kind_map_def)
qed

definition demo_modules_of :: "unit handler \<Rightarrow> (unit, unit) modules" where
  "demo_modules_of terminal = [(''IdP'', [(''oidc'', \<lambda>n c. Inr (IdpModule (oidc_ops demo_oidc_lib Map.empty demo_oidc)))]),
     (''TerminalHandler'', [(''reverse-proxy'', \<lambda>n c. Inr (HandlerModule terminal))]),
     (''RequestPlugin'', [(''tag'', \<lambda>n c. Inr (MiddlewareModule reserved))])]"

abbreviation demo_modules :: "(unit, unit) modules" where
  "demo_modules \<equiv> demo_modules_of (\<lambda>r w. Done (Write ''secret'' w))"


lemma demo_Resolve:
  "Resolve ascii_rune_lower (hd (cfRoutes demo_config)) [] =
     Inr \<lparr>rsType = ''service'', rsAuth = ''required'', rsProjection = None, rsAuthorize = [], rsOnDeny = None\<rparr>"
  by code_simp

lemma demo_buildSession: "\<exists>m sc. buildSession demo_app_env (demo_modules_of t) demo_settings idCfg active = Inr (Some (m, sc)) \<and> newSealer32 (scKey sc) \<noteq> None"
  by (simp add: buildSession_def demo_settings_def demo_app_env_def FromYAML_def guardR_def Let_def NewManager_def newSealer32_def)

lemma demo_build_route:
  assumes "bsIssue S \<noteq> None"
  shows "\<exists>h. build_route demo_app_env (demo_modules_of t) demo_config S (hd (cfRoutes demo_config)) = Inr h"
proof -
  have m: "Matches empty_selector []" by code_simp
  have "buildTerminal (demo_modules_of t) (hd (cfRoutes demo_config)) = Inr t"
    by (simp add: buildTerminal_def demo_modules_of_def demo_config_def Build_def kind_map_def)
  moreover have "\<exists>ms. resolvePlugins (demo_modules_of t) ''RequestPlugin'' (cfRequestPlugins demo_config) (rtLabels (hd (cfRoutes demo_config))) = Inr ms"
    by (simp add: resolvePlugins_def demo_config_def m build_plugin_def Build_def kind_map_def demo_modules_of_def)
  moreover have "resolvePlugins (demo_modules_of t) ''ResponsePlugin'' (cfResponsePlugins demo_config) (rtLabels (hd (cfRoutes demo_config))) = Inr []"
    by (simp add: resolvePlugins_def demo_config_def)
  moreover have "handlerForwardsIdentity demo_app_env n = Inr True" for n
    by (simp add: handlerForwardsIdentity_def demo_app_env_def)
  ultimately show ?thesis
    using demo_Resolve assms by (auto simp: build_route_def route_policies_def demo_app_env_def demo_config_def)
qed

lemma demo_ParseIdentity:
  "\<exists>idc mw. ParseIdentity (xIdentity demo_app_env) (xParseDuration demo_app_env) (gwIdentity demo_settings) = Inr idc
     \<and> issue_gate demo_app_env idc = Inr (Some (mw :: unit middleware))"
proof -
  have "ParseIdentity (\<lambda>n. Inr demo_issuing) (\<lambda>s. Inl []) (Some ()) =
      Inr \<lparr>idClaims = defaultPassportClaims, idGroups = None, idUserInfo = ''auto'', idSubjectClaim = ''sub'',
        idAssertion = Some \<lparr>asIssue = Some \<lparr>aiName = ''edge'', aiKeyID = ''k1'', aiSeed = replicate 32 (CHR 0x00), aiTTL = seconds 60,
          aiHeader = ''X-Hog-Identity''\<rparr>, asAccept = None\<rparr>\<rparr>"
    by code_simp
  then show ?thesis
    by (simp add: demo_app_env_def demo_settings_def issue_gate_def NewAssertionIssuer_def guardR_def)
qed

lemma demo_app_Build:
  "\<exists>a. app_Build demo_app_env al otel other (demo_modules_of t) demo_config demo_settings tel = Inr a
     \<and> apSession a \<noteq> None \<and> apIdP a = Some (oidc_ops demo_oidc_lib Map.empty demo_oidc)"
proof -
  let ?X = demo_app_env
  define i where "i = oidc_ops demo_oidc_lib Map.empty demo_oidc"
  have "\<not> oiVerifyOnly demo_oidc" by code_simp
  then have i: "buildIdP ?X (demo_modules_of t) (cfIdPResources demo_config) = Inr (Some i)" "\<not> IsVerificationOnly (Some i)"
    by (simp_all add: i_def buildIdP_def demo_config_def demo_app_env_def guardR_def Build_def kind_map_def demo_modules_of_def IsVerificationOnly_def)
      (simp add: oidc_ops_def)
  obtain idc and mw :: "unit middleware" where idc: "ParseIdentity (xIdentity ?X) (xParseDuration ?X) (gwIdentity demo_settings) = Inr idc"
    "issue_gate ?X idc = Inr (Some mw)"
    using demo_ParseIdentity by blast
  obtain m sc where s: "buildSession ?X (demo_modules_of t) demo_settings idc (Some i) = Inr (Some (m, sc))" "newSealer32 (scKey sc) \<noteq> None"
    using demo_buildSession by blast
  obtain ac where ac: "auth_FromYAML (xAuth ?X) (gwAuth demo_settings) = Inr ac"
    by (simp add: auth_FromYAML_def demo_settings_def)
  have p: "Compile (xPolicy ?X) (xOpa ?X) (cfPolicies demo_config) = Inr []" by (simp add: Compile_def demo_config_def)
  obtain tp where tp: "ParseTrustedProxies (xParseAddr ?X) (xParsePrefix ?X) (gwTrustedProxies demo_settings) = Inr tp"
    by (simp add: ParseTrustedProxies_def demo_settings_def)
  have sp: "security_Parse (xSecurity ?X) (gwSecurity demo_settings) = Inr default_security" by (simp add: security_Parse_def demo_settings_def)
  obtain sec :: "unit middleware" where sec: "security_Build (xCop ?X) default_security = Inr sec"
    by (auto simp: security_Build_def default_security_def deref_def build_cop_def demo_app_env_def)
  have mux: "mux_Handle ?X mx pat h = Inr (mx @ [(pat, h)])" for mx :: "unit mux" and pat h
    by (simp add: mux_Handle_def demo_app_env_def guardR_def)
  have routes: "cfRoutes demo_config = [hd (cfRoutes demo_config)]" by (simp add: demo_config_def)
  have r: "\<exists>st. foldR (add_route ?X (demo_modules_of t) demo_config S) ([], []) (cfRoutes demo_config) = Inr st" if "bsIssue S \<noteq> None" for S
    by (subst routes) (use demo_build_route [OF that, of t] in \<open>auto simp: add_route_def mux\<close>)
  have e: "\<exists>mx'. add_endpoints ?X demo_config h mx = Inr mx'" for h :: "unit handlers" and mx
    by (simp add: add_endpoints_def mux)
  have go: "\<exists>a. bindR (foldR (add_route ?X (demo_modules_of t) demo_config S) ([], []) (cfRoutes demo_config)) f = Inr a \<and> P a"
    if "bsIssue S \<noteq> None" "\<And>st. \<exists>a. f st = Inr a \<and> P a" for S P and f :: "_ \<Rightarrow> (app_error, unit app) result"
    using r [of S] that by (fastforce simp: bindR_eq_Inr)
  obtain key where key: "newSealer32 (scKey sc) = Some key" using s(2) by blast
  have ends: "\<exists>a. bindR (add_endpoints ?X demo_config h mx) (\<lambda>mx'. Inr (f mx')) = Inr (a :: unit app) \<and> P a"
    if "\<And>m. P (f m)" for h :: "unit handlers" and mx f P
    using that e [of h mx] by (auto simp: bindR_eq_Inr)
  show ?thesis
    unfolding app_Build_def
    by (simp add: i idc s(1) ac p tp sp sec guardR_def Let_def key, rule go) (simp_all add: split_beta ends i_def)
qed

end
