(* ===== verification/Route_Safety.thy ===== *)
theory Route_Safety
  imports App
begin

text \<open>
  What reaches the plugins and the terminal handler of a route. A middleware hands on requests of a class \<open>Q\<close>
  when it cannot tell apart two inner handlers that agree on \<open>Q\<close>; the classes of the gates compose to the
  guarantee every route of an assembled gateway gives. \<open>app_Build_same\<close> lifts it to the gateway: two builds of one
  configuration over different modules are equal when their routes are.
\<close>

section \<open>What a middleware hands on\<close>

definition hands_on :: "(request \<Rightarrow> bool) \<Rightarrow> (request \<Rightarrow> bool) \<Rightarrow> 'st middleware \<Rightarrow> bool" where
  "hands_on P Q mw \<longleftrightarrow>
     (\<forall>t t'. (\<forall>r w. Q r \<longrightarrow> t r w = t' r w) \<longrightarrow> (\<forall>r w. P r \<longrightarrow> mw t r w = mw t' r w))"

lemma hands_onI: "(\<And>t t' r w. (\<And>r w. Q r \<Longrightarrow> t r w = t' r w) \<Longrightarrow> P r \<Longrightarrow> mw t r w = mw t' r w) \<Longrightarrow> hands_on P Q mw"
  unfolding hands_on_def by blast

lemma hands_onD: "hands_on P Q mw \<Longrightarrow> (\<And>r w. Q r \<Longrightarrow> t r w = t' r w) \<Longrightarrow> P r \<Longrightarrow> mw t r w = mw t' r w"
  unfolding hands_on_def by blast

lemma hands_on_compose: "hands_on P Q m \<Longrightarrow> hands_on Q R n \<Longrightarrow> hands_on P R (\<lambda>t. m (n t))"
  unfolding hands_on_def by metis

lemma hands_on_any: "hands_on (\<lambda>_. True) Q n \<Longrightarrow> hands_on (\<lambda>_. True) Q (\<lambda>t. m (n t))"
proof (rule hands_onI)
  fix t t' :: "'a handler" and r w
  assume "hands_on (\<lambda>_. True) Q n" "\<And>r w. Q r \<Longrightarrow> t r w = t' r w"
  then have "n t = n t'" unfolding hands_on_def fun_eq_iff by blast
  then show "m (n t) r w = m (n t') r w" by simp
qed

context filter_mw
begin

lemma step_hands_on:
  assumes "\<And>r w r' w'. P r \<Longrightarrow> step r w = Pass r' w' \<Longrightarrow> Q r'"
  shows "hands_on P Q mw"
  by (rule hands_onI) (use assms in \<open>force simp: mw_step run_step_def split: step.split\<close>)

end

section \<open>The gates of a route\<close>

text \<open>The requests a route lets through: with a principal where the route requires one and authentication is configured, allowed
  by every policy of the route, and with the identity headers the projection wrote.\<close>

definition cleared :: "('n, 'm, 'c) app_env \<Rightarrow> bool \<Rightarrow> string \<Rightarrow> 'n route \<Rightarrow> resolved \<Rightarrow> policy list \<Rightarrow> request \<Rightarrow> bool" where
  "cleared X active groupsAs rt res pols r \<longleftrightarrow>
     (active \<and> rsAuth res = ''required'' \<longrightarrow> FromContext r \<noteq> None)
     \<and> (\<forall>pol \<in> set pols. allows (FromContext r) (buildInput (FromContext r) r (rtName rt) (rtLabels rt)) pol)
     \<and> (active \<longrightarrow> (\<exists>h. rHeader r = project_header (xLower X) (xUpper X) (rsProjection res) groupsAs (FromContext r) h))"

lemma reserved_hands_on: "hands_on P P reserved"
  by (rule hands_onI) (simp add: reserved_def)

lemma auth_hands_on: "hands_on (\<lambda>_. True) (\<lambda>r. required \<longrightarrow> FromContext r \<noteq> None) (AuthGate parse required isApp lp)"
  by (rule authF.step_hands_on) (auto simp: auth_step_def split: if_splits)

lemma authz_hands_on:
  "hands_on P (\<lambda>r. P r \<and> (\<forall>pol \<in> set pols. allows (FromContext r) (buildInput (FromContext r) r n ls) pol)) (Gate pols n ls d)"
proof (rule authzF.step_hands_on)
  fix r r' and w w' :: "'b world" assume "P r" and s: "authz_loop (FromContext r) (buildInput (FromContext r) r n ls) d pols r w = Pass r' w'"
  with authz_loop_cases [of "FromContext r" "buildInput (FromContext r) r n ls" d pols r w]
  show "P r' \<and> (\<forall>pol \<in> set pols. allows (FromContext r') (buildInput (FromContext r') r' n ls) pol)" by auto
qed

lemma mapHeader_context [simp]:
  "FromContext (mapHeader f r) = FromContext r" "buildInput p (mapHeader f r) n ls = buildInput p r n ls"
  by (simp_all add: FromContext_def mapHeader_def buildInput_def)

lemma projection_hands_on:
  assumes "\<And>r f. P (mapHeader f r) = P r"
  shows "hands_on P (\<lambda>r. P r \<and> (\<exists>h. rHeader r = project_header l u proj ga (FromContext r) h)) (ProjectionGate l u proj ga)"
proof (rule projectionF.step_hands_on)
  fix r r' and w w' :: "'b world" assume "P r" "projection_step l u proj ga r w = Pass r' w'"
  then show "P r' \<and> (\<exists>h. rHeader r' = project_header l u proj ga (FromContext r') h)"
    by (auto simp: projection_step_def assms)
qed

lemma Skeleton_hands_on:
  assumes "rsAuthorize res = [] \<Longrightarrow> pols = []"
  shows "hands_on (\<lambda>_. True) (cleared X (authActive S) (bsGroupsAs S) rt res pols) (\<lambda>t. Compose t (Skeleton (route_gates X S rt res pols) obs))"
proof -
  let ?g = "route_gates X S rt res pols"
  let ?A = "\<lambda>r. authActive S \<and> rsAuth res = ''required'' \<longrightarrow> FromContext r \<noteq> None"
  let ?B = "\<lambda>r. ?A r \<and> (\<forall>pol \<in> set pols. allows (FromContext r) (buildInput (FromContext r) r (rtName rt) (rtLabels rt)) pol)"
  have a: "hands_on (\<lambda>_. True) ?A (orReserved (gAuthGate ?g))"
    by (simp add: route_gates_def Let_def orReserved_def no_gates_def reserved_hands_on auth_hands_on [simplified])
  have b: "hands_on ?A ?B (orReserved (gAuthz ?g))"
    using assms by (simp add: route_gates_def Let_def orReserved_def no_gates_def reserved_hands_on authz_hands_on [simplified])
  have c: "hands_on ?B (cleared X (authActive S) (bsGroupsAs S) rt res pols) (orReserved (gProjection ?g))"
  proof (cases "authActive S")
    case True
    then have "cleared X (authActive S) (bsGroupsAs S) rt res pols = (\<lambda>r. ?B r \<and> (\<exists>h. rHeader r = project_header (xLower X) (xUpper X) (rsProjection res) (bsGroupsAs S) (FromContext r) h))"
      by (simp add: cleared_def fun_eq_iff)
    with True show ?thesis
      by (simp only: route_gates_def Let_def if_True orReserved_def gates.simps option.case if_distrib [of gProjection] if_cancel) (rule projection_hands_on, simp)
  next
    case False
    then have "cleared X (authActive S) (bsGroupsAs S) rt res pols = ?B" by (simp add: cleared_def fun_eq_iff)
    with False show ?thesis
      by (simp only: route_gates_def Let_def if_False orReserved_def gates.simps option.case if_distrib [of gProjection] if_cancel no_gates_def) (rule reserved_hands_on)
  qed
  show ?thesis
    unfolding Skeleton_unfold Compose_Cons Compose_Nil
    using hands_on_any [OF hands_on_compose [OF a hands_on_compose [OF b c]],
        of "\<lambda>h. recoverMW (requestIDMW ((case obs of None \<Rightarrow> accessLogMW | Some m \<Rightarrow> m) (orReserved (gSession ?g) h)))"] .
qed


lemma gates_hide:
  assumes "rsAuthorize res = [] \<Longrightarrow> pols = []" "\<And>r w. cleared X (authActive S) (bsGroupsAs S) rt res pols r \<Longrightarrow> t r w = t' r w"
  shows "Compose t (Skeleton (route_gates X S rt res pols) obs) = Compose t' (Skeleton (route_gates X S rt res pols) obs)"
  by (intro ext hands_onD [OF Skeleton_hands_on]) (use assms in auto)

section \<open>A built route\<close>

lemma build_route_shape:
  assumes "build_route X reg cfg S rt = Inr h"
  obtains t reqMW respMW res pols fwd where
    "buildTerminal reg rt = Inr t"
    "resolvePlugins reg ''RequestPlugin'' (cfRequestPlugins cfg) (rtLabels rt) = Inr reqMW"
    "resolvePlugins reg ''ResponsePlugin'' (cfResponsePlugins cfg) (rtLabels rt) = Inr respMW"
    "Resolve (xLower X) rt (cfGroups cfg) = Inr res"
    "route_policies S (rtName rt) (rsAuthorize res) = Inr pols"
    "handlerForwardsIdentity X (hsConfig (rtHandler rt)) = Inr fwd"
    "fwd \<longrightarrow> bsIssue S \<noteq> None"
    "h = route_chain S (route_gates X S rt res pols) (reqMW @ respMW @ (if fwd then [the (bsIssue S)] else [])) t"
proof -
  from assms obtain t reqMW respMW res pols fwd where
    p: "buildTerminal reg rt = Inr t"
      "resolvePlugins reg ''RequestPlugin'' (cfRequestPlugins cfg) (rtLabels rt) = Inr reqMW"
      "resolvePlugins reg ''ResponsePlugin'' (cfResponsePlugins cfg) (rtLabels rt) = Inr respMW"
      "Resolve (xLower X) rt (cfGroups cfg) = Inr res"
      "route_policies S (rtName rt) (rsAuthorize res) = Inr pols"
      "handlerForwardsIdentity X (hsConfig (rtHandler rt)) = Inr fwd"
    and h: "(if fwd then
       (case bsIssue S of
          None \<Rightarrow> Inl (ForwardWithoutIssuer (rtName rt))
        | Some issue \<Rightarrow> Inr (route_chain S (route_gates X S rt res pols) (reqMW @ respMW @ [issue]) t))
     else Inr (route_chain S (route_gates X S rt res pols) (reqMW @ respMW) t)) = Inr h"
    unfolding build_route_def by (simp only: result_inr) blast
  show ?thesis by (rule that [OF p]) (use h in \<open>auto split: if_splits option.splits\<close>)
qed

lemma route_policies_Nil: "route_policies S n ns = Inr pols \<Longrightarrow> ns = [] \<Longrightarrow> pols = []"
  by (simp add: route_policies_def)

text \<open>A mux that was built holds every route under its pattern, and keeps what it held.\<close>

lemma mux_Handle_Inr: "mux_Handle X mux p h = Inr mux' \<longleftrightarrow> xMuxAccepts X (map fst mux) p \<and> mux' = mux @ [(p, h)]"
  by (auto simp: mux_Handle_def guardR_def)

lemma add_route_Inr:
  "add_route X reg cfg S (seen, mux) rt = Inr (seen', mux') \<Longrightarrow>
     \<exists>h. gm_get seen (rtMatch rt) = None \<and> build_route X reg cfg S rt = Inr h \<and> mux' = mux @ [(rtMatch rt, h)]
       \<and> seen' = gm_set (rtMatch rt) (rtName rt) seen"
  by (auto simp: add_route_def Let_def bindR_eq_Inr mux_Handle_Inr split: option.splits)

lemma add_routes_mux:
  assumes "foldR (add_route X reg cfg S) (seen, mux) rts = Inr (seen', mux')"
  shows "\<exists>hs. traverseR (build_route X reg cfg S) rts = Inr hs \<and> mux' = mux @ zip (map rtMatch rts) hs
    \<and> distinct (map rtMatch rts) \<and> (\<forall>rt \<in> set rts. gm_get seen (rtMatch rt) = None)"
  using assms
proof (induction rts arbitrary: seen mux)
  case (Cons rt rts)
  then obtain s m where s: "add_route X reg cfg S (seen, mux) rt = Inr (s, m)" and f: "foldR (add_route X reg cfg S) (s, m) rts = Inr (seen', mux')"
    by (auto split: sum.splits)
  from add_route_Inr [OF s] obtain h where h: "gm_get seen (rtMatch rt) = None" "build_route X reg cfg S rt = Inr h"
    "m = mux @ [(rtMatch rt, h)]" "s = gm_set (rtMatch rt) (rtName rt) seen" by blast
  from Cons.IH [OF f] obtain hs where hs: "traverseR (build_route X reg cfg S) rts = Inr hs" "mux' = m @ zip (map rtMatch rts) hs"
    "distinct (map rtMatch rts)" "\<forall>rt \<in> set rts. gm_get s (rtMatch rt) = None" by blast
  show ?case
    by (rule exI [of _ "h # hs"]) (use h hs in \<open>auto simp: gm_get_set bindR_eq_Inr split: if_splits\<close>)
qed simp


section \<open>Two builds over different modules\<close>

text \<open>What a route puts behind its gates: the terminal handler inside the matching request plugins, the matching response
  plugins and, on a route whose handler forwards the identity, the issuing gate.\<close>

definition behind_gates :: "('n, 'm, 'c) app_env \<Rightarrow> ('n, 'st) modules \<Rightarrow> 'n app_config \<Rightarrow> identity_config \<Rightarrow> 'n route
    \<Rightarrow> (app_error, 'st handler) result" where
  "behind_gates X reg cfg idCfg rt =
     bindR (buildTerminal reg rt) (\<lambda>terminal.
     bindR (resolvePlugins reg ''RequestPlugin'' (cfRequestPlugins cfg) (rtLabels rt)) (\<lambda>reqMW.
     bindR (resolvePlugins reg ''ResponsePlugin'' (cfResponsePlugins cfg) (rtLabels rt)) (\<lambda>respMW.
     bindR (mapErr (ForwardDecode (rtName rt)) (handlerForwardsIdentity X (hsConfig (rtHandler rt)))) (\<lambda>forwards.
     bindR (issue_gate X idCfg) (\<lambda>issue.
     Inr (Compose terminal (reqMW @ respMW @ (case issue of Some i \<Rightarrow> if forwards then [i] else [] | None \<Rightarrow> []))))))))"

definition agree_on :: "(request \<Rightarrow> bool) \<Rightarrow> ('e, 'st handler) result \<Rightarrow> ('e, 'st handler) result \<Rightarrow> bool" where
  "agree_on Q x y \<longleftrightarrow> (\<forall>h h'. x = Inr h \<and> y = Inr h' \<longrightarrow> (\<forall>r w. Q r \<longrightarrow> h r w = h' r w))"

definition same_modules :: "string list \<Rightarrow> 'f registry \<Rightarrow> 'f registry \<Rightarrow> bool" where
  "same_modules kinds reg reg' \<longleftrightarrow> (\<forall>k \<in> set kinds. \<forall>n. Lookup reg k n = Lookup reg' k n)"

text \<open>Authentication is configured by a session, an identity provider or accepted assertions.\<close>

definition auth_configured :: "'n app_config \<Rightarrow> 'n settings \<Rightarrow> identity_config \<Rightarrow> bool" where
  "auth_configured cfg g idCfg \<longleftrightarrow>
     gwSession g \<noteq> None \<or> cfIdPResources cfg \<noteq> [] \<or> (\<exists>as. idAssertion idCfg = Some as \<and> asAccept as \<noteq> None)"

lemma Build_same: "same_modules kinds reg reg' \<Longrightarrow> k \<in> set kinds \<Longrightarrow> Build wrap reg k = Build wrap reg' k"
  by (intro ext) (simp add: Build_def same_modules_def Lookup_def)

lemma buildIdP_same: "same_modules kinds reg reg' \<Longrightarrow> ''IdP'' \<in> set kinds \<Longrightarrow> buildIdP X reg rs = buildIdP X reg' rs"
  unfolding buildIdP_def by (simp only: Build_same)

lemma buildSession_same:
  "same_modules kinds reg reg' \<Longrightarrow> ''StateProvider'' \<in> set kinds \<Longrightarrow> buildSession X reg g idCfg active = buildSession X reg' g idCfg active"
  unfolding buildSession_def by (simp only: Build_same)

lemma resolvePlugins_same:
  "same_modules kinds reg reg' \<Longrightarrow> k \<in> set kinds \<Longrightarrow> resolvePlugins reg k ps ls = resolvePlugins reg' k ps ls"
  unfolding resolvePlugins_def build_plugin_def [abs_def] by (simp only: Build_same)

lemma buildIdP_configured: "buildIdP X reg rs = Inr active \<Longrightarrow> active \<noteq> None \<longleftrightarrow> rs \<noteq> []"
  by (auto simp: buildIdP_def result_inr split: list.splits) (auto split: module.splits)

lemma buildSession_configured: "buildSession X reg g idCfg active = Inr sess \<Longrightarrow> sess \<noteq> None \<longleftrightarrow> gwSession g \<noteq> None"
  by (cases "gwSession g"; cases "gwStateProvider g")
     (auto simp: buildSession_def result_inr Let_def split: option.splits, auto split: module.splits option.splits)

lemma accept_gate_configured: "accept_gate X idCfg \<noteq> None \<longleftrightarrow> (\<exists>as. idAssertion idCfg = Some as \<and> asAccept as \<noteq> None)"
  by (auto simp: accept_gate_def split: option.splits)

text \<open>What the routes of a build share, as far as it shapes their gates.\<close>

definition shared_by :: "('n, 'm, 'c) app_env \<Rightarrow> 'n app_config \<Rightarrow> 'n settings \<Rightarrow> identity_config \<Rightarrow> (string, policy) gomap \<Rightarrow> 'st shared \<Rightarrow> bool" where
  "shared_by X cfg g idCfg m S \<longleftrightarrow>
     bsPolicies S = m \<and> issue_gate X idCfg = Inr (bsIssue S) \<and> bsGroupsAs S = groups_as idCfg
     \<and> (authActive S \<longleftrightarrow> auth_configured cfg g idCfg)"

lemma add_routes_same:
  assumes "foldR (add_route X reg cfg S) ([], []) rts = Inr (seen, mux)" "foldR (add_route X reg' cfg S) ([], []) rts = Inr (seen', mux')"
    and "\<And>rt h h'. rt \<in> set rts \<Longrightarrow> build_route X reg cfg S rt = Inr h \<Longrightarrow> build_route X reg' cfg S rt = Inr h' \<Longrightarrow> h = h'"
  shows "mux = mux'"
proof -
  from add_routes_mux [OF assms(1)] add_routes_mux [OF assms(2)] obtain hs hs' where
    h: "list_all2 (\<lambda>rt h. build_route X reg cfg S rt = Inr h) rts hs" "mux = zip (map rtMatch rts) hs"
       "list_all2 (\<lambda>rt h. build_route X reg' cfg S rt = Inr h) rts hs'" "mux' = zip (map rtMatch rts) hs'"
    by (auto simp: traverseR_Inr)
  have "hs = hs'"
    by (rule nth_equalityI) (use h(1,3) in \<open>auto simp: list_all2_conv_all_nth intro: assms(3) [OF nth_mem]\<close>)
  with h(2,4) show ?thesis by simp
qed

text \<open>The last step of a build, from the handlers of the routes to the gateway.\<close>

definition mount_all where
  "mount_all X otel other cfg active sess idCfg authCfg trusted securityMW mux =
     bindR (case (active, sess) of
              (Some i, Some (mgr, sc)) \<Rightarrow>
                (case newSealer32 (scKey sc) of
                   None \<Rightarrow> Inl SessionKeyErr
                 | Some key \<Rightarrow> add_endpoints X cfg \<lparr>hIdp = i, hSess = mgr, hSealer = key, hCfg = authCfg, hScfg = sc, hIdCfg = idCfg\<rparr> mux)
            | _ \<Rightarrow> Inr mux) (\<lambda>mux'.
     Inr \<lparr>apHandler = Forwarded (xParseAddr X) trusted (securityMW (otel (mux_ServeHTTP X other mux'))),
          apIdP = active, apSession = map_option fst sess\<rparr>)"

definition shared_of where
  "shared_of X logMW idCfg active sess issue authCfg pols =
     \<lparr>bsSession = map_option fst sess, bsBearer = map_option (\<lambda>i. BearerGate (xLower X) (as_verifier i) idCfg) active,
      bsAssertion = accept_gate X idCfg, bsIssue = issue, bsGroupsAs = groups_as idCfg,
      bsLoginPath = auLoginPath authCfg, bsPolicies = pols, bsAccessLog = logMW\<rparr>"

definition auth_of :: "('n, 'm, 'c) app_env \<Rightarrow> 'n settings \<Rightarrow> bool \<Rightarrow> (app_error, auth_config) result" where
  "auth_of X g session = (if session then mapErr AuthDecode (auth_FromYAML (xAuth X) (gwAuth g))
     else Inr \<lparr>auLoginPath = ''/auth/login'', auLogoutPath = []\<rparr>)"

lemma app_Build_parts:
  assumes "app_Build X al otel other reg cfg g tel = Inr a"
  obtains active idCfg sess issue authCfg pols trusted secCfg sec seen mux where
    "buildIdP X reg (cfIdPResources cfg) = Inr active"
    "ParseIdentity (xIdentity X) (xParseDuration X) (gwIdentity g) = Inr idCfg"
    "buildSession X reg g idCfg active = Inr sess" "\<not> (sess \<noteq> None \<and> IsVerificationOnly active)"
    "issue_gate X idCfg = Inr issue" "auth_of X g (sess \<noteq> None) = Inr authCfg"
    "Compile (xPolicy X) (xOpa X) (cfPolicies cfg) = Inr pols"
    "ParseTrustedProxies (xParseAddr X) (xParsePrefix X) (gwTrustedProxies g) = Inr trusted"
    "security_Parse (xSecurity X) (gwSecurity g) = Inr secCfg" "security_Build (xCop X) secCfg = Inr sec"
    "foldR (add_route X reg cfg (shared_of X (al (tcAccessLog tel)) idCfg active sess issue authCfg pols)) ([], []) (cfRoutes cfg) = Inr (seen, mux)"
    "mount_all X otel other cfg active sess idCfg authCfg trusted sec mux = Inr a"
  using assms unfolding app_Build_def auth_of_def [symmetric] Let_def shared_of_def [symmetric] mount_all_def [symmetric] result_inr
  by (elim exE conjE) (auto simp: bindR_eq_Inr intro: that)

lemma shared_of_shared_by:
  assumes "buildIdP X reg (cfIdPResources cfg) = Inr active" "buildSession X reg g idCfg active = Inr sess" "issue_gate X idCfg = Inr issue"
  shows "shared_by X cfg g idCfg m (shared_of X logMW idCfg active sess issue authCfg m)"
  using assms(3) buildIdP_configured [OF assms(1)] buildSession_configured [OF assms(2)] accept_gate_configured [of X idCfg]
  by (auto simp: shared_by_def shared_of_def authActive_def auth_configured_def)

lemma app_Build_same:
  assumes "app_Build X al otel other reg cfg g tel = Inr a" "app_Build X al otel other reg' cfg g tel = Inr a'"
    and "same_modules kinds reg reg'" "''IdP'' \<in> set kinds" "''StateProvider'' \<in> set kinds"
    and "ParseIdentity (xIdentity X) (xParseDuration X) (gwIdentity g) = Inr idCfg" "Compile (xPolicy X) (xOpa X) (cfPolicies cfg) = Inr m"
    and "\<And>S rt h h'. shared_by X cfg g idCfg m S \<Longrightarrow> rt \<in> set (cfRoutes cfg) \<Longrightarrow> build_route X reg cfg S rt = Inr h \<Longrightarrow>
      build_route X reg' cfg S rt = Inr h' \<Longrightarrow> h = h'"
  shows "a = a'"
proof (rule app_Build_parts [OF assms(1)], rule app_Build_parts [OF assms(2)])
  fix active idc sess issue authCfg pols trusted secCfg sec seen mux active' idc' sess' issue' authCfg' pols' trusted' secCfg' sec' seen' mux'
  assume p: "buildIdP X reg (cfIdPResources cfg) = Inr active" "ParseIdentity (xIdentity X) (xParseDuration X) (gwIdentity g) = Inr idc"
      "buildSession X reg g idc active = Inr sess" "issue_gate X idc = Inr issue" "auth_of X g (sess \<noteq> None) = Inr authCfg"
      "Compile (xPolicy X) (xOpa X) (cfPolicies cfg) = Inr pols"
      "ParseTrustedProxies (xParseAddr X) (xParsePrefix X) (gwTrustedProxies g) = Inr trusted"
      "security_Parse (xSecurity X) (gwSecurity g) = Inr secCfg" "security_Build (xCop X) secCfg = Inr sec"
    and r: "foldR (add_route X reg cfg (shared_of X (al (tcAccessLog tel)) idc active sess issue authCfg pols)) ([], []) (cfRoutes cfg) = Inr (seen, mux)"
    and a: "mount_all X otel other cfg active sess idc authCfg trusted sec mux = Inr a"
  assume p': "buildIdP X reg' (cfIdPResources cfg) = Inr active'" "ParseIdentity (xIdentity X) (xParseDuration X) (gwIdentity g) = Inr idc'"
      "buildSession X reg' g idc' active' = Inr sess'" "issue_gate X idc' = Inr issue'" "auth_of X g (sess' \<noteq> None) = Inr authCfg'"
      "Compile (xPolicy X) (xOpa X) (cfPolicies cfg) = Inr pols'"
      "ParseTrustedProxies (xParseAddr X) (xParsePrefix X) (gwTrustedProxies g) = Inr trusted'"
      "security_Parse (xSecurity X) (gwSecurity g) = Inr secCfg'" "security_Build (xCop X) secCfg' = Inr sec'"
    and r': "foldR (add_route X reg' cfg (shared_of X (al (tcAccessLog tel)) idc' active' sess' issue' authCfg' pols')) ([], []) (cfRoutes cfg) = Inr (seen', mux')"
    and a': "mount_all X otel other cfg active' sess' idc' authCfg' trusted' sec' mux' = Inr a'"
  have 1: "idc = idCfg" "idc' = idCfg" "pols = m" "pols' = m" "active' = active" "trusted' = trusted" "secCfg' = secCfg"
    using p(1,2,6,7,8) p'(1,2,6,7,8) assms(6,7) buildIdP_same [OF assms(3,4), of X "cfIdPResources cfg"] by simp_all
  then have 2: "sess' = sess" "issue' = issue" "sec' = sec"
    using p(3,4,9) p'(3,4,9) buildSession_same [OF assms(3,5), of X g idCfg active] by simp_all
  then have 3: "authCfg' = authCfg" using p(5) p'(5) by simp
  have s: "shared_by X cfg g idCfg m (shared_of X (al (tcAccessLog tel)) idCfg active sess issue authCfg m)"
    using p(1,3,4) unfolding 1 by (rule shared_of_shared_by)
  from r r' have "mux = mux'" unfolding 1 2 3 by (rule add_routes_same) (rule assms(8) [OF s])
  then show "a = a'" using a a' unfolding 1 2 3 by simp
qed

lemma build_route_behind:
  assumes "build_route X reg cfg S rt = Inr h" "issue_gate X idCfg = Inr (bsIssue S)"
  obtains res pols k where "Resolve (xLower X) rt (cfGroups cfg) = Inr res" "route_policies S (rtName rt) (rsAuthorize res) = Inr pols"
    "behind_gates X reg cfg idCfg rt = Inr k" "h = Compose k (Skeleton (route_gates X S rt res pols) (Some (bsAccessLog S)))"
proof (rule build_route_shape [OF assms(1)])
  fix t reqMW respMW res pols fwd
  assume p: "buildTerminal reg rt = Inr t" "resolvePlugins reg ''RequestPlugin'' (cfRequestPlugins cfg) (rtLabels rt) = Inr reqMW"
    "resolvePlugins reg ''ResponsePlugin'' (cfResponsePlugins cfg) (rtLabels rt) = Inr respMW" "Resolve (xLower X) rt (cfGroups cfg) = Inr res"
    "route_policies S (rtName rt) (rsAuthorize res) = Inr pols" "handlerForwardsIdentity X (hsConfig (rtHandler rt)) = Inr fwd"
    "fwd \<longrightarrow> bsIssue S \<noteq> None"
    and h: "h = route_chain S (route_gates X S rt res pols) (reqMW @ respMW @ (if fwd then [the (bsIssue S)] else [])) t"
  have "behind_gates X reg cfg idCfg rt = Inr (Compose t (reqMW @ respMW @ (if fwd then [the (bsIssue S)] else [])))"
    using p assms(2) by (auto simp: behind_gates_def mapErr_def split: option.splits)
  from that [OF p(4,5) this] show thesis by (simp add: h route_chain_def Compose_append)
qed

lemma route_policies_named: "route_policies S n ns = Inr pols \<Longrightarrow> list_all2 (\<lambda>n p. gm_get (bsPolicies S) n = Some p) ns pols"
  unfolding route_policies_def traverseR_Inr by (erule list_all2_mono) (simp split: option.splits)

section \<open>Forwarded identity\<close>

text \<open>The assertion a request carries under the header the issuing gate used is absent or was minted for the
  principal of that request.\<close>

definition minted_only :: "jws_env \<Rightarrow> issuer \<Rightarrow> string \<Rightarrow> request \<Rightarrow> bool" where
  "minted_only J i header r \<longleftrightarrow>
     AssertionHeaderFromContext r = header
     \<and> (gm_get (rHeader r) (CanonicalHeaderKey header) = None \<or>
        (\<exists>p t token. FromContext r = Some p \<and> Mint J i p t = Inr token \<and> gm_get (rHeader r) (CanonicalHeaderKey header) = Some [token]))"

lemma issue_hands_on:
  "hands_on (\<lambda>_. True) (minted_only J i (if h0 = [] then DefaultAssertionHeader else h0)) (IssueAssertion J i h0)"
proof (rule issueF.step_hands_on)
  fix r r' and w w' :: "'b world" assume "issue_step J i h0 r w = Pass r' w'"
  then show "minted_only J i (if h0 = [] then DefaultAssertionHeader else h0) r'"
    by (auto simp: issue_step_def Let_def minted_only_def AssertionHeaderFromContext_def FromContext_def mapHeader_def
        gm_get_hDel gm_get_hSet split: option.splits sum.splits)
qed

lemma Compose_hands_on: "hands_on (\<lambda>_. True) Q m \<Longrightarrow> (\<And>r w. Q r \<Longrightarrow> t r w = t' r w) \<Longrightarrow> Compose t (ms @ [m]) = Compose t' (ms @ [m])"
proof -
  assume "hands_on (\<lambda>_. True) Q m" "\<And>r w. Q r \<Longrightarrow> t r w = t' r w"
  then have "m t = m t'" unfolding hands_on_def fun_eq_iff by blast
  then show ?thesis by (simp add: Compose_append)
qed

end
