(* ===== verification/Valkey_Store.thy ===== *)
theory Valkey_Store
  imports State_Manager Chain
begin

text \<open>
  The Valkey state store (\<^verbatim>\<open>src/plugins/statestore-valkey/store.go\<close>): its configuration, its three
  operations and the store it hands to the session manager. The client library is an argument: \<open>dial\<close> opens a
  client, and a client runs one command under a timeout against the state of the server. \<open>serves\<close> is what the
  server documents: a value set with \<open>PX\<close> is returned by \<open>GET\<close> until that many milliseconds have
  passed. \<open>strconv.Quote\<close> (for the key in an error text), \<open>time.ParseDuration\<close> and the printed form of a
  duration are arguments.
\<close>

section \<open>Configuration\<close>

record valkey_config =
  vcAddress :: string
  vcUser :: string
  vcPassword :: string
  vcDB :: int
  vcTLS :: bool
  vcTimeout :: int

record raw_valkey =
  rvAddress :: string
  rvUser :: string
  rvPassword :: string
  rvDB :: int
  rvTLS :: bool
  rvTimeout :: string

datatype valkey_error =
    ValkeyDecode string
  | AddressRequired
  | NegativeDB int
  | TimeoutSyntax string
  | TimeoutNotPositive int
  | Dial string string

definition valkey_String :: "(int \<Rightarrow> string) \<Rightarrow> valkey_config \<Rightarrow> string" where
  "valkey_String dur c =
     ''valkeystore.Config{address: '' @ vcAddress c @ '', user: '' @ vcUser c @ '', db: '' @ Itoa_int (vcDB c) @
     '', tls: '' @ (if vcTLS c then ''true'' else ''false'') @ '', timeout: '' @ dur (vcTimeout c) @ ''}''"

definition valkey_parseConfig :: "('n \<Rightarrow> (string, raw_valkey) result) \<Rightarrow> (string \<Rightarrow> (string, int) result)
    \<Rightarrow> 'n \<Rightarrow> (valkey_error, valkey_config) result" where
  "valkey_parseConfig dec parseDuration raw =
     bindR (mapErr ValkeyDecode (dec raw)) (\<lambda>rc.
     guardR (rvAddress rc = []) AddressRequired (
     guardR (rvDB rc < 0) (NegativeDB (rvDB rc)) (
     let cfg = \<lparr>vcAddress = rvAddress rc, vcUser = rvUser rc, vcPassword = rvPassword rc, vcDB = rvDB rc, vcTLS = rvTLS rc, vcTimeout = seconds 3\<rparr>;
         cfg1 = (if vcUser cfg = [] then cfg\<lparr>vcUser := ''default''\<rparr> else cfg)
     in if rvTimeout rc \<noteq> [] then
          bindR (mapErr TimeoutSyntax (parseDuration (rvTimeout rc))) (\<lambda>d.
          guardR (d \<le> 0) (TimeoutNotPositive d) (
          Inr (cfg1\<lparr>vcTimeout := d\<rparr>)))
        else Inr cfg1)))"

section \<open>The client\<close>

datatype command = GET string | SET string string int | DEL string

datatype reply_error = ValkeyNil | ReplyError string

type_synonym 'st client = "int \<Rightarrow> command \<Rightarrow> 'st \<Rightarrow> (reply_error, string) result \<times> 'st"

datatype tls_version = TLS12

record client_option =
  coInitAddress :: "string list"
  coUsername :: string
  coPassword :: string
  coSelectDB :: int
  coTLSMin :: "tls_version option"

record 'st valkey_store =
  vsClient :: "'st client"
  vsTimeout :: int
  vsAddress :: string
  vsDB :: int

definition valkey_New :: "(client_option \<Rightarrow> (string, 'st client) result) \<Rightarrow> valkey_config \<Rightarrow> (valkey_error, 'st valkey_store) result" where
  "valkey_New dial cfg =
     bindR (mapErr (Dial (vcAddress cfg))
       (dial \<lparr>coInitAddress = [vcAddress cfg], coUsername = vcUser cfg, coPassword = vcPassword cfg, coSelectDB = vcDB cfg,
              coTLSMin = (if vcTLS cfg then Some TLS12 else None)\<rparr>)) (\<lambda>client.
     Inr \<lparr>vsClient = client, vsTimeout = (if vcTimeout cfg \<le> 0 then seconds 3 else vcTimeout cfg), vsAddress = vcAddress cfg, vsDB = vcDB cfg\<rparr>)"

definition valkey_factory :: "('n \<Rightarrow> (string, raw_valkey) result) \<Rightarrow> (string \<Rightarrow> (string, int) result)
    \<Rightarrow> (client_option \<Rightarrow> (string, 'st client) result) \<Rightarrow> 'n \<Rightarrow> (valkey_error, 'st valkey_store) result" where
  "valkey_factory dec parseDuration dial raw = bindR (valkey_parseConfig dec parseDuration raw) (valkey_New dial)"

section \<open>The operations\<close>

definition reply_text :: "reply_error \<Rightarrow> string" where
  "reply_text e = (case e of ValkeyNil \<Rightarrow> ''valkey nil message'' | ReplyError t \<Rightarrow> t)"

definition cloneBytes :: "string \<Rightarrow> string" where
  "cloneBytes b = map (\<lambda>i. b ! i) [0 ..< length b]"

definition valkey_Get :: "(string \<Rightarrow> string) \<Rightarrow> 'st valkey_store \<Rightarrow> string \<Rightarrow> 'st \<Rightarrow> (store_error, string) result \<times> 'st" where
  "valkey_Get quote s key st =
     (case vsClient s (vsTimeout s) (GET key) st of
        (Inl e, st') \<Rightarrow> (Inl (if e = ValkeyNil then ErrStateNotFound else StoreFailed (''valkeystore: get '' @ quote key @ '': '' @ reply_text e)), st')
      | (Inr b, st') \<Rightarrow> (Inr (cloneBytes b), st'))"

definition px_millis :: "int \<Rightarrow> int" where
  "px_millis ttl = (let ms = millis ttl in if ms \<le> 0 then 1 else ms)"

definition valkey_Set :: "(string \<Rightarrow> string) \<Rightarrow> 'st valkey_store \<Rightarrow> string \<Rightarrow> string \<Rightarrow> int \<Rightarrow> 'st \<Rightarrow> string option \<times> 'st" where
  "valkey_Set quote s key val ttl st =
     (case vsClient s (vsTimeout s) (SET key val (px_millis ttl)) st of
        (Inl e, st') \<Rightarrow> (Some (''valkeystore: set '' @ quote key @ '': '' @ reply_text e), st')
      | (Inr r, st') \<Rightarrow> (None, st'))"

definition valkey_Delete :: "(string \<Rightarrow> string) \<Rightarrow> 'st valkey_store \<Rightarrow> string \<Rightarrow> 'st \<Rightarrow> string option \<times> 'st" where
  "valkey_Delete quote s key st =
     (case vsClient s (vsTimeout s) (DEL key) st of
        (Inl e, st') \<Rightarrow> (Some (''valkeystore: delete '' @ quote key @ '': '' @ reply_text e), st')
      | (Inr r, st') \<Rightarrow> (None, st'))"

text \<open>\<open>closeClient\<close> is what the client library does to its connections.\<close>

definition valkey_Close :: "('st client \<Rightarrow> 'st \<Rightarrow> 'st) \<Rightarrow> 'st valkey_store \<Rightarrow> 'st \<Rightarrow> 'st" where
  "valkey_Close closeClient s st = closeClient (vsClient s) st"

definition store_String :: "'st valkey_store \<Rightarrow> string" where
  "store_String s = ''valkeystore.Store{address: '' @ vsAddress s @ '', db: '' @ Itoa_int (vsDB s) @ ''}''"

text \<open>The store as the session manager uses it.\<close>

definition valkey_ops :: "(string \<Rightarrow> string) \<Rightarrow> 'st valkey_store \<Rightarrow> 'st store" where
  "valkey_ops quote s = \<lparr>ssGet = valkey_Get quote s, ssSet = valkey_Set quote s, ssDelete = valkey_Delete quote s\<rparr>"

lemma cloneBytes_id [simp]: "cloneBytes b = b"
  by (simp add: cloneBytes_def map_nth)

section \<open>Configuration\<close>

text \<open>An accepted configuration names a server, a user and a database, and has a positive timeout, as has the store built from
  it; the password only goes to the client.\<close>

theorem valkey_factory_wf:
  assumes "valkey_factory dec pd dial raw = Inr s"
  shows "\<exists>cfg. valkey_parseConfig dec pd raw = Inr cfg \<and> vcAddress cfg \<noteq> [] \<and> vcUser cfg \<noteq> [] \<and> 0 \<le> vcDB cfg \<and> 0 < vcTimeout cfg
    \<and> vsTimeout s = vcTimeout cfg \<and> vsAddress s = vcAddress cfg \<and> vsDB s = vcDB cfg
    \<and> (\<forall>pw. valkey_String dur (cfg\<lparr>vcPassword := pw\<rparr>) = valkey_String dur cfg)"
proof -
  from assms obtain cfg where c: "valkey_parseConfig dec pd raw = Inr cfg" and n: "valkey_New dial cfg = Inr s"
    by (auto simp: valkey_factory_def result_inr)
  have d: "''default'' \<noteq> []" by simp
  from c have "vcAddress cfg \<noteq> [] \<and> vcUser cfg \<noteq> [] \<and> 0 \<le> vcDB cfg \<and> 0 < vcTimeout cfg"
    using d unfolding valkey_parseConfig_def Let_def by (simp only: result_inr) (auto simp: seconds_def result_inr split: if_splits)
  moreover from n this have "vsTimeout s = vcTimeout cfg \<and> vsAddress s = vcAddress cfg \<and> vsDB s = vcDB cfg"
    by (auto simp: valkey_New_def result_inr)
  moreover have "valkey_String dur (cfg\<lparr>vcPassword := pw\<rparr>) = valkey_String dur cfg" for pw
    by (cases cfg) (simp only: valkey_String_def valkey_config.simps valkey_config.update_convs)
  ultimately show ?thesis using c by blast
qed

theorem valkey_factory_wf_witness:
  "\<exists>s :: unit valkey_store. valkey_factory (\<lambda>n. Inr \<lparr>rvAddress = ''v:6379'', rvUser = [], rvPassword = ''pw'', rvDB = 0, rvTLS = True, rvTimeout = []\<rparr>)
      (\<lambda>d. Inl []) (\<lambda>opt. Inr (\<lambda>t c st. (Inl ValkeyNil, st))) () = Inr s \<and> vsTimeout s = seconds 3 \<and> vsAddress s = ''v:6379''"
proof -
  let ?dec = "\<lambda>n :: unit. Inr \<lparr>rvAddress = ''v:6379'', rvUser = [], rvPassword = ''pw'', rvDB = 0, rvTLS = True, rvTimeout = []\<rparr> :: (string, raw_valkey) result"
  let ?pd = "\<lambda>d. Inl [] :: (string, int) result" and ?dial = "\<lambda>opt. Inr (\<lambda>t c st. (Inl ValkeyNil, st)) :: (string, unit client) result"
  obtain s where s: "valkey_factory ?dec ?pd ?dial () = Inr s"
    by (simp add: valkey_factory_def valkey_parseConfig_def valkey_New_def Let_def)
  have "valkey_parseConfig ?dec ?pd () = Inr \<lparr>vcAddress = ''v:6379'', vcUser = ''default'', vcPassword = ''pw'', vcDB = 0, vcTLS = True, vcTimeout = seconds 3\<rparr>"
    by (simp add: valkey_parseConfig_def Let_def)
  with valkey_factory_wf [OF s] s show ?thesis by auto
qed

section \<open>How long a record lives\<close>

text \<open>The server's documented behaviour. \<open>live st k\<close> is the value of a key with the milliseconds it has left, and
  \<open>pass d\<close> lets \<open>d\<close> milliseconds pass. A command may fail; a failed \<open>GET\<close> changes nothing.\<close>

definition serves :: "'st client \<Rightarrow> ('st \<Rightarrow> string \<Rightarrow> (string \<times> int) option) \<Rightarrow> (nat \<Rightarrow> 'st \<Rightarrow> 'st) \<Rightarrow> bool" where
  "serves c live pass \<longleftrightarrow>
     (\<forall>t k st. live (snd (c t (GET k) st)) = live st
        \<and> (\<forall>r. fst (c t (GET k) st) = r \<longrightarrow>
             (case live st k of None \<Rightarrow> r = Inl ValkeyNil \<or> (\<exists>e. r = Inl (ReplyError e)) | Some (v, _) \<Rightarrow> r = Inr v \<or> (\<exists>e. r = Inl (ReplyError e)))))
     \<and> (\<forall>t k v ms st r. fst (c t (SET k v ms) st) = Inr r \<longrightarrow> live (snd (c t (SET k v ms) st)) = (live st)(k \<mapsto> (v, ms)))
     \<and> (\<forall>t k st r. fst (c t (DEL k) st) = Inr r \<longrightarrow> live (snd (c t (DEL k) st)) = (live st)(k := None))
     \<and> (\<forall>d st k. live (pass d st) k = (case live st k of None \<Rightarrow> None | Some (v, left) \<Rightarrow> if int d < left then Some (v, left - int d) else None))"

lemma px_millis_bounds:
  "1 \<le> px_millis ttl"
  "1000000 \<le> ttl \<Longrightarrow> px_millis ttl * 1000000 \<le> ttl \<and> ttl < (px_millis ttl + 1) * 1000000"
  "ttl < 1000000 \<Longrightarrow> px_millis ttl = 1"
  by (auto simp: px_millis_def millis_def Let_def)

text \<open>C31. A record lives as long as its session, to the millisecond. After a successful Set, a Get that reaches the server
  returns the value while fewer whole milliseconds have passed than the time to live holds (one at least) and finds
  nothing afterwards, so a record never outlives a session of a millisecond or more and is never lost more than a millisecond
  early; other keys are untouched, and a deleted record is gone.\<close>

theorem valkey_record_lifetime:
  assumes "serves (vsClient s) live pass" "valkey_Set q s k v ttl st = (None, st')"
  shows "(\<forall>d r. fst (valkey_Get q s k (pass d st')) = r \<and> (\<forall>e. r \<noteq> Inl (StoreFailed e)) \<longrightarrow>
            r = (if int d < px_millis ttl then Inr v else Inl ErrStateNotFound))
    \<and> (\<forall>k'. k' \<noteq> k \<longrightarrow> live st' k' = live st k')
    \<and> (\<forall>st2. valkey_Delete q s k st' = (None, st2) \<longrightarrow> live st2 k = None)
    \<and> 1 \<le> px_millis ttl \<and> (1000000 \<le> ttl \<longrightarrow> px_millis ttl * 1000000 \<le> ttl \<and> ttl < (px_millis ttl + 1) * 1000000)"
proof -
  let ?c = "vsClient s (vsTimeout s)"
  from assms(2) obtain r where r: "?c (SET k v (px_millis ttl)) st = (Inr r, st')"
    by (auto simp: valkey_Set_def split: sum.splits prod.splits)
  then have l: "live st' = (live st)(k \<mapsto> (v, px_millis ttl))"
    using assms(1) unfolding serves_def by (metis fst_conv snd_conv)
  have get: "x = (if int d < px_millis ttl then Inr v else Inl ErrStateNotFound)"
    if x: "fst (valkey_Get q s k (pass d st')) = x" "\<forall>e. x \<noteq> Inl (StoreFailed e)" for d x
  proof -
    have p: "live (pass d st') k = (if int d < px_millis ttl then Some (v, px_millis ttl - int d) else None)"
      using assms(1) unfolding serves_def by (simp add: l)
    have "case live (pass d st') k of None \<Rightarrow> fst (?c (GET k) (pass d st')) = Inl ValkeyNil \<or> (\<exists>e. fst (?c (GET k) (pass d st')) = Inl (ReplyError e))
       | Some (v, _) \<Rightarrow> fst (?c (GET k) (pass d st')) = Inr v \<or> (\<exists>e. fst (?c (GET k) (pass d st')) = Inl (ReplyError e))"
      using assms(1) unfolding serves_def by blast
    with x p show ?thesis
      by (cases "?c (GET k) (pass d st')") (auto simp: valkey_Get_def split: if_splits)
  qed
  have "live st2 k = None" if "valkey_Delete q s k st' = (None, st2)" for st2
  proof -
    from that obtain r where "?c (DEL k) st' = (Inr r, st2)" by (auto simp: valkey_Delete_def split: sum.splits prod.splits)
    then have "live st2 = (live st')(k := None)" using assms(1) unfolding serves_def by (metis fst_conv snd_conv)
    then show ?thesis by simp
  qed
  with get l px_millis_bounds show ?thesis by auto
qed

text \<open>A server that is a map from keys to values with their remaining time.\<close>

definition demo_valkey :: "(string \<times> string \<times> int) list client" where
  "demo_valkey t c st = (case c of
       GET k \<Rightarrow> (case map_of st k of None \<Rightarrow> Inl ValkeyNil | Some (v, ms) \<Rightarrow> Inr v, st)
     | SET k v ms \<Rightarrow> (Inr ''OK'', (k, v, ms) # st)
     | DEL k \<Rightarrow> (Inr ''1'', filter (\<lambda>e. fst e \<noteq> k) st))"

fun demo_pass :: "nat \<Rightarrow> (string \<times> string \<times> int) list \<Rightarrow> (string \<times> string \<times> int) list" where
  "demo_pass d [] = []"
| "demo_pass d ((k, v, ms) # st) =
     (if int d < ms then (k, v, ms - int d) # demo_pass d st else filter (\<lambda>e. fst e \<noteq> k) (demo_pass d st))"

lemma map_of_filter_key: "map_of (filter (\<lambda>e. fst e \<noteq> k) st) = (map_of st)(k := None)"
  by (induction st) (auto simp: fun_eq_iff)

lemma demo_serves: "serves demo_valkey map_of demo_pass"
proof -
  have "map_of (demo_pass d st) k = (case map_of st k of None \<Rightarrow> None | Some (v, left) \<Rightarrow> if int d < left then Some (v, left - int d) else None)" for d st k
    by (induction d st rule: demo_pass.induct) (auto simp: map_of_filter_key)
  then show ?thesis
    by (auto simp: serves_def demo_valkey_def map_of_filter_key split: option.splits)
qed

definition demo_valkey_store :: "(string \<times> string \<times> int) list valkey_store" where
  "demo_valkey_store = \<lparr>vsClient = demo_valkey, vsTimeout = seconds 3, vsAddress = ''v:6379'', vsDB = 0\<rparr>"

theorem valkey_record_lifetime_witness:
  "fst (valkey_Get (\<lambda>s. s) demo_valkey_store ''k'' (demo_pass 4 (snd (valkey_Set (\<lambda>s. s) demo_valkey_store ''k'' ''v'' 5900000 [])))) = Inr ''v''
   \<and> fst (valkey_Get (\<lambda>s. s) demo_valkey_store ''k'' (demo_pass 5 (snd (valkey_Set (\<lambda>s. s) demo_valkey_store ''k'' ''v'' 5900000 [])))) = Inl ErrStateNotFound"
proof -
  let ?st = "snd (valkey_Set (\<lambda>s. s) demo_valkey_store ''k'' ''v'' 5900000 [])"
  have s: "valkey_Set (\<lambda>s. s) demo_valkey_store ''k'' ''v'' 5900000 [] = (None, ?st)"
    by (simp add: valkey_Set_def demo_valkey_store_def demo_valkey_def)
  have "fst (valkey_Get (\<lambda>s. s) demo_valkey_store ''k'' x) \<noteq> Inl (StoreFailed e)" for x e
    by (simp add: valkey_Get_def demo_valkey_store_def demo_valkey_def split: option.split prod.split)
  moreover have "serves (vsClient demo_valkey_store) map_of demo_pass" using demo_serves by (simp add: demo_valkey_store_def)
  moreover have "px_millis 5900000 = 5" by (simp add: px_millis_def millis_def Let_def)
  ultimately show ?thesis using valkey_record_lifetime [OF _ s, of map_of demo_pass] by auto
qed

end
