(* ===== verification/Hog_Build.thy ===== *)
theory Hog_Build
  imports App
begin

text \<open>
  The composer of custom binaries (\<^verbatim>\<open>src/internal/hogbuild/hogbuild.go\<close>, \<^verbatim>\<open>build.go\<close>,
  \<^verbatim>\<open>src/cmd/hog-build/main.go\<close>): the plugin manifest, the generated main.go and go.mod, and the order in
  which the toolchain is driven. What a build does to its host is the list of events it performs; the outcome of an event
  may depend on everything that happened before it. \<open>filepath.Abs\<close>, the name of the temporary directory and the
  toolchain are arguments; the character table behind \<open>strconv.IsPrint\<close> is one for runes outside ASCII.
\<close>

section \<open>Quoting\<close>

definition hex_of :: "nat \<Rightarrow> nat \<Rightarrow> string" where
  "hex_of n r = map (\<lambda>i. hex_digit (r div 16 ^ (n - 1 - i) mod 16)) [0 ..< n]"

definition IsPrint :: "(nat \<Rightarrow> bool) \<Rightarrow> nat \<Rightarrow> bool" where
  "IsPrint table r = (if r < 128 then 32 \<le> r \<and> r < 127 else table r)"

definition escaped_rune :: "(nat \<Rightarrow> bool) \<Rightarrow> nat \<Rightarrow> string" where
  "escaped_rune table r =
     (if r = 34 \<or> r = 92 then [CHR 0x5C, char_of r]
      else if IsPrint table r then EncodeRune r
      else if r = 7 then [CHR 0x5C, CHR ''a'']
      else if r = 8 then [CHR 0x5C, CHR ''b'']
      else if r = 12 then [CHR 0x5C, CHR ''f'']
      else if r = 10 then [CHR 0x5C, CHR ''n'']
      else if r = 13 then [CHR 0x5C, CHR ''r'']
      else if r = 9 then [CHR 0x5C, CHR ''t'']
      else if r = 11 then [CHR 0x5C, CHR ''v'']
      else if r < 32 \<or> r = 127 then [CHR 0x5C, CHR ''x''] @ hex_of 2 r
      else if r < 65536 then [CHR 0x5C, CHR ''u''] @ hex_of 4 r
      else [CHR 0x5C, CHR ''U''] @ hex_of 8 r)"

function quote_loop :: "(nat \<Rightarrow> bool) \<Rightarrow> string \<Rightarrow> string" where
  "quote_loop table s =
     (if s = [] then []
      else let (r, n) = DecodeRune s in
        (if n = 1 \<and> r = RuneError then [CHR 0x5C, CHR ''x''] @ hex_of 2 (byte (hd s)) else escaped_rune table r)
        @ quote_loop table (drop n s))"
  by pat_completeness auto
termination
proof (relation "measure (\<lambda>(t, s). length s)", goal_cases)
  case (2 t s x r n)
  then show ?case using DecodeRune_width_pos [of s] by (auto simp: prod_eq_iff)
qed simp

declare quote_loop.simps [simp del]

definition Quote :: "(nat \<Rightarrow> bool) \<Rightarrow> string \<Rightarrow> string" where
  "Quote table s = CHR 0x22 # quote_loop table s @ [CHR 0x22]"

section \<open>The manifest\<close>

definition hogModule :: string where
  "hogModule = ''github.com/paulopiriquito/hog/v2''"

record plugin =
  pgImportPath :: string
  pgVersion :: string

record replace =
  rpPath :: string
  rpWith :: string

record build_options =
  boOutput :: string
  boHogSource :: string
  boReplaces :: "replace list"
  boTags :: string
  boGoBin :: string
  boKeep :: bool

datatype build_error =
    ManifestLoad config_error
  | ManifestGateway app_error
  | ManyGateways
  | NoGateway
  | BadImportPath string
  | HogSourceRequired
  | HogSourceControl
  | ReplaceControl
  | AbsFailed string
  | ReplaceHog
  | TempDir string
  | WriteFailed string
  | GoFailed "string list" string
  | ReplaceSyntax string

text \<open>\<open>strings.CutLast\<close> for a separator of one byte.\<close>

definition CutLast :: "string \<Rightarrow> char \<Rightarrow> (string \<times> string) option" where
  "CutLast s c = (case lastIndexByte s c of None \<Rightarrow> None | Some i \<Rightarrow> Some (take i s, drop (Suc i) s))"

definition validImportPath :: "string \<Rightarrow> bool" where
  "validImportPath p =
     (if p = [] \<or> HasPrefix p ''-'' then False
      else if list_ex (\<lambda>r. r \<le> 32 \<or> r = 34 \<or> r = 96 \<or> r = 39 \<or> r = 92 \<or> r = 64) (runes p) then False
      else if \<not> Contains (hd (Split (CHR ''/'') p)) ''.'' then False
      else list_all (\<lambda>seg. seg \<noteq> ''..'' \<and> seg \<noteq> ''.'' \<and> seg \<noteq> []) (Split (CHR ''/'') p))"

definition hb_parsePlugin :: "string \<Rightarrow> (build_error, plugin) result" where
  "hb_parsePlugin entry0 =
     (let entry = TrimSpace entry0;
          (path, ver) = (case CutLast entry (CHR ''@'') of Some (before, after) \<Rightarrow> (before, after) | None \<Rightarrow> (entry, []))
      in guardR (\<not> validImportPath path) (BadImportPath entry) (Inr \<lparr>pgImportPath = path, pgVersion = ver\<rparr>))"

definition find_gateway :: "('n, 'm, 'c) app_env \<Rightarrow> 'n settings option \<Rightarrow> 'n resource \<Rightarrow> (build_error, 'n settings option) result" where
  "find_gateway X seen r =
     (if Kind r \<noteq> ''Gateway'' then Inr seen
      else guardR (seen \<noteq> None) ManyGateways (
           bindR (mapErr ManifestGateway (gateway_FromResource X r)) (\<lambda>s. Inr (Some s))))"

text \<open>\<open>src\<close> is what \<open>config.Load\<close> reads: the files, the environment and the YAML decoder.\<close>

record 'n config_source =
  csFs :: osfs
  csEnv :: "string \<Rightarrow> string option"
  csYaml :: "string \<Rightarrow> (string, 'n resource) result list"

definition ReadManifest :: "('n, 'm, 'c) app_env \<Rightarrow> 'n config_source \<Rightarrow> string \<Rightarrow> (build_error, plugin list) result" where
  "ReadManifest X src configPath =
     bindR (mapErr ManifestLoad (Load (xLower X) (csFs src) (csEnv src) (csYaml src) configPath)) (\<lambda>resources.
     bindR (foldR (find_gateway X) None resources) (\<lambda>seen.
     case seen of
       None \<Rightarrow> Inl NoGateway
     | Some settings \<Rightarrow> traverseR hb_parsePlugin (gwPlugins settings)))"

section \<open>The generated files\<close>

definition import_line :: "string \<Rightarrow> string" where
  "import_line path = [CHR 0x09] @ ''_ '' @ [CHR 0x22] @ path @ [CHR 0x22]"

definition RenderMain :: "plugin list \<Rightarrow> string" where
  "RenderMain plugins =
     ''package main'' @ [CHR 0x0A, CHR 0x0A] @ ''import ('' @ [CHR 0x0A, CHR 0x09, CHR 0x22] @ hogModule @ [CHR 0x22]
     @ concat (map (\<lambda>p. CHR 0x0A # import_line (pgImportPath p)) plugins)
     @ [CHR 0x0A] @ '')'' @ [CHR 0x0A, CHR 0x0A] @ ''func main() { hog.Main() }'' @ [CHR 0x0A]"

definition modTarget :: "(nat \<Rightarrow> bool) \<Rightarrow> string \<Rightarrow> string" where
  "modTarget table s = (if \<exists>c \<in> set s. c \<in> {CHR '' '', CHR 0x09, CHR 0x22} then Quote table s else s)"

definition replace_line :: "(nat \<Rightarrow> bool) \<Rightarrow> string \<Rightarrow> string \<Rightarrow> string" where
  "replace_line table path target = ''replace '' @ path @ '' => '' @ modTarget table target"

definition RenderGoMod :: "(nat \<Rightarrow> bool) \<Rightarrow> build_options \<Rightarrow> string" where
  "RenderGoMod table opts =
     ''module hogbin'' @ [CHR 0x0A, CHR 0x0A] @ ''go 1.27'' @ [CHR 0x0A, CHR 0x0A]
     @ replace_line table hogModule (boHogSource opts) @ [CHR 0x0A]
     @ concat (map (\<lambda>rp. replace_line table (rpPath rp) (rpWith rp) @ [CHR 0x0A]) (boReplaces opts))"

section \<open>Building\<close>

definition hasControl :: "string \<Rightarrow> bool" where
  "hasControl s = list_ex (\<lambda>r. r = 10 \<or> r = 13 \<or> (r < 32 \<and> r \<noteq> 9)) (runes s)"

definition absReplaces :: "(string \<Rightarrow> (string, string) result) \<Rightarrow> replace list \<Rightarrow> (build_error, replace list) result" where
  "absReplaces absPath rs = traverseR (\<lambda>rp. bindR (mapErr AbsFailed (absPath (rpWith rp))) (\<lambda>a. Inr (rp\<lparr>rpWith := a\<rparr>))) rs"

definition moduleReplaced :: "string \<Rightarrow> replace list \<Rightarrow> bool" where
  "moduleReplaced importPath rs = list_ex (\<lambda>rp. importPath = rpPath rp \<or> HasPrefix importPath (rpPath rp @ ''/'')) rs"

datatype event =
    MkdirTemp
  | WriteFile string string
  | RunGo string string "string list"
  | RemoveAll string

record host =
  haAbs :: "string \<Rightarrow> (string, string) result"
  haTemp :: "event list \<Rightarrow> (string, string) result"
  haDo :: "event list \<Rightarrow> event \<Rightarrow> string option"

type_synonym 'a action = "event list \<Rightarrow> 'a option \<times> event list"

definition perform :: "host \<Rightarrow> (string \<Rightarrow> 'e) \<Rightarrow> event \<Rightarrow> 'e action" where
  "perform H wrap e h = (map_option wrap (haDo H h e), h @ [e])"

definition andThen :: "'e action \<Rightarrow> 'e action \<Rightarrow> 'e action" where
  "andThen a b h = (case a h of (Some e, h1) \<Rightarrow> (Some e, h1) | (None, h1) \<Rightarrow> b h1)"

definition run_go :: "host \<Rightarrow> build_options \<Rightarrow> string \<Rightarrow> string list \<Rightarrow> build_error action" where
  "run_go H opts dir args = perform H (GoFailed args) (RunGo (boGoBin opts) dir args)"

fun get_plugins :: "host \<Rightarrow> build_options \<Rightarrow> string \<Rightarrow> plugin list \<Rightarrow> build_error action" where
  "get_plugins H opts dir [] h = (None, h)"
| "get_plugins H opts dir (p # ps) h =
     (if moduleReplaced (pgImportPath p) (boReplaces opts) then get_plugins H opts dir ps h
      else let ver = (if pgVersion p = [] then ''latest'' else pgVersion p) in
        andThen (run_go H opts dir [''get'', ''--'', pgImportPath p @ ''@'' @ ver]) (get_plugins H opts dir ps) h)"

definition build_args :: "build_options \<Rightarrow> string \<Rightarrow> string list" where
  "build_args opts out = [''build'', ''-o'', out] @ (if boTags opts \<noteq> [] then [''-tags'', boTags opts] else []) @ [''.'']"

definition in_dir :: "host \<Rightarrow> (nat \<Rightarrow> bool) \<Rightarrow> build_options \<Rightarrow> string \<Rightarrow> plugin list \<Rightarrow> string \<Rightarrow> build_error action" where
  "in_dir H table opts out plugins dir =
     andThen (perform H WriteFailed (WriteFile (PathJoin [dir, ''main.go'']) (RenderMain plugins))) (
     andThen (perform H WriteFailed (WriteFile (PathJoin [dir, ''go.mod'']) (RenderGoMod table opts))) (
     andThen (get_plugins H opts dir plugins) (
     andThen (run_go H opts dir [''mod'', ''tidy'']) (
     run_go H opts dir (build_args opts out)))))"

definition build_plan :: "('n, 'm, 'c) app_env \<Rightarrow> 'n config_source \<Rightarrow> host \<Rightarrow> string \<Rightarrow> build_options
    \<Rightarrow> (build_error, plugin list \<times> string \<times> build_options) result" where
  "build_plan X src H configPath opts0 =
     guardR (boHogSource opts0 = []) HogSourceRequired (
     let opts = (if boGoBin opts0 = [] then opts0\<lparr>boGoBin := ''go''\<rparr> else opts0) in
     guardR (hasControl (boHogSource opts)) HogSourceControl (
     guardR (list_ex (\<lambda>rp. hasControl (rpPath rp) \<or> hasControl (rpWith rp)) (boReplaces opts)) ReplaceControl (
     bindR (ReadManifest X src configPath) (\<lambda>plugins.
     bindR (mapErr AbsFailed (haAbs H (boOutput opts))) (\<lambda>out.
     bindR (mapErr AbsFailed (haAbs H (boHogSource opts))) (\<lambda>hogSrc.
     bindR (absReplaces (haAbs H) (boReplaces opts)) (\<lambda>reps.
     guardR (list_ex (\<lambda>rp. rpPath rp = hogModule) reps) ReplaceHog (
     Inr (plugins, out, opts\<lparr>boHogSource := hogSrc, boReplaces := reps\<rparr>)))))))))"

definition hb_Build :: "('n, 'm, 'c) app_env \<Rightarrow> 'n config_source \<Rightarrow> host \<Rightarrow> (nat \<Rightarrow> bool) \<Rightarrow> string \<Rightarrow> build_options
    \<Rightarrow> build_error action" where
  "hb_Build X src H table configPath opts0 h =
     (case build_plan X src H configPath opts0 of
        Inl e \<Rightarrow> (Some e, h)
      | Inr (plugins, out, opts) \<Rightarrow>
          (case haTemp H h of
             Inl e \<Rightarrow> (Some (TempDir e), h @ [MkdirTemp])
           | Inr dir \<Rightarrow>
               (case in_dir H table opts out plugins dir (h @ [MkdirTemp]) of
                  (r, h1) \<Rightarrow> (r, if boKeep opts then h1 else h1 @ [RemoveAll dir]))))"

text \<open>The \<open>--replace\<close> flag.\<close>

definition replace_Set :: "replace list \<Rightarrow> string \<Rightarrow> (build_error, replace list) result" where
  "replace_Set rs v = (case Cut v ''='' of None \<Rightarrow> Inl (ReplaceSyntax v) | Some (before, after) \<Rightarrow> Inr (rs @ [\<lparr>rpPath = before, rpWith = after\<rparr>]))"

section \<open>Nothing is spliced into the generated files\<close>

lemma DecodeRune_ascii: "c \<in> set (take (snd (DecodeRune s)) s) \<Longrightarrow> byte c < 128 \<Longrightarrow> fst (DecodeRune s) = byte c"
  by (cases s) (auto simp: DecodeRune_def cont_def take_Cons' split: if_splits list.splits)

lemma ascii_in_runes: "c \<in> set s \<Longrightarrow> byte c < 128 \<Longrightarrow> byte c \<in> set (runes s)"
proof (induction s rule: runes.induct)
  case (1 s)
  from 1(2) have ne: "s \<noteq> []" by auto
  from 1(2) have "c \<in> set (take (snd (DecodeRune s)) s) \<or> c \<in> set (drop (snd (DecodeRune s)) s)"
    by (metis Un_iff append_take_drop_id set_append)
  then show ?case
    using 1(1) [OF ne] 1(3) DecodeRune_ascii [of c s] by (subst runes.simps) (auto simp: ne)
qed

lemma valid_path_chars: "validImportPath p \<Longrightarrow> c \<in> set p \<Longrightarrow> 32 < byte c \<and> byte c \<notin> {34, 39, 64, 92, 96}"
  using ascii_in_runes [of c p] by (cases "byte c < 128") (fastforce simp: validImportPath_def list_ex_iff split: if_splits)+

lemma valid_path_plain: "validImportPath p \<Longrightarrow> CHR 0x0A \<notin> set p \<and> CHR 0x22 \<notin> set p \<and> CHR 0x5C \<notin> set p"
  using valid_path_chars [of p "CHR 0x0A"] valid_path_chars [of p "CHR 0x22"] valid_path_chars [of p "CHR 0x5C"] by (auto simp: byte_def)

lemma hb_parsePlugin_valid: "hb_parsePlugin e = Inr p \<Longrightarrow> validImportPath (pgImportPath p)"
  by (auto simp: hb_parsePlugin_def Let_def guardR_eq_Inr split: prod.splits)

lemma ReadManifest_valid: "ReadManifest X src cp = Inr ps \<Longrightarrow> p \<in> set ps \<Longrightarrow> validImportPath (pgImportPath p)"
  by (auto simp: ReadManifest_def result_inr traverseR_Inr list_all2_conv_all_nth in_set_conv_nth dest!: hb_parsePlugin_valid split: option.splits)

lemma Split_lines: "\<forall>l \<in> set ls. c \<notin> set l \<Longrightarrow> Split c (concat (map (\<lambda>l. l @ [c]) ls) @ t) = ls @ Split c t"
  by (induction ls) (auto simp: Split_append)

text \<open>The packages a Go file imports for their side effects: its lines that start with a tab, an underscore and a quote.\<close>

definition blank_prefix :: string where
  "blank_prefix = [CHR 0x09] @ ''_ '' @ [CHR 0x22]"

definition blank_imports :: "string \<Rightarrow> string list" where
  "blank_imports src = map (\<lambda>l. butlast (drop (length blank_prefix) l)) (filter (\<lambda>l. HasPrefix l blank_prefix) (Split (CHR 0x0A) src))"

lemma import_line_eq: "import_line p = blank_prefix @ p @ [CHR 0x22]"
  by (simp add: import_line_def blank_prefix_def)

lemma RenderMain_lines:
  assumes "\<forall>p \<in> set ps. validImportPath (pgImportPath p)"
  shows "Split (CHR 0x0A) (RenderMain ps) =
    [''package main'', [], ''import ('', [CHR 0x09, CHR 0x22] @ hogModule @ [CHR 0x22]] @ map (import_line \<circ> pgImportPath) ps
    @ ['')'', [], ''func main() { hog.Main() }'', []]"
proof -
  let ?ls = "[''package main'', [], ''import ('', [CHR 0x09, CHR 0x22] @ hogModule @ [CHR 0x22]] @ map (import_line \<circ> pgImportPath) ps
    @ ['')'', [], ''func main() { hog.Main() }'']"
  have "concat (map (\<lambda>p. CHR 0x0A # f p) ps) @ CHR 0x0A # t = CHR 0x0A # concat (map (\<lambda>l. l @ [CHR 0x0A]) (map f ps)) @ t" for f :: "plugin \<Rightarrow> string" and t
    by (induction ps) auto
  then have r: "RenderMain ps = concat (map (\<lambda>l. l @ [CHR 0x0A]) ?ls) @ []"
    by (simp add: RenderMain_def comp_def)
  have "\<forall>l \<in> set ?ls. CHR 0x0A \<notin> set l"
    using assms valid_path_plain by (auto simp: hogModule_def import_line_def)
  then show ?thesis unfolding r by (subst Split_lines) simp_all
qed

text \<open>C36. The generated program imports exactly the plugins of the manifest. For a manifest that was accepted, the packages the
  generated main.go imports for their side effects are its import paths, in order, and the file has one line per plugin and
  eight fixed ones: no entry can add a line, close the string it is in or reach the code around it.\<close>

theorem generated_main_imports_manifest:
  assumes "ReadManifest X src cp = Inr ps"
  shows "blank_imports (RenderMain ps) = map pgImportPath ps \<and> length (Split (CHR 0x0A) (RenderMain ps)) = length ps + 8
    \<and> (\<forall>p \<in> set ps. CHR 0x22 \<notin> set (pgImportPath p) \<and> CHR 0x5C \<notin> set (pgImportPath p))"
proof -
  have v: "\<forall>p \<in> set ps. validImportPath (pgImportPath p)" using ReadManifest_valid [OF assms] by blast
  have imp: "filter (\<lambda>l. HasPrefix l blank_prefix) (map (import_line \<circ> pgImportPath) ps) = map (import_line \<circ> pgImportPath) ps"
    by (simp add: filter_map comp_def import_line_eq)
  have fixed: "\<not> HasPrefix ([CHR 0x09, CHR 0x22] @ hogModule @ [CHR 0x22]) blank_prefix" by (simp add: blank_prefix_def)
  have "blank_imports (RenderMain ps) = map pgImportPath ps"
    unfolding blank_imports_def RenderMain_lines [OF v] filter_append imp
    by (simp add: fixed) (simp add: blank_prefix_def import_line_def comp_def)
  then show ?thesis using v valid_path_plain by (auto simp: RenderMain_lines [OF v])
qed


lemma demo_entry: "hb_parsePlugin ''a.b/p@v1'' = Inr \<lparr>pgImportPath = ''a.b/p'', pgVersion = ''v1''\<rparr>"
proof -
  have "TrimSpace ''a.b/p@v1'' = ''a.b/p@v1''" by (rule TrimSpace_graphic) (simp_all add: graphic_def byte_def)
  moreover have "CutLast ''a.b/p@v1'' (CHR ''@'') = Some (''a.b/p'', ''v1'')" by code_simp
  moreover have "validImportPath ''a.b/p''" by code_simp
  ultimately show ?thesis by (simp add: hb_parsePlugin_def)
qed

definition demo_build_env :: "(unit, unit, unit) app_env" where
  "demo_build_env = demo_app_env\<lparr>xGateway := (\<lambda>n. Inr (demo_settings\<lparr>gwPlugins := [''a.b/p@v1'']\<rparr>))\<rparr>"

definition demo_source :: "unit config_source" where
  "demo_source = \<lparr>csFs = \<lparr>Stat = (\<lambda>p. Inr False), ReadDir = (\<lambda>p. Inl []), ReadFile = (\<lambda>p. Inr [])\<rparr>, csEnv = (\<lambda>n. None),
     csYaml = (\<lambda>t. map Inr demo_resources)\<rparr>"

lemma demo_Load: "Load u (csFs demo_source) (csEnv demo_source) (csYaml demo_source) cp = Inr demo_resources"
  by (simp add: Load_def config_files_def demo_source_def load_file_def ExpandEnv_def expand_loop.simps DecodeAll_def demo_resources_def demo_resource_def)

lemma demo_ReadManifest: "ReadManifest demo_build_env demo_source cp = Inr [\<lparr>pgImportPath = ''a.b/p'', pgVersion = ''v1''\<rparr>]"
  by (simp add: ReadManifest_def demo_Load) (simp add: demo_resources_def demo_resource_def find_gateway_def gateway_FromResource_def demo_build_env_def demo_entry demo_settings_def)

theorem generated_main_imports_manifest_witness: "blank_imports (RenderMain [\<lparr>pgImportPath = ''a.b/p'', pgVersion = ''v1''\<rparr>]) = [''a.b/p'']"
  using generated_main_imports_manifest [OF demo_ReadManifest] by simp

text \<open>Quoted text stays on its line.\<close>

lemma newline_iff: "CHR 0x0A = c \<longleftrightarrow> byte c = 10"
proof -
  have "byte (CHR 0x0A) = 10" by (simp add: byte_def)
  then show ?thesis using byte_inject [of c "CHR 0x0A"] by auto
qed

lemma byte_hex_digit: "d < 16 \<Longrightarrow> 48 \<le> byte (hex_digit d)"
  by (auto simp: hex_digit_def)

lemma hex_of_plain: "CHR 0x0A \<notin> set (hex_of n r)"
proof -
  have "48 \<le> byte c" if "c \<in> set (hex_of n r)" for c
    using that by (auto simp: hex_of_def intro!: byte_hex_digit)
  then show ?thesis using newline_iff [of "CHR 0x0A"] by fastforce
qed

lemma EncodeRune_high:
  assumes "128 \<le> r" "x \<in> set (EncodeRune r)"
  shows "128 \<le> byte x"
proof -
  have m: "128 \<le> (128 + y mod 64) mod (256 :: nat)" for y
    using mod_less_divisor [of 64 y] by (subst mod_less) linarith+
  have h: "y < 256 - k \<Longrightarrow> 128 \<le> k \<Longrightarrow> 128 \<le> (k + y) mod (256 :: nat)" for k y by (subst mod_less) linarith+
  have a: "128 \<le> (192 + r div 64) mod 256" if "r < 2048" using that less_mult_imp_div_less [of r 32 64] by (intro h) simp_all
  have b: "128 \<le> (224 + r div 4096) mod 256" if "r < 65536" using that less_mult_imp_div_less [of r 16 4096] by (intro h) simp_all
  have c: "128 \<le> (240 + r div 262144) mod 256" if "r < 1114112" using that less_mult_imp_div_less [of r 5 262144] by (intro h) simp_all
  have d: "byte (CHR 0xEF) = 239" "byte (CHR 0xBF) = 191" "byte (CHR 0xBD) = 189" by (simp_all add: byte_def)
  show ?thesis
  proof (cases "r < 2048")
    case True
    with assms m a show ?thesis by (auto simp: EncodeRune_def)
  next
    case False
    show ?thesis
    proof (cases "r < 65536 \<and> \<not> (55296 \<le> r \<and> r < 57344)")
      case True
      with False assms have "x \<in> {char_of (224 + r div 4096), char_of (128 + r div 64 mod 64), char_of (128 + r mod 64)}"
        by (simp add: EncodeRune_def)
      with True m b show ?thesis by auto
    next
      case F2: False
      show ?thesis
      proof (cases "65536 \<le> r \<and> r < 1114112")
        case True
        with False F2 assms have "x \<in> {char_of (240 + r div 262144), char_of (128 + r div 4096 mod 64), char_of (128 + r div 64 mod 64), char_of (128 + r mod 64)}"
          by (simp add: EncodeRune_def)
        with True m c show ?thesis by auto
      next
        case F3: False
        from False have "\<not> r < 128" by simp
        with False F2 F3 assms have "x \<in> {CHR 0xEF, CHR 0xBF, CHR 0xBD}" unfolding EncodeRune_def by (simp only: if_False) simp
        with d show ?thesis by auto
      qed
    qed
  qed
qed

lemma EncodeRune_newline: "CHR 0x0A \<in> set (EncodeRune r) \<Longrightarrow> r = 10"
proof (cases "r < 128")
  case True
  then show "CHR 0x0A \<in> set (EncodeRune r) \<Longrightarrow> r = 10" by (simp add: EncodeRune_def newline_iff)
next
  case False
  have "byte (CHR 0x0A) = 10" by (simp add: byte_def)
  with False EncodeRune_high [of r "CHR 0x0A"] show "CHR 0x0A \<in> set (EncodeRune r) \<Longrightarrow> r = 10" by simp
qed

lemma escaped_rune_newline: "CHR 0x0A \<notin> set (escaped_rune table r)"
proof -
  have "IsPrint table 10 = False" by (simp add: IsPrint_def)
  then have "IsPrint table r \<Longrightarrow> CHR 0x0A \<notin> set (EncodeRune r)" using EncodeRune_newline [of r] by auto
  moreover have "r = 34 \<or> r = 92 \<Longrightarrow> CHR 0x0A \<noteq> char_of r" by (auto simp: newline_iff)
  ultimately show ?thesis using hex_of_plain by (simp add: escaped_rune_def)
qed

lemma Quote_newline: "CHR 0x0A \<notin> set (Quote table s)"
proof -
  have "CHR 0x0A \<notin> set (quote_loop table s)"
  proof (induction table s rule: quote_loop.induct)
    case (1 table s)
    have "CHR 0x0A \<notin> set (quote_loop table (drop (snd (DecodeRune s)) s))" if "s \<noteq> []"
      by (rule "1.IH" [OF that]) (auto simp: prod_eq_iff)
    then show ?case
      by (subst quote_loop.simps) (auto simp: Let_def split_beta hex_of_plain escaped_rune_newline)
  qed
  then show ?thesis by (simp add: Quote_def)
qed


lemma no_control_plain: "\<not> hasControl s \<Longrightarrow> CHR 0x0A \<notin> set s"
proof
  assume h: "\<not> hasControl s" and "CHR 0x0A \<in> set s"
  moreover have "byte (CHR 0x0A) = 10" by (simp add: byte_def)
  ultimately have "10 \<in> set (runes s)" using ascii_in_runes [of "CHR 0x0A" s] by simp
  with h show False by (auto simp: hasControl_def list_ex_iff)
qed

lemma replace_line_plain: "\<not> hasControl path \<Longrightarrow> \<not> hasControl target \<Longrightarrow> CHR 0x0A \<notin> set (replace_line table path target)"
  using no_control_plain Quote_newline by (auto simp: replace_line_def modTarget_def)

text \<open>No value adds a directive to the generated go.mod: for source and replacement values without control characters (the
  build refuses others) the file has its two fixed directives, one replace directive for the gateway and one for each
  \<open>--replace\<close>, each on its own line.\<close>

theorem go_mod_lines:
  assumes "\<not> hasControl (boHogSource opts)" "\<forall>rp \<in> set (boReplaces opts). \<not> hasControl (rpPath rp) \<and> \<not> hasControl (rpWith rp)"
  shows "Split (CHR 0x0A) (RenderGoMod table opts) =
    [''module hogbin'', [], ''go 1.27'', [], replace_line table hogModule (boHogSource opts)]
    @ map (\<lambda>rp. replace_line table (rpPath rp) (rpWith rp)) (boReplaces opts) @ [[]]"
proof -
  let ?ls = "[''module hogbin'', [], ''go 1.27'', [], replace_line table hogModule (boHogSource opts)]
    @ map (\<lambda>rp. replace_line table (rpPath rp) (rpWith rp)) (boReplaces opts)"
  have r: "RenderGoMod table opts = concat (map (\<lambda>l. l @ [CHR 0x0A]) ?ls) @ []"
    by (simp add: RenderGoMod_def comp_def)
  have h: "\<not> hasControl hogModule" by code_simp
  have "\<forall>l \<in> set ?ls. CHR 0x0A \<notin> set l"
    using assms replace_line_plain [OF h assms(1)] replace_line_plain by auto
  then show ?thesis unfolding r by (subst Split_lines) simp_all
qed

definition demo_options :: build_options where
  "demo_options = \<lparr>boOutput = ''hog'', boHogSource = ''/src/my hog'', boReplaces = [\<lparr>rpPath = ''a.b/p'', rpWith = ''/p''\<rparr>],
     boTags = [], boGoBin = [], boKeep = False\<rparr>"

theorem go_mod_lines_witness:
  "length (Split (CHR 0x0A) (RenderGoMod (\<lambda>r. True) demo_options)) = 7"
proof -
  have "\<not> hasControl (boHogSource demo_options)"
    "list_all (\<lambda>rp. \<not> hasControl (rpPath rp) \<and> \<not> hasControl (rpWith rp)) (boReplaces demo_options)" by code_simp+
  then show ?thesis using go_mod_lines [of demo_options "\<lambda>r. True"] by (simp add: list_all_iff demo_options_def)
qed

section \<open>A build follows its plan\<close>

text \<open>What running a list of events does: it stops after the first that fails.\<close>

fun executed :: "host \<Rightarrow> event list \<Rightarrow> event list \<Rightarrow> event list" where
  "executed H [] h = []"
| "executed H (e # es) h = e # (if haDo H h e = None then executed H es (h @ [e]) else [])"

fun all_ok :: "host \<Rightarrow> event list \<Rightarrow> event list \<Rightarrow> bool" where
  "all_ok H [] h = True"
| "all_ok H (e # es) h = (haDo H h e = None \<and> all_ok H es (h @ [e]))"

definition planned :: "(nat \<Rightarrow> bool) \<Rightarrow> build_options \<Rightarrow> string \<Rightarrow> plugin list \<Rightarrow> string \<Rightarrow> event list" where
  "planned table opts out plugins dir =
     [WriteFile (PathJoin [dir, ''main.go'']) (RenderMain plugins), WriteFile (PathJoin [dir, ''go.mod'']) (RenderGoMod table opts)]
     @ map (\<lambda>p. RunGo (boGoBin opts) dir [''get'', ''--'', pgImportPath p @ ''@'' @ (if pgVersion p = [] then ''latest'' else pgVersion p)])
         (filter (\<lambda>p. \<not> moduleReplaced (pgImportPath p) (boReplaces opts)) plugins)
     @ [RunGo (boGoBin opts) dir [''mod'', ''tidy''], RunGo (boGoBin opts) dir (build_args opts out)]"

definition implements :: "host \<Rightarrow> 'e action \<Rightarrow> event list \<Rightarrow> bool" where
  "implements H a es \<longleftrightarrow> (\<forall>h. snd (a h) = h @ executed H es h \<and> (fst (a h) = None \<longleftrightarrow> all_ok H es h))"

lemma executed_all_ok: "all_ok H es h \<Longrightarrow> executed H es h = es"
  by (induction es arbitrary: h) auto

lemma executed_append:
  "executed H (es @ fs) h = (if all_ok H es h then es @ executed H fs (h @ es) else executed H es h)"
  "all_ok H (es @ fs) h \<longleftrightarrow> all_ok H es h \<and> all_ok H fs (h @ es)"
  by (induction es arbitrary: h) auto

lemma implements_perform: "implements H (perform H wrap e) [e]"
  by (simp add: implements_def perform_def)

lemma implements_andThen:
  assumes a: "implements H a es" and b: "implements H b fs"
  shows "implements H (andThen a b) (es @ fs)"
  unfolding implements_def
proof (intro allI)
  fix h
  obtain r h1 where e: "a h = (r, h1)" by (cases "a h")
  with a have h1: "h1 = h @ executed H es h" and r: "r = None \<longleftrightarrow> all_ok H es h" unfolding implements_def by (metis fst_conv snd_conv)+
  show "snd (andThen a b h) = h @ executed H (es @ fs) h \<and> (fst (andThen a b h) = None \<longleftrightarrow> all_ok H (es @ fs) h)"
  proof (cases "all_ok H es h")
    case True
    then have "h1 = h @ es" "r = None" using h1 r executed_all_ok by auto
    then show ?thesis using True b by (simp add: andThen_def e executed_append implements_def)
  next
    case False
    then have "r \<noteq> None" using r by simp
    then show ?thesis using False h1 by (auto simp: andThen_def e executed_append)
  qed
qed

lemma implements_get_plugins:
  "implements H (get_plugins H opts dir ps)
     (map (\<lambda>p. RunGo (boGoBin opts) dir [''get'', ''--'', pgImportPath p @ ''@'' @ (if pgVersion p = [] then ''latest'' else pgVersion p)])
         (filter (\<lambda>p. \<not> moduleReplaced (pgImportPath p) (boReplaces opts)) ps))"
proof (induction ps)
  case Nil
  then show ?case by (simp add: implements_def)
next
  case (Cons p ps)
  let ?v = "if pgVersion p = [] then ''latest'' else pgVersion p"
  show ?case
  proof (cases "moduleReplaced (pgImportPath p) (boReplaces opts)")
    case True
    with Cons show ?thesis by (simp add: implements_def)
  next
    case False
    have "get_plugins H opts dir (p # ps) = andThen (run_go H opts dir [''get'', ''--'', pgImportPath p @ ''@'' @ ?v]) (get_plugins H opts dir ps)"
      using False by (simp add: fun_eq_iff)
    with implements_andThen [OF implements_perform Cons.IH] False show ?thesis by (simp add: run_go_def)
  qed
qed

lemma implements_in_dir: "implements H (in_dir H table opts out ps dir) (planned table opts out ps dir)"
proof -
  let ?get = "map (\<lambda>p. RunGo (boGoBin opts) dir [''get'', ''--'', pgImportPath p @ ''@'' @ (if pgVersion p = [] then ''latest'' else pgVersion p)])
         (filter (\<lambda>p. \<not> moduleReplaced (pgImportPath p) (boReplaces opts)) ps)"
  have "planned table opts out ps dir =
      [WriteFile (PathJoin [dir, ''main.go'']) (RenderMain ps)] @ [WriteFile (PathJoin [dir, ''go.mod'']) (RenderGoMod table opts)]
      @ ?get @ [RunGo (boGoBin opts) dir [''mod'', ''tidy'']] @ [RunGo (boGoBin opts) dir (build_args opts out)]"
    by (simp only: planned_def append_Cons append_Nil)
  then show ?thesis
    by (simp only: in_dir_def run_go_def) (intro implements_andThen implements_perform implements_get_plugins)
qed

text \<open>C35. A build does what its plan says and leaves nothing behind. A rejected request touches nothing; otherwise the two generated
  files are written, every plugin whose module is not replaced is fetched in manifest order at its version or the latest,
  the module is tidied and the binary is built, stopping at the first step that fails; the build succeeds exactly when
  every step does, and the temporary directory is removed on every path unless it is to be kept.\<close>

theorem hb_Build_runs_plan:
  "hb_Build X src H table cp opts0 h =
     (case build_plan X src H cp opts0 of
        Inl e \<Rightarrow> (Some e, h)
      | Inr (ps, out, opts) \<Rightarrow>
          (case haTemp H h of
             Inl e \<Rightarrow> (Some (TempDir e), h @ [MkdirTemp])
           | Inr dir \<Rightarrow> (fst (in_dir H table opts out ps dir (h @ [MkdirTemp])),
               h @ [MkdirTemp] @ executed H (planned table opts out ps dir) (h @ [MkdirTemp]) @ (if boKeep opts then [] else [RemoveAll dir]))))
   \<and> (\<forall>ps out opts dir. fst (in_dir H table opts out ps dir (h @ [MkdirTemp])) = None \<longleftrightarrow> all_ok H (planned table opts out ps dir) (h @ [MkdirTemp]))"
  using implements_in_dir unfolding implements_def hb_Build_def
  by (auto split: sum.split prod.split) (metis snd_conv append_assoc append_Cons append_Nil)+

end
