(* ===== verification/Backend.thy ===== *)
theory Backend
  imports Assertion Forwarded
begin

text \<open>
  What reaches a backend (\<^verbatim>\<open>src/terminal/forward.go\<close>, \<^verbatim>\<open>proxy.go\<close>): the headers of the
  outbound request, and the reverse proxy. \<open>httputil.ReverseProxy\<close> is modelled as far as the handler
  uses it: the outbound request is a copy of the inbound one without hop-by-hop headers and without forwarding
  headers, then rewritten; the answer or the error of the transport is written to the client. Protocol
  upgrades and trailers are left out. The transport (with its TLS settings and timeouts) and
  \<open>url.Parse\<close> are arguments.
\<close>

section \<open>Headers of a backend request\<close>

record forward_options =
  foAccessToken :: bool
  foCookies :: bool
  foIdentity :: bool

definition copy_user_headers :: "header \<Rightarrow> header \<Rightarrow> header" where
  "copy_user_headers inn out =
     foldl (\<lambda>h (k, vs). if HasPrefix k ''X-User-'' then gm_set k vs h else h) out inn"

definition setXForwarded :: "request \<Rightarrow> header \<Rightarrow> header" where
  "setXForwarded inn out =
     (let ip = clientIP inn;
          h1 = (if ip \<noteq> [] then
                  (let prior = reqGet inn ''X-Forwarded-For'' in
                   if prior \<noteq> [] then hSet ''X-Forwarded-For'' (prior @ '', '' @ ip) out
                   else hSet ''X-Forwarded-For'' ip out)
                else out);
          h2 = (if rHost inn \<noteq> [] then hSet ''X-Forwarded-Host'' (rHost inn) h1 else h1);
          proto = reqGet inn ''X-Forwarded-Proto''
      in if proto \<noteq> [] then hSet ''X-Forwarded-Proto'' proto h2 else h2)"

definition backend_bearer :: "forward_options \<Rightarrow> request \<Rightarrow> string option" where
  "backend_bearer opts inn =
     (if foAccessToken opts then
        (case FromContext inn of
           Some p \<Rightarrow> if AccessToken p \<noteq> [] then Some (''Bearer '' @ AccessToken p) else None
         | None \<Rightarrow> None)
      else None)"

definition assertion_name :: "request \<Rightarrow> string" where
  "assertion_name inn =
     (let h = AssertionHeaderFromContext inn in if h \<noteq> [] then h else DefaultAssertionHeader)"

definition prepareBackendRequest :: "forward_options \<Rightarrow> request \<Rightarrow> header \<Rightarrow> header" where
  "prepareBackendRequest opts inn out =
     (let h1 = (if foCookies opts then out else hDel ''Cookie'' out);
          h2 = copy_user_headers (rHeader inn) h1;
          h3 = hDel ''Authorization'' h2;
          h4 = (case backend_bearer opts inn of Some t \<Rightarrow> hSet ''Authorization'' t h3 | None \<Rightarrow> h3);
          name = assertion_name inn;
          h5 = hDel DefaultAssertionHeader h4;
          h6 = (if name \<noteq> DefaultAssertionHeader then hDel name h5 else h5);
          h7 = (if foIdentity opts then
                  (let v = reqGet inn name in if v \<noteq> [] then hSet name v h6 else h6)
                else h6)
      in setXForwarded inn h7)"

section \<open>The reverse proxy\<close>

text \<open>A parsed absolute URL, and a request as the transport gets it.\<close>

record target_url =
  tuScheme :: string
  tuHost :: string
  tuPath :: string
  tuRawQuery :: string

record out_request =
  oMethod :: string
  oURL :: target_url
  oHost :: string
  oHeader :: header

record backend_response =
  brStatus :: nat
  brHeader :: header
  brBody :: string

datatype rt_error = DeadlineExceeded | TransportError string

type_synonym 'st transport = "out_request \<Rightarrow> 'st \<Rightarrow> (rt_error, backend_response) result \<times> 'st"

record proxy_config =
  pcUpstream :: string
  pcStripPrefix :: string
  pcPreserveHost :: bool
  pcForwardAccessToken :: bool
  pcForwardCookies :: bool
  pcForwardIdentity :: bool
  pcTimeout :: string
  pcInsecureSkipVerify :: bool

record proxy_handler =
  phTarget :: target_url
  phConfig :: proxy_config
  phTimeout :: int

datatype handler_error =
    HandlerDecode string
  | UpstreamRequired
  | InvalidUpstream string
  | BadTimeout string

definition valid_upstream :: "(string \<Rightarrow> target_url option) \<Rightarrow> string \<Rightarrow> target_url option" where
  "valid_upstream parse s =
     (case parse s of None \<Rightarrow> None
      | Some u \<Rightarrow> if tuScheme u = [] \<or> tuHost u = [] then None else Some u)"

definition registerProxy :: "('n \<Rightarrow> (string, proxy_config) result) \<Rightarrow> (string \<Rightarrow> target_url option)
    \<Rightarrow> (string \<Rightarrow> (string, int) result) \<Rightarrow> 'n \<Rightarrow> (handler_error, proxy_handler) result" where
  "registerProxy dec parse parseDuration cfg =
     bindR (mapErr HandlerDecode (dec cfg)) (\<lambda>pc.
     guardR (pcUpstream pc = []) UpstreamRequired (
     bindR (case valid_upstream parse (pcUpstream pc) of
              None \<Rightarrow> Inl (InvalidUpstream (pcUpstream pc)) | Some u \<Rightarrow> Inr u) (\<lambda>target.
     bindR (if pcTimeout pc \<noteq> [] then mapErr BadTimeout (parseDuration (pcTimeout pc)) else Inr 0) (\<lambda>timeout.
     Inr \<lparr>phTarget = target, phConfig = pc, phTimeout = timeout\<rparr>))))"

definition hopHeaders :: "string list" where
  "hopHeaders = [''Connection'', ''Proxy-Connection'', ''Keep-Alive'', ''Proxy-Authenticate'', ''Proxy-Authorization'',
     ''Te'', ''Trailer'', ''Transfer-Encoding'', ''Upgrade'']"

definition connection_tokens :: "header \<Rightarrow> string list" where
  "connection_tokens h =
     filter (\<lambda>t. t \<noteq> []) (map TrimSpace (concat (map (Split (CHR '','')) (case gm_get h ''Connection'' of None \<Rightarrow> [] | Some vs \<Rightarrow> vs))))"

definition removeHopByHopHeaders :: "header \<Rightarrow> header" where
  "removeHopByHopHeaders h = hDelAll hopHeaders (hDelAll (connection_tokens h) h)"

definition singleJoiningSlash :: "string \<Rightarrow> string \<Rightarrow> string" where
  "singleJoiningSlash a b =
     (let aslash = (a \<noteq> [] \<and> last a = CHR ''/''); bslash = HasPrefix b ''/'' in
      if aslash \<and> bslash then a @ drop 1 b
      else if \<not> aslash \<and> \<not> bslash then a @ ''/'' @ b
      else a @ b)"

definition SetURL :: "target_url \<Rightarrow> string \<Rightarrow> string \<Rightarrow> target_url" where
  "SetURL target path rawQuery =
     \<lparr>tuScheme = tuScheme target, tuHost = tuHost target, tuPath = singleJoiningSlash (tuPath target) path,
      tuRawQuery = (if tuRawQuery target = [] \<or> rawQuery = [] then tuRawQuery target @ rawQuery
                    else tuRawQuery target @ ''&'' @ rawQuery)\<rparr>"

text \<open>Query parameters that do not parse are dropped before the rewrite.\<close>

fun clean_query_ok :: "string \<Rightarrow> bool" where
  "clean_query_ok [] = True"
| "clean_query_ok (c # s) =
     (if c = CHR '';'' then False
      else if c = CHR ''%'' then
        (case s of x # y # t \<Rightarrow> unhex x \<noteq> None \<and> unhex y \<noteq> None \<and> clean_query_ok t | _ \<Rightarrow> False)
      else clean_query_ok s)"

definition cleanQueryParams :: "string \<Rightarrow> string" where
  "cleanQueryParams q = (if clean_query_ok q then q else Encode (ParseQuery q))"

definition proxy_opts :: "proxy_config \<Rightarrow> forward_options" where
  "proxy_opts pc = \<lparr>foAccessToken = pcForwardAccessToken pc, foCookies = pcForwardCookies pc, foIdentity = pcForwardIdentity pc\<rparr>"

definition proxy_headers :: "proxy_handler \<Rightarrow> request \<Rightarrow> header" where
  "proxy_headers h r =
     prepareBackendRequest (proxy_opts (phConfig h)) r
       (hDelAll [''Forwarded'', ''X-Forwarded-For'', ''X-Forwarded-Host'', ''X-Forwarded-Proto'']
         (removeHopByHopHeaders (rHeader r)))"

text \<open>An absent User-Agent stays absent: an empty value keeps the transport from adding its own.\<close>

definition keepUserAgent :: "header \<Rightarrow> header" where
  "keepUserAgent h = (if gm_get h ''User-Agent'' = None then hSet ''User-Agent'' [] h else h)"

definition proxy_Rewrite :: "proxy_handler \<Rightarrow> request \<Rightarrow> out_request" where
  "proxy_Rewrite h r =
     (let pc = phConfig h;
          path = (if pcStripPrefix pc \<noteq> [] then TrimPrefix (rPath r) (pcStripPrefix pc) else rPath r)
      in \<lparr>oMethod = rMethod r, oURL = SetURL (phTarget h) path (cleanQueryParams (rRawQuery r)),
          oHost = (if pcPreserveHost pc then rHost r else tuHost (phTarget h)),
          oHeader = keepUserAgent (proxy_headers h r)\<rparr>)"

definition proxy_ErrorHandler :: "rt_error \<Rightarrow> 'st world \<Rightarrow> 'st world" where
  "proxy_ErrorHandler e w = httpError ''upstream error'' (case e of DeadlineExceeded \<Rightarrow> 504 | TransportError m \<Rightarrow> 502) w"

text \<open>\<open>copyHeader\<close> appends the backend's values to those already set.\<close>

definition wAdd :: "string \<Rightarrow> string \<Rightarrow> 'st world \<Rightarrow> 'st world" where
  "wAdd k v w = (let c = CanonicalHeaderKey k; h = wHeader (resp w) in
     w\<lparr>resp := (resp w)\<lparr>wHeader := gm_set c ((case gm_get h c of None \<Rightarrow> [] | Some vs \<Rightarrow> vs) @ [v]) h\<rparr>\<rparr>)"

definition copyHeader :: "header \<Rightarrow> 'st world \<Rightarrow> 'st world" where
  "copyHeader h w = foldl (\<lambda>w (k, vs). foldl (\<lambda>w v. wAdd k v w) w vs) w h"

text \<open>\<open>transports\<close> gives the transport for a TLS setting and a per-request timeout (0 for none).\<close>

definition proxy_ServeHTTP :: "(bool \<Rightarrow> int \<Rightarrow> 'st transport) \<Rightarrow> proxy_handler \<Rightarrow> 'st handler" where
  "proxy_ServeHTTP transports h r w =
     (case liftExt (transports (pcInsecureSkipVerify (phConfig h)) (if phTimeout h > 0 then phTimeout h else 0)
             (proxy_Rewrite h r)) w of
        (Inl e, w1) \<Rightarrow> Done (proxy_ErrorHandler e w1)
      | (Inr br, w1) \<Rightarrow>
          Done (Write (brBody br) (WriteHeader (brStatus br) (copyHeader (removeHopByHopHeaders (brHeader br)) w1))))"

section \<open>Health\<close>

definition health_handler :: "'st handler" where
  "health_handler r w =
     Done (Write (CHR ''{'' # CHR 0x22 # ''status'' @ [CHR 0x22, CHR '':'', CHR 0x22] @ ''ok'' @ [CHR 0x22, CHR ''}''])
       (WriteHeader 200 (wSet ''Content-Type'' ''application/json'' w)))"

section \<open>What a backend sees\<close>

lemma canonical_names:
  "CanonicalHeaderKey ''Authorization'' = ''Authorization''" "CanonicalHeaderKey ''Cookie'' = ''Cookie''"
  "CanonicalHeaderKey ''X-Forwarded-For'' = ''X-Forwarded-For''" "CanonicalHeaderKey ''X-Forwarded-Host'' = ''X-Forwarded-Host''"
  "CanonicalHeaderKey ''X-Forwarded-Proto'' = ''X-Forwarded-Proto''" "CanonicalHeaderKey DefaultAssertionHeader = ''X-Hog-Identity''"
  by code_simp+

text \<open>Header names the gateway writes itself; an assertion header must be another one.\<close>

definition own_headers :: "string list" where
  "own_headers = [''Authorization'', ''Cookie'', ''X-Forwarded-For'', ''X-Forwarded-Host'', ''X-Forwarded-Proto'']"

definition assertion_apart :: "request \<Rightarrow> bool" where
  "assertion_apart r \<longleftrightarrow> (let k = CanonicalHeaderKey (assertion_name r) in k \<notin> set own_headers \<and> \<not> HasPrefix k ''X-User-'')"

lemma gm_get_setXForwarded:
  "k \<notin> set own_headers \<Longrightarrow> gm_get (setXForwarded r h) k = gm_get h k"
  "k \<in> {''Authorization'', ''Cookie''} \<Longrightarrow> gm_get (setXForwarded r h) k = gm_get h k"
  by (auto simp: setXForwarded_def Let_def gm_get_hSet canonical_names own_headers_def)

lemma copy_user_headers_other: "\<not> HasPrefix k ''X-User-'' \<Longrightarrow> gm_get (copy_user_headers i h) k = gm_get h k"
  unfolding copy_user_headers_def by (induction i arbitrary: h) (auto simp: gm_get_set)

lemma copy_user_headers_user:
  assumes "gm_ok i" "HasPrefix k ''X-User-''"
  shows "gm_get (copy_user_headers i h) k = (case gm_get i k of None \<Rightarrow> gm_get h k | Some vs \<Rightarrow> Some vs)"
  using assms(1)
proof (induction i arbitrary: h)
  case (Cons e i)
  obtain a b where e: "e = (a, b)" by (cases e)
  from Cons.prems e have "gm_ok i" and fresh: "gm_get i a = None" by (auto simp: gm_ok_def map_of_eq_None_iff)
  then have "gm_get (copy_user_headers i h') k = (case gm_get i k of None \<Rightarrow> gm_get h' k | Some vs \<Rightarrow> Some vs)" for h'
    by (rule_tac Cons.IH)
  moreover have "copy_user_headers (e # i) h = copy_user_headers i (if HasPrefix a ''X-User-'' then gm_set a b h else h)"
    by (simp add: copy_user_headers_def e)
  ultimately show ?case using assms(2) fresh by (auto simp: e gm_get_set split: option.splits)
qed (simp add: copy_user_headers_def)

lemma own_not_user: "k \<in> set own_headers \<Longrightarrow> \<not> HasPrefix k ''X-User-''" "\<not> HasPrefix ''X-Hog-Identity'' ''X-User-''"
  by (auto simp: own_headers_def)

lemma backend_assertion:
  assumes "assertion_apart inn"
  shows "gm_get (prepareBackendRequest opts inn out) (CanonicalHeaderKey (assertion_name inn)) =
      (if foIdentity opts \<and> reqGet inn (assertion_name inn) \<noteq> [] then Some [reqGet inn (assertion_name inn)] else None)"
proof -
  have "CanonicalHeaderKey (assertion_name inn) \<notin> set own_headers" using assms by (simp add: assertion_apart_def Let_def)
  then show ?thesis
    by (cases "assertion_name inn = DefaultAssertionHeader")
       (auto simp: prepareBackendRequest_def Let_def gm_get_hSet gm_get_hDel canonical_names gm_get_setXForwarded(1) own_headers_def)
qed

lemma backend_default_assertion:
  assumes "CanonicalHeaderKey (assertion_name inn) \<noteq> ''X-Hog-Identity'' \<or> \<not> foIdentity opts"
  shows "gm_get (prepareBackendRequest opts inn out) ''X-Hog-Identity'' = None"
proof -
  have "''X-Hog-Identity'' \<notin> set own_headers" by (simp add: own_headers_def)
  then show ?thesis using assms
    by (auto simp: prepareBackendRequest_def Let_def gm_get_hSet gm_get_hDel canonical_names gm_get_setXForwarded(1))
qed

text \<open>The assertion the issuing gate mints for the principal of a request, as the values of a header.\<close>

definition minted_for :: "jws_env \<Rightarrow> issuer \<Rightarrow> request \<Rightarrow> int \<Rightarrow> string list option" where
  "minted_for J i r t =
     (case FromContext r of None \<Rightarrow> None
      | Some p \<Rightarrow> (case Mint J i p t of Inl e \<Rightarrow> None | Inr token \<Rightarrow> Some [token]))"

lemma issued_assertion:
  assumes "issue_step J i h0 r w = Pass inn w1"
  shows "assertion_name inn = (if h0 = [] then DefaultAssertionHeader else h0)
    \<and> (if reqGet inn (assertion_name inn) \<noteq> [] then Some [reqGet inn (assertion_name inn)] else None) = minted_for J i r (now w)"
proof -
  have ne: "Mint J i p t = Inr token \<Longrightarrow> token \<noteq> []" for p t token by (auto simp: Mint_def Let_def split: option.splits)
  let ?h = "if h0 = [] then DefaultAssertionHeader else h0"
  have "AssertionHeaderFromContext inn = ?h \<and> gm_get (rHeader inn) (CanonicalHeaderKey ?h) = minted_for J i r (now w)"
    using assms by (auto simp: issue_step_def Let_def AssertionHeaderFromContext_def FromContext_def minted_for_def mapHeader_def
        gm_get_hDel gm_get_hSet split: option.splits sum.splits)
  moreover have "?h \<noteq> []" by (simp add: DefaultAssertionHeader_def)
  ultimately show ?thesis using ne
    by (auto simp: assertion_name_def Let_def reqGet_def hGet_def minted_for_def split: option.splits sum.splits)
qed


definition demo_in :: request where
  "demo_in = WithPrincipal demo_principal (demo_req [(''Authorization'', [''Bearer stolen'']), (''X-User-Id'', [''ann'']), (''X-Hog-Identity'', [''forged''])])"

definition demo_issued_in :: request where
  "demo_issued_in = (case issue_step demo_jws demo_issuer ''X-Id'' demo_in (demo_world ()) of Pass r w \<Rightarrow> r)"


text \<open>The projected identity survives the hop: behind the reverse proxy, every \<open>X-User-\<close> header is what it
  was on the inbound request, even when the client lists it in its Connection header to have it stripped.\<close>

theorem proxy_keeps_identity:
  assumes "header_ok (rHeader r)" "assertion_apart r" "HasPrefix k ''X-User-''"
  shows "gm_get (oHeader (proxy_Rewrite h r)) k = gm_get (rHeader r) k"
proof -
  let ?k = "CanonicalHeaderKey (assertion_name r)"
  have k: "\<not> HasPrefix ?k ''X-User-''" using assms(2) by (simp add: assertion_apart_def Let_def)
  have "\<not> HasPrefix n ''X-User-''" if "n \<in> set (''X-Hog-Identity'' # ''User-Agent'' # own_headers)" for n
    using that by (auto simp: own_headers_def)
  then have out: "n \<in> set (''X-Hog-Identity'' # ''User-Agent'' # own_headers) \<Longrightarrow> k \<noteq> n" for n
    using assms(3) by blast
  have nk: "k \<noteq> ?k" using k assms(3) by metis
  have no: "k \<notin> set own_headers" using out by (metis list.set_intros(2))
  have "k \<noteq> ''Authorization''" "k \<noteq> ''Cookie''" "k \<noteq> ''X-Hog-Identity''" "k \<noteq> ''User-Agent''"
    by (rule out, simp add: own_headers_def)+
  note ne = nk no this
  have ua: "CanonicalHeaderKey ''User-Agent'' = ''User-Agent''" by code_simp
  have "gm_get (prepareBackendRequest opts r out) k = gm_get (copy_user_headers (rHeader r) (if foCookies opts then out else hDel ''Cookie'' out)) k"
    for opts out
    using ne by (simp add: prepareBackendRequest_def Let_def gm_get_hSet gm_get_hDel canonical_names gm_get_setXForwarded(1) split: option.splits)
  moreover have "gm_get (hDelAll ks hd) k = None \<or> gm_get (hDelAll ks hd) k = gm_get hd k" for ks hd
    by (simp add: gm_get_hDelAll)
  ultimately show ?thesis using assms(1,3) ne
    by (auto simp: proxy_Rewrite_def keepUserAgent_def proxy_headers_def Let_def gm_get_hSet gm_get_hDel canonical_names ua
        header_ok_def copy_user_headers_user removeHopByHopHeaders_def gm_get_hDelAll split: option.splits)
qed

definition demo_proxy :: proxy_handler where
  "demo_proxy = \<lparr>phTarget = \<lparr>tuScheme = ''http'', tuHost = ''b'', tuPath = ''/api/'', tuRawQuery = []\<rparr>,
     phConfig = \<lparr>pcUpstream = ''http://b/api/'', pcStripPrefix = [], pcPreserveHost = False, pcForwardAccessToken = False,
       pcForwardCookies = False, pcForwardIdentity = False, pcTimeout = [], pcInsecureSkipVerify = False\<rparr>, phTimeout = 0\<rparr>"

definition demo_hop :: request where
  "demo_hop = demo_req [(''Connection'', [''X-User-Id'']), (''X-User-Id'', [''ann''])]"

theorem proxy_keeps_identity_witness: "gm_get (oHeader (proxy_Rewrite demo_proxy demo_hop)) ''X-User-Id'' = Some [''ann'']"
proof -
  have "header_ok (rHeader demo_hop)" "assertion_apart demo_hop" "gm_get (rHeader demo_hop) ''X-User-Id'' = Some [''ann'']"
    by code_simp+
  with proxy_keeps_identity [of demo_hop "''X-User-Id''"] show ?thesis by simp
qed

text \<open>A failed upstream is a gateway error, a timeout when the deadline passed, with nothing of the upstream in it;
  an answer keeps its status and body.\<close>

theorem proxy_status:
  assumes "wStatus (resp w) = None" "wBody (resp w) = []"
  shows "\<exists>w'. proxy_ServeHTTP transports h r w = Done w' \<and>
    (case fst (transports (pcInsecureSkipVerify (phConfig h)) (max 0 (phTimeout h)) (proxy_Rewrite h r) (ext w)) of
       Inl DeadlineExceeded \<Rightarrow> wStatus (resp w') = Some 504 \<and> wBody (resp w') = ''upstream error'' @ [CHR 0x0A]
     | Inl (TransportError m) \<Rightarrow> wStatus (resp w') = Some 502 \<and> wBody (resp w') = ''upstream error'' @ [CHR 0x0A]
     | Inr br \<Rightarrow> wStatus (resp w') = Some (brStatus br) \<and> wBody (resp w') = brBody br)"
proof -
  have add: "wStatus (resp (wAdd k v w)) = wStatus (resp w) \<and> wBody (resp (wAdd k v w)) = wBody (resp w)" for k v and w :: "'a world"
    by (simp add: wAdd_def Let_def)
  have adds: "wStatus (resp (foldl (\<lambda>w v. wAdd k v w) w vs)) = wStatus (resp w) \<and> wBody (resp (foldl (\<lambda>w v. wAdd k v w) w vs)) = wBody (resp w)"
    for k vs and w :: "'a world" by (induction vs arbitrary: w) (simp_all add: add)
  have copy: "wStatus (resp (copyHeader hs w)) = wStatus (resp w) \<and> wBody (resp (copyHeader hs w)) = wBody (resp w)" for hs and w :: "'a world"
    unfolding copyHeader_def by (induction hs arbitrary: w) (auto simp: adds split_beta)
  have err: "wStatus (resp (httpError m c v)) = Some c \<and> wBody (resp (httpError m c v)) = m @ [CHR 0x0A]"
    if "resp v = resp w" for m c and v :: "'a world"
    using that assms by (simp add: httpError_status) (simp add: httpError_def Write_def WriteHeader_def wSet_def wDel_def sendStatus_def Let_def)
  have t: "(if phTimeout h > 0 then phTimeout h else 0) = max 0 (phTimeout h)" by auto
  show ?thesis
    unfolding proxy_ServeHTTP_def t liftExt_pair using assms
    by (auto simp: proxy_ErrorHandler_def err copy WriteHeader_def Write_def sendStatus_def Let_def split: sum.splits rt_error.splits)
qed

theorem proxy_status_witness:
  "\<exists>w'. proxy_ServeHTTP (\<lambda>i t q s. (Inl DeadlineExceeded, s)) demo_proxy demo_hop (demo_world ()) = Done w' \<and> wStatus (resp w') = Some 504"
  using proxy_status [of "demo_world ()" "\<lambda>i t q s. (Inl DeadlineExceeded, s)" demo_proxy demo_hop]
  by (auto simp: demo_world_def empty_response_def)

end
