(* ===== verification/Runtime.thy ===== *)
theory Runtime
  imports App Backend
begin

text \<open>
  The process around the handler: telemetry pipelines (\<^verbatim>\<open>src/telemetry/telemetry.go\<close>), the instrumented
  transport (\<^verbatim>\<open>src/telemetry/transport.go\<close>) and the run loop (\<^verbatim>\<open>src/app/run.go\<close>,
  \<^verbatim>\<open>src/hog.go\<close>). What start-up and shutdown do to the process is a list of events; whether an event fails may
  depend on all earlier ones. The OpenTelemetry SDK is behind these events: an exporter constructor may fail, a provider
  constructor does not, and shutting a provider down releases what it owns, its exporter included, even if it reports an
  error.
\<close>

section \<open>Telemetry pipelines\<close>

datatype exporter_protocol = OtlpGRPC | OtlpHTTP

datatype exporter_option = WithEndpointURL string | WithHeaders "(string, string) gomap" | WithInsecure | WithTimeout int

datatype sampler = NeverSample | TraceIDRatioBased float64

datatype provider = Tracer | Meter

datatype event =
    SetErrorHandler
  | SetPropagator
  | MergeResource string string
  | NewTraceExporter exporter_protocol "exporter_option list"
  | NewMetricExporter exporter_protocol "exporter_option list"
  | NewTracerProvider sampler bool
  | NewMeterProvider bool
  | ShutdownProvider provider
  | SetProvider provider
  | Listen string
  | ShutdownServer

type_synonym outcomes = "event list \<Rightarrow> event \<Rightarrow> string option"

datatype telemetry_failure =
    BadProtocol string | ResourceErr string | TimeoutErr string | TraceExporterErr string | MetricExporterErr string

definition exporter :: "otlp_config \<Rightarrow> int \<Rightarrow> exporter_protocol \<times> exporter_option list" where
  "exporter otlp timeout =
     (if otProtocol otlp = protoGRPC then OtlpGRPC else OtlpHTTP,
      [WithEndpointURL (otEndpoint otlp), WithHeaders (otHeaders otlp)] @ (if otInsecure otlp then [WithInsecure] else [])
      @ (if timeout > 0 then [WithTimeout timeout] else []))"

definition traceExporter :: "otlp_config \<Rightarrow> int \<Rightarrow> event" where
  "traceExporter otlp timeout = (case exporter otlp timeout of (p, opts) \<Rightarrow> NewTraceExporter p opts)"

definition metricExporter :: "otlp_config \<Rightarrow> int \<Rightarrow> event" where
  "metricExporter otlp timeout = (case exporter otlp timeout of (p, opts) \<Rightarrow> NewMetricExporter p opts)"

text \<open>Running every shutdown; the first error is kept.\<close>

fun shutdown_all :: "outcomes \<Rightarrow> provider list \<Rightarrow> string option \<Rightarrow> event list \<Rightarrow> string option \<times> event list" where
  "shutdown_all oc [] first h = (first, h)"
| "shutdown_all oc (p # ps) first h =
     shutdown_all oc ps (case first of None \<Rightarrow> oc h (ShutdownProvider p) | Some e \<Rightarrow> first) (h @ [ShutdownProvider p])"

text \<open>The pipelines after the checks: a failed metric exporter rolls the tracer provider back.\<close>

definition pipelines :: "outcomes \<Rightarrow> telemetry_config \<Rightarrow> int \<Rightarrow> event list \<Rightarrow> (telemetry_failure, provider list) result \<times> event list" where
  "pipelines oc cfg timeout h =
     (let otlp = tcOTLP cfg; exporting = otEndpoint otlp \<noteq> [];
          root = (if exporting then TraceIDRatioBased (tcSamplingRatio cfg) else NeverSample);
          te = traceExporter otlp timeout;
          h1 = (if exporting then h @ [te] else h)
      in case (if exporting then oc h te else None) of
           Some e \<Rightarrow> (Inl (TraceExporterErr e), h1)
         | None \<Rightarrow>
             let h2 = h1 @ [NewTracerProvider root exporting];
                 me = metricExporter otlp timeout;
                 h3 = (if exporting then h2 @ [me] else h2)
             in (case (if exporting then oc h2 me else None) of
                   Some e \<Rightarrow> (Inl (MetricExporterErr e), snd (shutdown_all oc [Tracer] None h3))
                 | None \<Rightarrow> (Inr [Tracer, Meter], h3 @ [NewMeterProvider exporting])))"

definition telemetry_build :: "outcomes \<Rightarrow> (string \<Rightarrow> (string, int) result) \<Rightarrow> telemetry_config \<Rightarrow> event list
    \<Rightarrow> (telemetry_failure, provider list) result \<times> event list" where
  "telemetry_build oc parseDuration cfg h =
     (let otlp = tcOTLP cfg; mr = MergeResource (tcServiceName cfg) (tcServiceVersion cfg) in
      if otEndpoint otlp \<noteq> [] \<and> otProtocol otlp \<noteq> protoHTTP \<and> otProtocol otlp \<noteq> protoGRPC then (Inl (BadProtocol (otProtocol otlp)), h)
      else case oc h mr of
        Some e \<Rightarrow> (Inl (ResourceErr e), h @ [mr])
      | None \<Rightarrow>
          (case (if otTimeout otlp \<noteq> [] then parseDuration (otTimeout otlp) else Inr 0) of
             Inl e \<Rightarrow> (Inl (TimeoutErr e), h @ [mr])
           | Inr timeout \<Rightarrow> pipelines oc cfg timeout (h @ [mr])))"

definition Setup :: "outcomes \<Rightarrow> (string \<Rightarrow> (string, int) result) \<Rightarrow> telemetry_config \<Rightarrow> event list
    \<Rightarrow> (telemetry_failure, provider list) result \<times> event list" where
  "Setup oc parseDuration cfg h =
     (case telemetry_build oc parseDuration cfg (h @ [SetErrorHandler, SetPropagator]) of
        (Inl e, h1) \<Rightarrow> (Inl e, h1)
      | (Inr shutdowns, h1) \<Rightarrow> (Inr shutdowns, h1 @ [SetProvider Tracer, SetProvider Meter]))"

section \<open>The run loop\<close>

datatype listen_error = ErrServerClosed | ListenError string

datatype run_error =
    RunLoad config_error | RunParse app_error | RunTelemetry telemetry_failure | RunBuild app_error | RunServe string

text \<open>What ends a run: the context is cancelled, or the server returns.\<close>

datatype run_end = Cancelled | Returned listen_error

definition serve :: "listen_error \<Rightarrow> string option" where
  "serve e = (case e of ErrServerClosed \<Rightarrow> None | ListenError m \<Rightarrow> Some m)"

record ('n, 'st) process =
  prFs :: osfs
  prEnv :: "string \<Rightarrow> string option"
  prYaml :: "string \<Rightarrow> (string, 'n resource) result list"
  prAccessLog :: "access_log_config \<Rightarrow> 'st middleware"
  prOtel :: "'st middleware"
  prOther :: "'st handler"
  prModules :: "('n, 'st) modules"
  prEnd :: "'st handler \<Rightarrow> event list \<Rightarrow> run_end"
  prOutcomes :: outcomes

definition app_Run :: "('n, 'm, 'c) app_env \<Rightarrow> ('n, 'st) process \<Rightarrow> string \<Rightarrow> event list \<Rightarrow> run_error option \<times> event list" where
  "app_Run X P path h =
     (case Load (xLower X) (prFs P) (prEnv P) (prYaml P) path of
        Inl e \<Rightarrow> (Some (RunLoad e), h)
      | Inr resources \<Rightarrow>
     case Parse X resources of
        Inl e \<Rightarrow> (Some (RunParse e), h)
      | Inr cfg \<Rightarrow>
     let tel = the (cfTelemetry cfg); g = the (cfGateway cfg) in
     case Setup (prOutcomes P) (xParseDuration X) tel h of
        (Inl e, h1) \<Rightarrow> (Some (RunTelemetry e), h1)
      | (Inr shutdowns, h1) \<Rightarrow>
     case (case app_Build X (prAccessLog P) (prOtel P) (prOther P) (prModules P) cfg g tel of
             Inl e \<Rightarrow> (Some (RunBuild e), h1)
           | Inr a \<Rightarrow>
               let h2 = h1 @ [Listen (gwListen g)] in
               (case prEnd P (apHandler a) h2 of
                  Cancelled \<Rightarrow> (None, h2 @ [ShutdownServer])
                | Returned e \<Rightarrow> (map_option RunServe (serve e), h2)))
       of (r, h3) \<Rightarrow> (r, snd (shutdown_all (prOutcomes P) shutdowns None h3)))"

section \<open>The instrumented transport\<close>

text \<open>\<open>span\<close> holds the attributes of the client span, which the library opened with the full URL of the request.\<close>

definition backendName :: "string option \<Rightarrow> string" where
  "backendName ctx = (case ctx of None \<Rightarrow> [] | Some n \<Rightarrow> n)"

definition WithBackend :: "string option \<Rightarrow> string \<Rightarrow> string option" where
  "WithBackend ctx name = Some name"

definition tag_span :: "(target_url \<Rightarrow> string) \<Rightarrow> string option \<Rightarrow> target_url \<Rightarrow> (string, string) gomap \<Rightarrow> (string, string) gomap" where
  "tag_span render ctx u span =
     (let s1 = (if backendName ctx \<noteq> [] then gm_set ''hog.backend'' (backendName ctx) span else span)
      in if tuRawQuery u \<noteq> [] then gm_set ''url.full'' (render (u\<lparr>tuRawQuery := []\<rparr>)) s1 else s1)"

definition span_name :: "string option \<Rightarrow> out_request \<Rightarrow> string" where
  "span_name ctx r = (if backendName ctx \<noteq> [] then ''backend '' @ backendName ctx else oMethod r)"

definition metric_attributes :: "string option \<Rightarrow> (string \<times> string) list" where
  "metric_attributes ctx = (if backendName ctx \<noteq> [] then [(''hog.backend'', backendName ctx)] else [])"

record client_span =
  csName :: string
  csAttributes :: "(string, string) gomap"
  csMetrics :: "(string \<times> string) list"

definition InstrumentedTransport :: "(target_url \<Rightarrow> string) \<Rightarrow> 'st transport \<Rightarrow> string option \<Rightarrow> out_request \<Rightarrow> 'st
    \<Rightarrow> client_span \<times> (rt_error, backend_response) result \<times> 'st" where
  "InstrumentedTransport render base ctx r st =
     (\<lparr>csName = span_name ctx r, csAttributes = tag_span render ctx (oURL r) [(''url.full'', render (oURL r))],
       csMetrics = metric_attributes ctx\<rparr>, base r st)"

section \<open>Nothing is left running\<close>

fun step_open :: "provider set \<Rightarrow> event \<Rightarrow> provider set" where
  "step_open s (NewTracerProvider r x) = insert Tracer s"
| "step_open s (NewMeterProvider x) = insert Meter s"
| "step_open s (ShutdownProvider p) = s - {p}"
| "step_open s _ = s"

definition open_providers :: "event list \<Rightarrow> provider set" where
  "open_providers h = foldl step_open {} h"

lemma open_providers_append [simp]: "open_providers (h @ es) = foldl step_open (open_providers h) es"
  by (simp add: open_providers_def)

lemma open_providers_Nil [simp]: "open_providers [] = {}"
  by (simp add: open_providers_def)

lemma shutdown_all_open: "open_providers (snd (shutdown_all oc ps first h)) = open_providers h - set ps"
  by (induction oc ps first h rule: shutdown_all.induct) auto

lemma shutdown_all_events: "\<exists>es. snd (shutdown_all oc ps first h) = h @ es \<and> (\<forall>a. Listen a \<notin> set es)"
proof (induction oc ps first h rule: shutdown_all.induct)
  case (2 oc p ps first h)
  then show ?case by fastforce
qed simp

lemma exporter_events [simp]:
  "step_open s (traceExporter o1 t) = s" "step_open s (metricExporter o1 t) = s"
  "Listen a \<noteq> traceExporter o1 t" "Listen a \<noteq> metricExporter o1 t"
  by (auto simp: traceExporter_def metricExporter_def exporter_def)

lemma pipelines_open:
  assumes "open_providers h = {}"
  shows "case pipelines oc cfg t h of (Inl e, h') \<Rightarrow> open_providers h' = {} | (Inr ps, h') \<Rightarrow> ps = [Tracer, Meter] \<and> open_providers h' = {Tracer, Meter}"
  using assms by (auto simp: pipelines_def Let_def split: option.split)

lemma build_open:
  assumes "open_providers h = {}"
  shows "case telemetry_build oc pd cfg h of (Inl e, h') \<Rightarrow> open_providers h' = {} | (Inr ps, h') \<Rightarrow> ps = [Tracer, Meter] \<and> open_providers h' = {Tracer, Meter}"
  using assms pipelines_open [of "h @ [MergeResource (tcServiceName cfg) (tcServiceVersion cfg)]" oc cfg]
  by (auto simp: telemetry_build_def Let_def split: option.split sum.split if_split)

lemma Setup_open:
  assumes "open_providers h = {}"
  shows "case Setup oc pd cfg h of (Inl e, h') \<Rightarrow> open_providers h' = {} | (Inr ps, h') \<Rightarrow> ps = [Tracer, Meter] \<and> open_providers h' = {Tracer, Meter}"
proof -
  have h: "open_providers (h @ [SetErrorHandler, SetPropagator]) = {}" using assms by simp
  from build_open [OF h, of oc pd cfg] show ?thesis by (auto simp: Setup_def split: prod.splits sum.splits)
qed

text \<open>Telemetry start-up leaks nothing. Whatever step of it fails, every provider that was already built has been shut down
  again; when it succeeds, both providers run, and the shutdown it returns closes both even if closing one fails, and
  reports the first failure.\<close>

theorem Setup_no_leak:
  assumes "open_providers h = {}"
  shows "case Setup oc pd cfg h of
      (Inl e, h') \<Rightarrow> open_providers h' = {}
    | (Inr ps, h') \<Rightarrow> open_providers h' = {Tracer, Meter} \<and> open_providers (snd (shutdown_all oc ps None h')) = {}
        \<and> fst (shutdown_all oc ps None h') =
          (case oc h' (ShutdownProvider Tracer) of Some e \<Rightarrow> Some e | None \<Rightarrow> oc (h' @ [ShutdownProvider Tracer]) (ShutdownProvider Meter))"
  using Setup_open [OF assms, of oc pd cfg] by (auto simp: shutdown_all_open split: prod.splits sum.splits option.splits)

theorem Setup_no_leak_witness:
  "open_providers (snd (Setup (\<lambda>h e. case e of NewMetricExporter _ _ \<Rightarrow> Some ''down'' | _ \<Rightarrow> None) (\<lambda>s. Inl [])
     (telemetry_Default\<lparr>tcOTLP := (tcOTLP telemetry_Default)\<lparr>otEndpoint := ''http://c''\<rparr>\<rparr>) [])) = {}"
proof -
  let ?oc = "\<lambda>h e. case e of NewMetricExporter _ _ \<Rightarrow> Some ''down'' | _ \<Rightarrow> None"
  let ?cfg = "telemetry_Default\<lparr>tcOTLP := (tcOTLP telemetry_Default)\<lparr>otEndpoint := ''http://c''\<rparr>\<rparr>"
  have "isl (fst (Setup ?oc (\<lambda>s. Inl []) ?cfg []))" by code_simp
  then show ?thesis
    using Setup_no_leak [of "[]" ?oc "\<lambda>s. Inl []" ?cfg] by (cases "Setup ?oc (\<lambda>s. Inl []) ?cfg []") (auto split: sum.splits)
qed


lemma Setup_no_listen:
  assumes "Setup oc pd cfg h = (r, h')" "Listen a \<in> set h'"
  shows "Listen a \<in> set h"
  using assms
  by (auto simp: Setup_def telemetry_build_def pipelines_def Let_def split: prod.splits sum.splits option.splits if_splits)

lemma app_Run_cases:
  fixes P :: "('n, 'st) process"
  assumes "\<And>a. Listen a \<notin> set h" "open_providers h = {}"
  obtains (early) r h1 where "app_Run X P path h = (r, h1)" "\<And>a. Listen a \<notin> set h1" "open_providers h1 = {}"
  | (up) resources cfg h1 r h2 where
      "Load (xLower X) (prFs P) (prEnv P) (prYaml P) path = Inr resources" "Parse X resources = Inr cfg"
      "Setup (prOutcomes P) (xParseDuration X) (the (cfTelemetry cfg)) h = (Inr [Tracer, Meter], h1)"
      "open_providers h2 = {Tracer, Meter}" "app_Run X P path h = (r, snd (shutdown_all (prOutcomes P) [Tracer, Meter] None h2))"
      "\<And>a. Listen a \<in> set h2 \<Longrightarrow> a = gwListen (the (cfGateway cfg)) \<and>
         (\<exists>app. app_Build X (prAccessLog P) (prOtel P) (prOther P) (prModules P) cfg (the (cfGateway cfg)) (the (cfTelemetry cfg)) = Inr app)"
proof (cases "Load (xLower X) (prFs P) (prEnv P) (prYaml P) path")
  case (Inl e)
  then show thesis using assms by (intro early) (auto simp: app_Run_def)
next
  case l: (Inr resources)
  show thesis
  proof (cases "Parse X resources")
    case (Inl e)
    then show thesis using assms l by (intro early) (auto simp: app_Run_def)
  next
    case p: (Inr cfg)
    obtain r h1 where s: "Setup (prOutcomes P) (xParseDuration X) (the (cfTelemetry cfg)) h = (r, h1)" by fastforce
    have nl: "Listen a \<notin> set h1" for a using Setup_no_listen [OF s] assms(1) by blast
    show thesis
    proof (cases r)
      case (Inl e)
      then show thesis using l p s nl Setup_open [OF assms(2), of "prOutcomes P" "xParseDuration X" "the (cfTelemetry cfg)"]
        by (intro early) (auto simp: app_Run_def Let_def)
    next
      case (Inr ps)
      with s Setup_open [OF assms(2), of "prOutcomes P" "xParseDuration X" "the (cfTelemetry cfg)"]
      have o1: "ps = [Tracer, Meter]" "open_providers h1 = {Tracer, Meter}" by auto
      let ?b = "app_Build X (prAccessLog P) (prOtel P) (prOther P) (prModules P) cfg (the (cfGateway cfg)) (the (cfTelemetry cfg))"
      show thesis
      proof (cases ?b)
        case (Inl e)
        show thesis
          by (rule up [OF l p, of h1 h1]) (use s Inr Inl o1 l p nl in \<open>auto simp: app_Run_def Let_def\<close>)
      next
        case b: (Inr a)
        let ?h2 = "h1 @ [Listen (gwListen (the (cfGateway cfg)))]"
        show thesis
        proof (cases "prEnd P (apHandler a) ?h2")
          case Cancelled
          show thesis
            by (rule up [OF l p, of h1 "?h2 @ [ShutdownServer]"]) (use s Inr b Cancelled o1 l p nl in \<open>auto simp: app_Run_def Let_def\<close>)
        next
          case (Returned e)
          show thesis
            by (rule up [OF l p, of h1 ?h2]) (use s Inr b Returned o1 l p nl in \<open>auto simp: app_Run_def Let_def\<close>)
        qed
      qed
    qed
  qed
qed

text \<open>C34. A run that ends has released its telemetry, and only a gateway that was built listens. On every path out of the run loop
  (a configuration that does not load or parse, telemetry that does not start, a gateway that cannot be built, a
  cancelled context, a failed listener) no provider is left running; and the process opens its port only at the configured
  address of a configuration that loaded and parsed and from which a gateway was built.\<close>

theorem app_Run_clean:
  fixes P :: "('n, 'st) process"
  assumes "\<And>a. Listen a \<notin> set h" "open_providers h = {}"
  shows "open_providers (snd (app_Run X P path h)) = {}
    \<and> (\<forall>addr. Listen addr \<in> set (snd (app_Run X P path h)) \<longrightarrow>
        (\<exists>resources cfg a. Load (xLower X) (prFs P) (prEnv P) (prYaml P) path = Inr resources \<and> Parse X resources = Inr cfg
          \<and> app_Build X (prAccessLog P) (prOtel P) (prOther P) (prModules P) cfg (the (cfGateway cfg)) (the (cfTelemetry cfg)) = Inr a
          \<and> addr = gwListen (the (cfGateway cfg))))"
  using assms
proof (cases rule: app_Run_cases [of h X P path])
  case (early r h1)
  then show ?thesis by simp
next
  case (up resources cfg h1 r h2)
  from shutdown_all_events [of "prOutcomes P" "[Tracer, Meter]" None h2]
  have "Listen a \<in> set (snd (shutdown_all (prOutcomes P) [Tracer, Meter] None h2)) \<Longrightarrow> Listen a \<in> set h2" for a by auto
  with up show ?thesis by (auto simp: shutdown_all_open)
qed


definition demo_process :: "(unit, unit) process" where
  "demo_process = \<lparr>prFs = \<lparr>Stat = (\<lambda>p. Inr False), ReadDir = (\<lambda>p. Inl []), ReadFile = (\<lambda>p. Inr [])\<rparr>, prEnv = (\<lambda>n. None),
     prYaml = (\<lambda>t. map Inr demo_resources), prAccessLog = (\<lambda>c. reserved), prOtel = reserved, prOther = (\<lambda>r w. Done w),
     prModules = demo_modules, prEnd = (\<lambda>a h. Cancelled), prOutcomes = (\<lambda>h e. None)\<rparr>"

lemma demo_process_Load: "Load u (prFs demo_process) (prEnv demo_process) (prYaml demo_process) path = Inr demo_resources"
  by (simp add: Load_def config_files_def demo_process_def load_file_def ExpandEnv_def expand_loop.simps DecodeAll_def demo_resources_def demo_resource_def)

lemma demo_Setup: "Setup (\<lambda>h e. None) pd telemetry_Default h =
    (Inr [Tracer, Meter], h @ [SetErrorHandler, SetPropagator, MergeResource ''hog'' [], NewTracerProvider NeverSample False, NewMeterProvider False,
       SetProvider Tracer, SetProvider Meter])"
  by (simp add: Setup_def telemetry_build_def pipelines_def telemetry_Default_def Let_def)

lemma demo_Run: "Listen '':8080'' \<in> set (snd (app_Run demo_app_env demo_process path []))"
proof -
  obtain a where "app_Build demo_app_env (\<lambda>c. reserved) reserved (\<lambda>r w. Done w) demo_modules demo_config demo_settings telemetry_Default = Inr a"
    using demo_app_Build by blast
  moreover have "the (cfTelemetry demo_config) = telemetry_Default" "the (cfGateway demo_config) = demo_settings" "gwListen demo_settings = '':8080''"
    by (simp_all add: demo_config_def demo_settings_def)
  moreover have "prAccessLog demo_process = (\<lambda>c. reserved)" "prOtel demo_process = reserved" "prOther demo_process = (\<lambda>r w. Done w)"
    "prModules demo_process = demo_modules" "prEnd demo_process = (\<lambda>a h. Cancelled)" "prOutcomes demo_process = (\<lambda>h e. None)"
    by (simp_all add: demo_process_def)
  ultimately show ?thesis
    by (simp add: app_Run_def demo_process_Load demo_Parse demo_Setup)
qed

theorem app_Run_clean_witness:
  "open_providers (snd (app_Run demo_app_env demo_process ''/etc/hog'' [])) = {}
   \<and> (\<exists>cfg a. Parse demo_app_env demo_resources = Inr cfg
        \<and> app_Build demo_app_env (\<lambda>c. reserved) reserved (\<lambda>r w. Done w) demo_modules cfg (the (cfGateway cfg)) (the (cfTelemetry cfg)) = Inr (a :: unit app))"
proof -
  have p: "prAccessLog demo_process = (\<lambda>c. reserved)" "prOtel demo_process = reserved" "prOther demo_process = (\<lambda>r w. Done w)"
    "prModules demo_process = demo_modules"
    by (simp_all add: demo_process_def)
  from app_Run_clean [of "[]" demo_app_env demo_process "''/etc/hog''"] demo_Run [of "''/etc/hog''"]
  show ?thesis unfolding demo_process_Load p by auto
qed

section \<open>What a client span exports\<close>

text \<open>The URL a client span exports has no query, whatever query the client sent: secrets forwarded to a backend in the query do
  not reach the collector.\<close>

theorem span_url_has_no_query:
  "gm_get (csAttributes (fst (InstrumentedTransport render base ctx r st))) ''url.full'' = Some (render ((oURL r)\<lparr>tuRawQuery := []\<rparr>))
   \<and> snd (InstrumentedTransport render base ctx r st) = base r st"
proof -
  have e: "tuRawQuery u = [] \<Longrightarrow> u\<lparr>tuRawQuery := []\<rparr> = u" for u :: target_url by (cases u) simp
  show ?thesis by (auto simp: InstrumentedTransport_def tag_span_def Let_def gm_get_set e)
qed

end
