(* ===== verification/Aggregate.thy ===== *)
theory Aggregate
  imports Backend Go_Path
begin

text \<open>
  The aggregation handler (\<^verbatim>\<open>src/terminal/aggregate.go\<close>): its backends, one call, and the merge of
  the results. The calls run concurrently and each writes its own slot; the model takes the order in which
  they reach the backends as an argument, so a theorem about every order is a theorem about every schedule. The
  transport, \<open>url.Parse\<close>, the validity check of \<open>http.NewRequest\<close> and the JSON codec are
  arguments.
\<close>

definition maxBackendBytes :: nat where
  "maxBackendBytes = 10485760"

record backend_config =
  bkGroup :: string
  bkUpstream :: string
  bkPath :: string
  bkMethod :: string
  bkRequired :: "bool option"
  bkForwardQuery :: bool
  bkForwardAccessToken :: bool
  bkForwardIdentity :: bool

record api_config =
  acTimeout :: string
  acBackends :: "backend_config list"

record backend =
  beGroup :: string
  beBase :: target_url
  bePath :: string
  beMethod :: string
  beRequired :: bool
  beForwardQuery :: bool
  beOpts :: forward_options

record api_handler =
  ahBackends :: "backend list"
  ahTimeout :: int

datatype api_error =
    ApiDecode string
  | NoBackends
  | ApiTimeout string
  | GroupRequired nat
  | DuplicateGroup string
  | PathRequired string
  | ApiUpstream string string
  | InvalidMethod string string

record api_env =
  aeParse :: "string \<Rightarrow> target_url option"
  aeNewRequest :: "string \<Rightarrow> target_url \<Rightarrow> bool"
  aeValidJSON :: "string \<Rightarrow> bool"
  aeEncode :: "(string, string) gomap \<Rightarrow> string"

section \<open>Building the handler\<close>

definition add_backend :: "api_env \<Rightarrow> nat \<times> (string list) \<times> backend list \<Rightarrow> backend_config
    \<Rightarrow> (api_error, nat \<times> (string list) \<times> backend list) result" where
  "add_backend A st b =
     (let (i, seen, out) = st in
     guardR (bkGroup b = []) (GroupRequired i) (
     guardR (bkGroup b \<in> set seen) (DuplicateGroup (bkGroup b)) (
     guardR (bkPath b = []) (PathRequired (bkGroup b)) (
     bindR (case valid_upstream (aeParse A) (bkUpstream b) of
              None \<Rightarrow> Inl (ApiUpstream (bkGroup b) (bkUpstream b)) | Some u \<Rightarrow> Inr u) (\<lambda>base.
     let method = (if bkMethod b = [] then ''GET'' else bkMethod b) in
     guardR (\<not> aeNewRequest A method base) (InvalidMethod (bkGroup b) method) (
     Inr (Suc i, seen @ [bkGroup b],
       out @ [\<lparr>beGroup = bkGroup b, beBase = base, bePath = bkPath b, beMethod = method,
               beRequired = (case bkRequired b of None \<Rightarrow> True | Some v \<Rightarrow> v), beForwardQuery = bkForwardQuery b,
               beOpts = \<lparr>foAccessToken = bkForwardAccessToken b, foCookies = False, foIdentity = bkForwardIdentity b\<rparr>\<rparr>])))))))"

definition registerAPI :: "('n \<Rightarrow> (string, api_config) result) \<Rightarrow> api_env \<Rightarrow> (string \<Rightarrow> (string, int) result) \<Rightarrow> 'n
    \<Rightarrow> (api_error, api_handler) result" where
  "registerAPI dec A parseDuration cfg =
     bindR (mapErr ApiDecode (dec cfg)) (\<lambda>ac.
     guardR (acBackends ac = []) NoBackends (
     bindR (if acTimeout ac \<noteq> [] then mapErr ApiTimeout (parseDuration (acTimeout ac)) else Inr 0) (\<lambda>timeout.
     bindR (foldR (add_backend A) (0, [], []) (acBackends ac)) (\<lambda>(i, seen, backends).
     Inr \<lparr>ahBackends = backends, ahTimeout = timeout\<rparr>))))"

section \<open>One call\<close>

definition safePathValue :: "string \<Rightarrow> bool" where
  "safePathValue v \<longleftrightarrow> v \<noteq> [] \<and> CHR ''/'' \<notin> set v \<and> CHR 0x5C \<notin> set v \<and> v \<noteq> ''.'' \<and> v \<noteq> ''..''"

definition PathValue :: "request \<Rightarrow> string \<Rightarrow> string" where
  "PathValue r name = gm_str (rPathValues r) name"

text \<open>The loop of \<open>substituteParams\<close>: \<open>b\<close> is the text built so far.\<close>

function substitute_loop :: "(string \<Rightarrow> string) \<Rightarrow> string \<Rightarrow> string \<Rightarrow> string option" where
  "substitute_loop val p b =
     (case Index p ''{'' of
        None \<Rightarrow> Some (b @ p)
      | Some i \<Rightarrow>
          (case Index (drop i p) ''}'' of
             None \<Rightarrow> Some (b @ p)
           | Some j \<Rightarrow>
               let v = val (take (j - 1) (drop (i + 1) p)) in
               if \<not> safePathValue v then None
               else substitute_loop val (drop (i + j + 1) p) (b @ take i p @ v)))"
  by pat_completeness auto
termination
proof (relation "measure (\<lambda>(val, p, b). length p)", goal_cases)
  case (2 val p b i j v)
  from Index_le [OF 2(1)] show ?case by simp
qed simp

declare substitute_loop.simps [simp del]

definition substituteParams :: "string \<Rightarrow> request \<Rightarrow> string option" where
  "substituteParams p r = (if \<not> Contains p ''{'' then Some p else substitute_loop (PathValue r) p [])"

record backend_result =
  resBody :: string
  resOk :: bool
  resTimeout :: bool

definition failed :: backend_result where
  "failed = \<lparr>resBody = [], resOk = False, resTimeout = False\<rparr>"

text \<open>A response whose body can be read up to a length, or whose reading fails.\<close>

record api_response =
  arStatus :: nat
  arBody :: "string option"

type_synonym 'st api_transport = "out_request \<Rightarrow> 'st \<Rightarrow> (rt_error, api_response) result \<times> 'st"

definition backend_request :: "request \<Rightarrow> backend \<Rightarrow> string \<Rightarrow> out_request" where
  "backend_request inn b sub =
     \<lparr>oMethod = beMethod b,
      oURL = (beBase b)\<lparr>tuPath := PathJoin [tuPath (beBase b), sub],
                tuRawQuery := (if beForwardQuery b then rRawQuery inn else tuRawQuery (beBase b))\<rparr>,
      oHost = tuHost (beBase b),
      oHeader = prepareBackendRequest (beOpts b) inn []\<rparr>"

definition classify :: "api_env \<Rightarrow> (rt_error, api_response) result \<Rightarrow> backend_result" where
  "classify A res =
     (case res of
        Inl e \<Rightarrow> failed\<lparr>resTimeout := (e = DeadlineExceeded)\<rparr>
      | Inr p \<Rightarrow>
          if arStatus p < 200 \<or> arStatus p \<ge> 300 then failed
          else (case arBody p of
             None \<Rightarrow> failed
           | Some full \<Rightarrow>
               let body = take maxBackendBytes full in
               if \<not> aeValidJSON A body then failed
               else \<lparr>resBody = body, resOk = True, resTimeout = False\<rparr>))"

definition api_call :: "api_env \<Rightarrow> 'st api_transport \<Rightarrow> request \<Rightarrow> backend \<Rightarrow> 'st \<Rightarrow> backend_result \<times> 'st" where
  "api_call A tr inn b s =
     (case substituteParams (bePath b) inn of
        None \<Rightarrow> (failed, s)
      | Some sub \<Rightarrow>
          let out = backend_request inn b sub in
          if \<not> aeNewRequest A (oMethod out) (oURL out) then (failed, s)
          else case tr out s of (res, s1) \<Rightarrow> (classify A res, s1))"

section \<open>The handler\<close>

fun run_calls :: "api_env \<Rightarrow> 'st api_transport \<Rightarrow> request \<Rightarrow> backend list \<Rightarrow> nat list \<Rightarrow> backend_result list \<Rightarrow> 'st
    \<Rightarrow> backend_result list \<times> 'st" where
  "run_calls A tr inn bs [] results s = (results, s)"
| "run_calls A tr inn bs (i # order) results s =
     (case api_call A tr inn (bs ! i) s of (res, s1) \<Rightarrow> run_calls A tr inn bs order (results[i := res]) s1)"

text \<open>The merge loop: the merged map and the omitted groups, or the status of the error answer.\<close>

fun merge_results :: "(backend \<times> backend_result) list \<Rightarrow> (string, string) gomap \<Rightarrow> string list
    \<Rightarrow> (nat, (string, string) gomap \<times> string list) result" where
  "merge_results [] merged omitted = Inr (merged, omitted)"
| "merge_results ((b, res) # rest) merged omitted =
     (if resOk res then merge_results rest (gm_set (beGroup b) (resBody res) merged) omitted
      else if beRequired b then Inl (if resTimeout res then 504 else 502)
      else merge_results rest merged (omitted @ [beGroup b]))"

definition api_answer :: "api_env \<Rightarrow> backend list \<Rightarrow> backend_result list \<Rightarrow> 'st world \<Rightarrow> 'st world" where
  "api_answer A bs results w =
     (case merge_results (zip bs results) [] [] of
        Inl code \<Rightarrow> httpError ''upstream error'' code w
      | Inr (merged, omitted) \<Rightarrow>
          let w1 = (if omitted \<noteq> [] then wSet ''X-Hog-Partial'' (Join omitted '','') w else w)
          in Write (aeEncode A merged) (WriteHeader 200 (wSet ''Content-Type'' ''application/json'' w1)))"

definition api_ServeHTTP :: "api_env \<Rightarrow> (int \<Rightarrow> 'st api_transport) \<Rightarrow> nat list \<Rightarrow> api_handler \<Rightarrow> 'st handler" where
  "api_ServeHTTP A transports order h r w =
     (case liftExt (run_calls A (transports (if ahTimeout h > 0 then ahTimeout h else 0)) r (ahBackends h) order
             (replicate (length (ahBackends h)) failed)) w of
        (results, w1) \<Rightarrow> Done (api_answer A (ahBackends h) results w1))"

section \<open>Path parameters\<close>

datatype piece = Lit string | Param string

primrec piece_text :: "piece \<Rightarrow> string" where
  "piece_text (Lit s) = s"
| "piece_text (Param n) = ''{'' @ n @ ''}''"

primrec piece_ok :: "piece \<Rightarrow> bool" where
  "piece_ok (Lit s) = (CHR ''{'' \<notin> set s)"
| "piece_ok (Param n) = (CHR ''}'' \<notin> set n)"

primrec piece_value :: "(string \<Rightarrow> string) \<Rightarrow> piece \<Rightarrow> string" where
  "piece_value val (Lit s) = s"
| "piece_value val (Param n) = val n"

primrec piece_safe :: "(string \<Rightarrow> string) \<Rightarrow> piece \<Rightarrow> bool" where
  "piece_safe val (Lit s) = True"
| "piece_safe val (Param n) = safePathValue (val n)"

lemma substitute_loop_lit:
  assumes "CHR ''{'' \<notin> set s"
  shows "substitute_loop val (s @ p) b = substitute_loop val p (b @ s)"
proof (cases "Index p ''{''")
  case None
  then have "CHR ''{'' \<notin> set p" by (metis Contains_char Contains_def)
  then have "Index (s @ p) ''{'' = None" using assms by (metis Contains_char Contains_def Un_iff set_append)
  then show ?thesis using None by (simp add: substitute_loop.simps)
next
  case (Some i)
  obtain a c where p: "p = a @ CHR ''{'' # c" "CHR ''{'' \<notin> set a" using Some
    by (metis Contains_char Contains_def option.distinct(1) split_list_first)
  then have i: "i = length a" using Some Index_char by fastforce
  have I: "Index (s @ p) ''{'' = Some (length s + i)"
    using p assms Index_char [of "CHR ''{''" "s @ a" c] by (simp add: i)
  show ?thesis
    by (subst (1 2) substitute_loop.simps) (simp add: I Some add.assoc Let_def split: option.split)
qed

lemma substitute_loop_param:
  assumes "CHR ''}'' \<notin> set n"
  shows "substitute_loop val (''{'' @ n @ ''}'' @ p) b =
    (if safePathValue (val n) then substitute_loop val p (b @ val n) else None)"
proof -
  have "Index (CHR ''{'' # n @ CHR ''}'' # p) ''}'' = Some (Suc (length n))"
    using Index_char [of "CHR ''}''" "CHR ''{'' # n" p] assms by simp
  moreover have "Index (CHR ''{'' # n @ CHR ''}'' # p) ''{'' = Some 0" using Index_char [of "CHR ''{''" "[]"] by simp
  ultimately show ?thesis by (subst substitute_loop.simps) (simp add: Let_def)
qed

lemma substitute_pieces:
  assumes "list_all piece_ok ps"
  shows "substitute_loop val (concat (map piece_text ps)) b =
    (if list_all (piece_safe val) ps then Some (b @ concat (map (piece_value val) ps)) else None)"
  using assms
proof (induction ps arbitrary: b)
  case Nil
  have "Index [] ''{'' = None" by simp
  then show ?case by (simp add: substitute_loop.simps)
next
  case (Cons x ps)
  then show ?case
    by (cases x) (use substitute_loop_lit substitute_loop_param [simplified] in \<open>simp_all\<close>)
qed

text \<open>C29. Parameters of a backend path are replaced by the values of the request, each of them one plain path
  segment: a template of literal text and parameters gives the text with the values in place when every value is
  safe (not empty, no separator, not a dot segment), and otherwise the call is refused.\<close>

theorem substituteParams_template:
  assumes "list_all piece_ok ps"
  shows "substituteParams (concat (map piece_text ps)) r =
    (if list_all (piece_safe (PathValue r)) ps then Some (concat (map (piece_value (PathValue r)) ps)) else None)"
proof (cases "CHR ''{'' \<in> set (concat (map piece_text ps))")
  case True
  then show ?thesis using substitute_pieces [OF assms, of "PathValue r" "[]"] by (simp add: substituteParams_def Contains_char)
next
  case False
  have "substitute_loop val p [] = Some p" if "CHR ''{'' \<notin> set p" for val p
    using that by (subst substitute_loop.simps) (metis (no_types, lifting) Contains_char Contains_def append_Nil option.case_eq_if)
  then show ?thesis using False substitute_pieces [OF assms, of "PathValue r" "[]"]
    by (simp add: substituteParams_def Contains_char)
qed

theorem substituteParams_template_witness:
  "substituteParams ''/users/{id}/posts'' (demo_request\<lparr>rPathValues := [(''id'', ''7'')]\<rparr>) = Some ''/users/7/posts''
   \<and> substituteParams ''/users/{id}/posts'' (demo_request\<lparr>rPathValues := [(''id'', ''..'')]\<rparr>) = None"
  using substituteParams_template [of "[Lit ''/users/'', Param ''id'', Lit ''/posts'']" "demo_request\<lparr>rPathValues := [(''id'', ''7'')]\<rparr>"]
    substituteParams_template [of "[Lit ''/users/'', Param ''id'', Lit ''/posts'']" "demo_request\<lparr>rPathValues := [(''id'', ''..'')]\<rparr>"]
  by (simp add: PathValue_def gm_str_def safePathValue_def)

section \<open>Every schedule gives the same answer\<close>

lemma run_calls_length [simp]: "length (fst (run_calls A tr r bs order results s)) = length results"
  by (induction order arbitrary: results s) (auto simp: split_beta)

text \<open>Backends that answer a request the same way whatever reached them before.\<close>

definition independent :: "'st api_transport \<Rightarrow> bool" where
  "independent tr \<longleftrightarrow> (\<forall>q s s'. fst (tr q s) = fst (tr q s'))"

lemma api_call_independent: "independent tr \<Longrightarrow> fst (api_call A tr r b s) = fst (api_call A tr r b s')"
  by (simp add: api_call_def Let_def independent_def split_beta split: option.split) metis

lemma run_calls_slots:
  assumes "independent tr" "distinct order" "set order \<subseteq> {..<length results}" "i < length results"
  shows "fst (run_calls A tr r bs order results s) ! i =
    (if i \<in> set order then fst (api_call A tr r (bs ! i) s0) else results ! i)"
  using assms(2-)
proof (induction order arbitrary: results s)
  case (Cons j order)
  let ?c = "api_call A tr r (bs ! j) s"
  have c: "fst ?c = fst (api_call A tr r (bs ! j) s0)" by (rule api_call_independent [OF assms(1)])
  have "fst (run_calls A tr r bs order (results[j := fst ?c]) (snd ?c)) ! i =
      (if i \<in> set order then fst (api_call A tr r (bs ! i) s0) else results[j := fst ?c] ! i)"
    by (rule Cons.IH) (use Cons.prems in auto)
  then show ?case using Cons.prems c by (auto simp: split_beta nth_list_update)
qed simp

definition schedule :: "nat list \<Rightarrow> api_handler \<Rightarrow> bool" where
  "schedule order h \<longleftrightarrow> distinct order \<and> set order = {..<length (ahBackends h)}"

lemma run_calls_schedule:
  assumes "independent tr" "schedule order h"
  shows "fst (run_calls A tr r (ahBackends h) order (replicate (length (ahBackends h)) failed) s) =
    map (\<lambda>b. fst (api_call A tr r b s0)) (ahBackends h)"
proof (rule nth_equalityI)
  fix i assume "i < length (fst (run_calls A tr r (ahBackends h) order (replicate (length (ahBackends h)) failed) s))"
  then show "fst (run_calls A tr r (ahBackends h) order (replicate (length (ahBackends h)) failed) s) ! i =
    map (\<lambda>b. fst (api_call A tr r b s0)) (ahBackends h) ! i"
    using assms(2) run_calls_slots [OF assms(1), of order "replicate (length (ahBackends h)) failed" i A r "ahBackends h" s s0]
    by (simp add: schedule_def)
qed simp

text \<open>C28. The concurrent calls do not race: with backends that do not depend on each other, the response is the same
  for every order in which the calls reach them, namely the merge of each backend's own result.\<close>

theorem api_schedule_independent:
  assumes "\<forall>t. independent (transports t)" "schedule order h"
  shows "resp (world_of (api_ServeHTTP A transports order h r w)) =
    resp (api_answer A (ahBackends h) (map (\<lambda>b. fst (api_call A (transports (max 0 (ahTimeout h))) r b (ext w))) (ahBackends h)) w)"
proof -
  let ?t = "if ahTimeout h > 0 then ahTimeout h else 0"
  have t: "?t = max 0 (ahTimeout h)" by auto
  have frame: "resp (api_answer A bs results v) = resp (api_answer A bs results w)" if "resp v = resp w" for bs results v
    using that by (auto simp: api_answer_def Let_def httpError_def Write_def WriteHeader_def wSet_def wDel_def split: sum.split)
  let ?run = "run_calls A (transports ?t) r (ahBackends h) order (replicate (length (ahBackends h)) failed) (ext w)"
  from assms(1) have "independent (transports ?t)" by blast
  then have res: "fst ?run = map (\<lambda>b. fst (api_call A (transports ?t) r b (ext w))) (ahBackends h)"
    by (rule run_calls_schedule [OF _ assms(2)])
  have "api_ServeHTTP A transports order h r w = Done (api_answer A (ahBackends h) (fst ?run) (w\<lparr>ext := snd ?run\<rparr>))"
    by (simp only: api_ServeHTTP_def liftExt_pair prod.case)
  then have "resp (world_of (api_ServeHTTP A transports order h r w)) = resp (api_answer A (ahBackends h) (fst ?run) w)"
    using frame [of "w\<lparr>ext := snd ?run\<rparr>"] by simp
  then show ?thesis by (simp only: res t [symmetric])
qed

definition demo_api_env :: api_env where
  "demo_api_env = \<lparr>aeParse = (\<lambda>u. Some \<lparr>tuScheme = ''http'', tuHost = u, tuPath = [], tuRawQuery = []\<rparr>),
     aeNewRequest = (\<lambda>m u. True), aeValidJSON = (\<lambda>b. b \<noteq> []), aeEncode = (\<lambda>m. concat (map (\<lambda>(k, v). k @ v) m))\<rparr>"

definition demo_backend :: "string \<Rightarrow> bool \<Rightarrow> backend_config" where
  "demo_backend g req = \<lparr>bkGroup = g, bkUpstream = g, bkPath = ''/x'', bkMethod = [], bkRequired = Some req, bkForwardQuery = False,
     bkForwardAccessToken = False, bkForwardIdentity = False\<rparr>"

definition demo_api_result :: "(api_error, api_handler) result" where
  "demo_api_result = registerAPI Inr demo_api_env (\<lambda>s. Inr 0) \<lparr>acTimeout = [], acBackends = [demo_backend ''a'' True, demo_backend ''b'' False]\<rparr>"

definition demo_api :: api_handler where
  "demo_api = projr demo_api_result"

lemma demo_api_ok: "registerAPI Inr demo_api_env (\<lambda>s. Inr 0) \<lparr>acTimeout = [], acBackends = [demo_backend ''a'' True, demo_backend ''b'' False]\<rparr> = Inr demo_api"
proof -
  have "isl demo_api_result = False" by code_simp
  then show ?thesis unfolding demo_api_def demo_api_result_def by (auto simp: isl_def split: sum.splits)
qed

definition demo_api_transport :: "unit api_transport" where
  "demo_api_transport q s = (if oHost q = ''a'' then (Inr \<lparr>arStatus = 200, arBody = Some ''1''\<rparr>, s) else (Inl DeadlineExceeded, s))"

theorem api_schedule_independent_witness:
  "resp (world_of (api_ServeHTTP demo_api_env (\<lambda>t. demo_api_transport) [1, 0] demo_api demo_request (demo_world ()))) =
   resp (world_of (api_ServeHTTP demo_api_env (\<lambda>t. demo_api_transport) [0, 1] demo_api demo_request (demo_world ())))"
proof -
  have "length (ahBackends demo_api) = 2" by code_simp
  then have "schedule [1, 0] demo_api" "schedule [0, 1] demo_api" by (auto simp: schedule_def)
  moreover have "\<forall>t :: int. independent demo_api_transport" by (simp add: independent_def demo_api_transport_def)
  ultimately show ?thesis
    using api_schedule_independent [of "\<lambda>t. demo_api_transport" _ demo_api demo_api_env demo_request "demo_world ()"] by metis
qed

section \<open>What the answer holds\<close>

lemma add_backend_groups:
  assumes "foldR (add_backend A) (i, seen, out) bs = Inr (j, seen', out')" "seen = map beGroup out" "distinct seen"
  shows "distinct (map beGroup out')"
proof -
  have "case (j, seen', out') of (i, seen, out) \<Rightarrow> seen = map beGroup out \<and> distinct seen"
  proof (rule foldR_invariant [OF assms(1), where P = "\<lambda>(i, seen, out). seen = map beGroup out \<and> distinct seen"])
    show "case (i, seen, out) of (i, seen, out) \<Rightarrow> seen = map beGroup out \<and> distinct seen" using assms(2,3) by simp
    fix s x s' assume "case s of (i, seen, out) \<Rightarrow> seen = map beGroup out \<and> distinct seen" "add_backend A s x = Inr s'"
    then show "case s' of (i, seen, out) \<Rightarrow> seen = map beGroup out \<and> distinct seen"
      by (auto simp: add_backend_def result_inr Let_def split: prod.splits)
  qed
  then show ?thesis by auto
qed

lemma registerAPI_groups:
  assumes "registerAPI dec A pd cfg = Inr h"
  shows "distinct (map beGroup (ahBackends h))"
  using assms add_backend_groups by (fastforce simp: registerAPI_def result_inr split: prod.splits)

definition broken :: "backend \<times> backend_result \<Rightarrow> bool" where
  "broken x \<longleftrightarrow> beRequired (fst x) \<and> \<not> resOk (snd x)"

definition answered :: "(backend \<times> backend_result) list \<Rightarrow> (string \<times> string) list" where
  "answered xs = map (\<lambda>(b, res). (beGroup b, resBody res)) (filter (\<lambda>x. resOk (snd x)) xs)"

definition skipped :: "(backend \<times> backend_result) list \<Rightarrow> string list" where
  "skipped xs = map (\<lambda>x. beGroup (fst x)) (filter (\<lambda>x. \<not> resOk (snd x)) xs)"

lemma merge_results_broken:
  "find broken xs = Some x \<Longrightarrow> merge_results xs merged omitted = Inl (if resTimeout (snd x) then 504 else 502)"
  by (induction xs merged omitted rule: merge_results.induct) (auto simp: broken_def split: if_splits)

lemma merge_results_ok:
  assumes "find broken xs = None" "distinct (map (\<lambda>x. beGroup (fst x)) xs)"
  shows "\<exists>m. merge_results xs merged omitted = Inr (m, omitted @ skipped xs)
    \<and> (\<forall>g. gm_get m g = (case map_of (answered xs) g of Some v \<Rightarrow> Some v | None \<Rightarrow> gm_get merged g))"
  using assms
proof (induction xs merged omitted rule: merge_results.induct)
  case (2 b res rest merged omitted)
  show ?case
  proof (cases "resOk res")
    case True
    then obtain m where m: "merge_results rest (gm_set (beGroup b) (resBody res) merged) omitted = Inr (m, omitted @ skipped rest)"
      "\<forall>g. gm_get m g = (case map_of (answered rest) g of Some v \<Rightarrow> Some v | None \<Rightarrow> gm_get (gm_set (beGroup b) (resBody res) merged) g)"
      using 2 by (auto simp: broken_def)
    have "map_of (answered rest) (beGroup b) = None"
      using 2(4) by (force simp: answered_def map_of_eq_None_iff)
    with m True show ?thesis by (auto simp: answered_def skipped_def gm_get_set split: option.splits)
  next
    case False
    with 2 show ?thesis by (auto simp: broken_def answered_def skipped_def)
  qed
qed (simp add: skipped_def answered_def)

text \<open>All required backends or an error: when a required backend failed the client gets a gateway error (504 if the first such
  one timed out) and nothing of the others; otherwise it gets 200 and a document that maps exactly the groups
  that answered to their bodies, and \<open>X-Hog-Partial\<close> lists the optional groups that are missing.\<close>

theorem api_all_or_error:
  assumes "registerAPI dec A pd cfg = Inr h" "length results = length (ahBackends h)"
    and "wStatus (resp w) = None" "wBody (resp w) = []"
  shows "case find broken (zip (ahBackends h) results) of
      Some x \<Rightarrow> wStatus (resp (api_answer A (ahBackends h) results w)) = Some (if resTimeout (snd x) then 504 else 502)
        \<and> wBody (resp (api_answer A (ahBackends h) results w)) = ''upstream error'' @ [CHR 0x0A]
    | None \<Rightarrow> \<exists>m. wStatus (resp (api_answer A (ahBackends h) results w)) = Some 200
        \<and> wBody (resp (api_answer A (ahBackends h) results w)) = aeEncode A m
        \<and> (\<forall>g. gm_get m g = map_of (answered (zip (ahBackends h) results)) g)
        \<and> (skipped (zip (ahBackends h) results) \<noteq> [] \<longrightarrow>
            wGet (api_answer A (ahBackends h) results w) ''X-Hog-Partial'' = Join (skipped (zip (ahBackends h) results)) '','')"
proof (cases "find broken (zip (ahBackends h) results)")
  case (Some x)
  then show ?thesis using assms(3,4)
    by (simp add: api_answer_def merge_results_broken [OF Some] httpError_status)
       (simp add: httpError_def Write_def WriteHeader_def wSet_def wDel_def sendStatus_def Let_def)
next
  case None
  have "distinct (map (\<lambda>x. beGroup (fst x)) (zip (ahBackends h) results))"
    using registerAPI_groups [OF assms(1)] assms(2) by (simp add: map_zip_map flip: map_map [of beGroup fst, unfolded comp_def])
  from merge_results_ok [OF None this, of "[]" "[]"] obtain m where
    m: "merge_results (zip (ahBackends h) results) [] [] = Inr (m, skipped (zip (ahBackends h) results))"
    "\<forall>g. gm_get m g = map_of (answered (zip (ahBackends h) results)) g"
    by (elim exE conjE) (simp add: option.case_eq_if)
  have "CanonicalHeaderKey ''X-Hog-Partial'' \<noteq> CanonicalHeaderKey ''Content-Type''" by code_simp
  then show ?thesis
    using None m assms(3,4)
    by (simp add: api_answer_def Let_def Write_status WriteHeader_status)
       (auto intro!: exI [of _ m] simp: Write_def WriteHeader_def wSet_def sendStatus_def wGet_def Let_def)
qed

theorem api_all_or_error_witness:
  "\<exists>m. wBody (resp (api_answer demo_api_env (ahBackends demo_api)
        [\<lparr>resBody = ''1'', resOk = True, resTimeout = False\<rparr>, failed] (demo_world ()))) = aeEncode demo_api_env m
     \<and> gm_get m ''a'' = Some ''1'' \<and> gm_get m ''b'' = None"
proof -
  let ?res = "[\<lparr>resBody = ''1'', resOk = True, resTimeout = False\<rparr>, failed]"
  let ?w = "demo_world ()"
  have "length ?res = length (ahBackends demo_api)" "wStatus (resp ?w) = None" "wBody (resp ?w) = []"
    "find broken (zip (ahBackends demo_api) ?res) = None"
    "map_of (answered (zip (ahBackends demo_api) ?res)) ''a'' = Some ''1''"
    "map_of (answered (zip (ahBackends demo_api) ?res)) ''b'' = None"
    by code_simp+
  with api_all_or_error [OF demo_api_ok, of ?res ?w] show ?thesis by auto
qed

end
