(* ===== verification/Static_Files.thy ===== *)
theory Static_Files
  imports Http_Model Go_Path
begin

text \<open>
  The static file handler (\<^verbatim>\<open>src/terminal/static.go\<close>). A served directory is the argument
  \<open>root\<close>, the two methods of \<open>os.Root\<close> the handler uses, which read the external state;
  \<open>http.ServeContent\<close> is an argument. Log lines are left out.
\<close>

section \<open>Request paths\<close>

definition dot_seg :: "string \<Rightarrow> bool" where
  "dot_seg seg \<longleftrightarrow> seg \<noteq> [] \<and> seg \<noteq> ''.'' \<and> HasPrefix seg ''.''"

definition cleanRequestPath :: "string \<Rightarrow> string \<Rightarrow> string option" where
  "cleanRequestPath urlPath stripPrefix =
     (let p0 = (if stripPrefix \<noteq> [] then TrimPrefix urlPath stripPrefix else urlPath);
          p = TrimPrefix p0 ''/''
      in if list_ex dot_seg (Split slash p) then None
         else let c = Clean p in if c = ''.'' then Some [] else Some c)"

section \<open>The handler\<close>

record file_info =
  fiIsDir :: bool
  fiSize :: int
  fiModTime :: int

record open_file =
  fStat :: "file_info option"
  fContent :: string

record 'st root =
  rtStat :: "string \<Rightarrow> 'st \<Rightarrow> file_info option"
  rtOpen :: "string \<Rightarrow> 'st \<Rightarrow> open_file option"

record static_config =
  scDir :: string
  scIndex :: string
  scSPAFallback :: "bool option"
  scStripPrefix :: string
  scCacheControl :: string

record 'st static_handler =
  shRoot :: "'st root"
  shIndex :: string
  shSPAFallback :: bool
  shStripPrefix :: string
  shCacheControl :: string

datatype static_error = StaticDecode string | DirRequired | OpenDir string

definition registerStatic :: "('n \<Rightarrow> (string, static_config) result) \<Rightarrow> (string \<Rightarrow> (string, 'st root) result) \<Rightarrow> 'n
    \<Rightarrow> (static_error, 'st static_handler) result" where
  "registerStatic dec openRoot cfg =
     bindR (mapErr StaticDecode (dec cfg)) (\<lambda>sc.
     guardR (scDir sc = []) DirRequired (
     bindR (mapErr OpenDir (openRoot (scDir sc))) (\<lambda>root.
     Inr \<lparr>shRoot = root,
          shIndex = (if scIndex sc = [] then ''index.html'' else scIndex sc),
          shSPAFallback = (case scSPAFallback sc of None \<Rightarrow> True | Some b \<Rightarrow> b),
          shStripPrefix = scStripPrefix sc,
          shCacheControl = scCacheControl sc\<rparr>)))"

text \<open>\<open>fmt.Sprintf("%x", n)\<close> of a signed integer.\<close>

function hex_nat :: "nat \<Rightarrow> string" where
  "hex_nat n = (if n < 16 then [hex_digit n] else hex_nat (n div 16) @ [hex_digit (n mod 16)])"
  by pat_completeness auto
termination by (relation "measure (\<lambda>n. n)") auto

declare hex_nat.simps [simp del]

definition hex_int :: "int \<Rightarrow> string" where
  "hex_int i = (if i < 0 then CHR ''-'' # hex_nat (nat (- i)) else hex_nat (nat i))"

definition etag :: "file_info \<Rightarrow> string" where
  "etag fi = [CHR 0x22] @ hex_int (fiSize fi) @ ''-'' @ hex_int (fiModTime fi) @ [CHR 0x22]"

type_synonym 'st content_server = "request \<Rightarrow> string \<Rightarrow> int \<Rightarrow> string \<Rightarrow> 'st world \<Rightarrow> 'st world"

text \<open>\<open>None\<close> is \<open>handled = false\<close>: the caller falls back.\<close>

definition serveFile :: "'st content_server \<Rightarrow> 'st static_handler \<Rightarrow> request \<Rightarrow> string \<Rightarrow> 'st world \<Rightarrow> 'st world option" where
  "serveFile serveContent h r name w =
     (case rtOpen (shRoot h) name (ext w) of
        None \<Rightarrow> None
      | Some f \<Rightarrow>
          (case fStat f of
             None \<Rightarrow> Some (httpError ''internal error'' 500 w)
           | Some fi \<Rightarrow>
               if fiIsDir fi then None
               else
                 let w1 = (if Base name = shIndex h then wSet ''Cache-Control'' ''no-cache'' w
                           else if shCacheControl h \<noteq> [] then wSet ''Cache-Control'' (shCacheControl h) w else w);
                     w2 = wSet ''ETag'' (etag fi) w1
                 in Some (serveContent r name (fiModTime fi) (fContent f) w2)))"

definition target_name :: "'st static_handler \<Rightarrow> string \<Rightarrow> 'st \<Rightarrow> string" where
  "target_name h rel s =
     (if rel = [] then shIndex h
      else case rtStat (shRoot h) rel s of
        Some fi \<Rightarrow> if fiIsDir fi then PathJoin [rel, shIndex h] else rel
      | None \<Rightarrow> rel)"

definition static_ServeHTTP :: "'st content_server \<Rightarrow> 'st static_handler \<Rightarrow> 'st handler" where
  "static_ServeHTTP serveContent h r w =
     (if rMethod r \<noteq> ''GET'' \<and> rMethod r \<noteq> ''HEAD''
      then Done (httpError ''method not allowed'' 405 (wSet ''Allow'' ''GET, HEAD'' w))
      else case cleanRequestPath (rPath r) (shStripPrefix h) of
        None \<Rightarrow> Done (NotFound w)
      | Some rel \<Rightarrow>
          (case serveFile serveContent h r (target_name h rel (ext w)) w of
             Some w1 \<Rightarrow> Done w1
           | None \<Rightarrow>
               if shSPAFallback h \<and> Ext rel = [] then
                 (case serveFile serveContent h r (shIndex h) w of
                    Some w1 \<Rightarrow> Done w1
                  | None \<Rightarrow> Done (NotFound w))
               else Done (NotFound w)))"

section \<open>Confinement\<close>

text \<open>A name none of whose segments is a dotfile, \<open>.\<close> or \<open>..\<close>.\<close>

definition plain_name :: "string \<Rightarrow> bool" where
  "plain_name n \<longleftrightarrow> (\<forall>seg \<in> set (Split slash n). \<not> HasPrefix seg ''.'')"

lemma plain_Join:
  assumes "\<forall>s \<in> set segs. slash \<notin> set s \<and> \<not> HasPrefix s ''.''"
  shows "plain_name (Join segs ''/'')" "plain_name (slash # Join segs ''/'')"
proof -
  have "\<forall>seg \<in> set (Split slash (Join segs ''/'')). \<not> HasPrefix seg ''.''"
    using assms Split_Join [of segs slash] by (cases "segs = []") auto
  then show "plain_name (Join segs ''/'')" "plain_name (slash # Join segs ''/'')" by (auto simp: plain_name_def)
qed

abbreviation kept_segs :: "string \<Rightarrow> string list" where
  "kept_segs p \<equiv> filter (\<lambda>s. s \<noteq> [] \<and> s \<noteq> ''.'') (Split slash p)"

lemma Clean_segs:
  assumes "\<not> list_ex dot_seg (Split slash p)"
  shows "Clean p = (if HasPrefix p ''/'' then slash # Join (kept_segs p) ''/''
      else if Join (kept_segs p) ''/'' = [] then ''.'' else Join (kept_segs p) ''/'')"
    and "\<forall>s \<in> set (kept_segs p). slash \<notin> set s \<and> \<not> HasPrefix s ''.''"
proof -
  have nd: "\<not> dot_seg s" if "s \<in> set (Split slash p)" for s using assms that unfolding list_ex_iff by blast
  have "\<not> dot_seg s \<Longrightarrow> s \<noteq> ''..''" for s unfolding dot_seg_def by auto
  with nd have "\<forall>s \<in> set (Split slash p). s \<noteq> ''..''" by blast
  then have "clean_segs rooted (Split slash p) = kept_segs p" for rooted by (rule clean_segs_plain)
  then show "Clean p = (if HasPrefix p ''/'' then slash # Join (kept_segs p) ''/''
      else if Join (kept_segs p) ''/'' = [] then ''.'' else Join (kept_segs p) ''/'')"
    by (simp only: Clean_def Let_def)
  show "\<forall>s \<in> set (kept_segs p). slash \<notin> set s \<and> \<not> HasPrefix s ''.''"
  proof
    fix s assume "s \<in> set (kept_segs p)"
    then have s: "s \<in> set (Split slash p)" "s \<noteq> []" "s \<noteq> ''.''" by simp_all
    then show "slash \<notin> set s \<and> \<not> HasPrefix s ''.''" using nd [OF s(1)] Split_pieces [OF s(1)] unfolding dot_seg_def by blast
  qed
qed

lemma Join_kept: "kept_segs p \<noteq> [] \<Longrightarrow> Join (kept_segs p) ''/'' \<noteq> []"
proof -
  have "\<forall>s \<in> set (kept_segs p). s \<noteq> []" by simp
  then show "kept_segs p \<noteq> [] \<Longrightarrow> ?thesis" using Join_eq_Nil by blast
qed

lemma Clean_plain:
  assumes "\<not> list_ex dot_seg (Split slash p)"
  shows "Clean p = ''.'' \<and> kept_segs p = [] \<or> plain_name (Clean p)"
proof -
  define body where "body = Join (kept_segs p) ''/''"
  have plain: "plain_name body" "plain_name (slash # body)"
    unfolding body_def by (rule plain_Join [OF Clean_segs(2) [OF assms]])+
  have c: "Clean p = (if HasPrefix p ''/'' then slash # body else if body = [] then ''.'' else body)"
    unfolding body_def by (rule Clean_segs(1) [OF assms])
  have "body = [] \<Longrightarrow> kept_segs p = []" using Join_kept unfolding body_def by blast
  with plain c show ?thesis by (cases "HasPrefix p ''/''"; cases "body = []") simp_all
qed

lemma cleanRequestPath_plain:
  assumes "cleanRequestPath u s = Some rel"
  shows "rel = [] \<or> plain_name rel"
proof -
  obtain p where p: "\<not> list_ex dot_seg (Split slash p)" "rel = (if Clean p = ''.'' then [] else Clean p)"
    using assms unfolding cleanRequestPath_def Let_def by (metis option.distinct(1) option.inject)
  from Clean_plain [OF p(1)] p(2) show ?thesis by argo
qed

text \<open>An index file is one plain segment.\<close>

definition index_ok :: "string \<Rightarrow> bool" where
  "index_ok idx \<longleftrightarrow> idx \<noteq> [] \<and> slash \<notin> set idx \<and> \<not> HasPrefix idx ''.''"

lemma index_plain: "index_ok idx \<Longrightarrow> plain_name idx"
  unfolding index_ok_def plain_name_def by (simp add: Split_no_sep)

lemma Split_sep_append: "Split c (a @ c # b) = Split c a @ Split c b"
proof (induction a)
  case (Cons x a)
  then show ?case by (cases "Split c a") (simp_all add: Split_nonempty)
qed simp

lemma PathJoin_plain:
  assumes "plain_name rel" "rel \<noteq> []" "index_ok idx"
  shows "plain_name (PathJoin [rel, idx])"
proof -
  have split: "Split slash (rel @ ''/'' @ idx) = Split slash rel @ [idx]"
    using assms(3) by (simp add: Split_sep_append index_ok_def Split_no_sep)
  have "\<not> dot_seg s" if "s \<in> set (Split slash rel) \<or> s = idx" for s
    using that assms(1,3) unfolding plain_name_def dot_seg_def index_ok_def by metis
  then have d: "\<not> list_ex dot_seg (Split slash (rel @ ''/'' @ idx))" unfolding split list_ex_iff by auto
  have "idx \<in> set (kept_segs (rel @ ''/'' @ idx))"
    using split assms(3) unfolding index_ok_def by auto
  then have "kept_segs (rel @ ''/'' @ idx) \<noteq> []" by (metis empty_iff list.set(1))
  moreover have "PathJoin [rel, idx] = Clean (rel @ ''/'' @ idx)"
    using assms(2,3) by (simp add: PathJoin_def index_ok_def Let_def)
  ultimately show ?thesis using Clean_plain [OF d] by metis
qed

text \<open>Two directories that look alike but for hidden names.\<close>

definition agree_plain :: "'st root \<Rightarrow> 'st root \<Rightarrow> bool" where
  "agree_plain R R' \<longleftrightarrow> (\<forall>n s. plain_name n \<longrightarrow> rtStat R n s = rtStat R' n s \<and> rtOpen R n s = rtOpen R' n s)"

lemma target_plain:
  assumes "rel = [] \<or> plain_name rel" "index_ok (shIndex h)"
  shows "plain_name (target_name h rel s)"
  using assms index_plain PathJoin_plain by (auto simp: target_name_def split: option.split)

lemma serveFile_agree:
  assumes "agree_plain (shRoot h) R'" "plain_name n"
  shows "serveFile sc (h\<lparr>shRoot := R'\<rparr>) r n w = serveFile sc h r n w"
  using assms by (auto simp: serveFile_def agree_plain_def Let_def split: option.split)

text \<open>C30. Hidden files stay hidden: the handler's answer does not depend on any file or directory whose path has
  a segment that starts with a dot (\<open>.env\<close>, \<open>.git\<close>, \<open>..\<close>), whatever the request
  path and wherever the prefix is stripped.\<close>

theorem static_hides_dotfiles:
  assumes "agree_plain (shRoot h) R'" "index_ok (shIndex h)"
  shows "static_ServeHTTP sc (h\<lparr>shRoot := R'\<rparr>) r w = static_ServeHTTP sc h r w"
proof (cases "cleanRequestPath (rPath r) (shStripPrefix h)")
  case None
  then show ?thesis by (simp add: static_ServeHTTP_def)
next
  case (Some rel)
  from cleanRequestPath_plain [OF Some] have rel: "rel = [] \<or> plain_name rel" .
  have "rel = [] \<or> rtStat (shRoot h) rel s = rtStat R' rel s" for s
    using rel assms(1) unfolding agree_plain_def by blast
  then have t: "target_name (h\<lparr>shRoot := R'\<rparr>) rel s = target_name h rel s" for s
    by (auto simp: target_name_def split: option.split)
  have "serveFile sc (h\<lparr>shRoot := R'\<rparr>) r (target_name h rel s) w = serveFile sc h r (target_name h rel s) w" for s
    by (rule serveFile_agree [OF assms(1) target_plain [OF rel assms(2)]])
  moreover have "serveFile sc (h\<lparr>shRoot := R'\<rparr>) r (shIndex h) w = serveFile sc h r (shIndex h) w"
    by (rule serveFile_agree [OF assms(1) index_plain [OF assms(2)]])
  ultimately show ?thesis by (auto simp: static_ServeHTTP_def Some t split: option.split)
qed

definition demo_root :: "(string \<times> string) list \<Rightarrow> unit root" where
  "demo_root fs = \<lparr>rtStat = (\<lambda>n s. None),
     rtOpen = (\<lambda>n s. map_option (\<lambda>c. \<lparr>fStat = Some \<lparr>fiIsDir = False, fiSize = int (length c), fiModTime = 0\<rparr>, fContent = c\<rparr>) (map_of fs n))\<rparr>"

definition demo_static :: "(string \<times> string) list \<Rightarrow> unit static_handler" where
  "demo_static fs = \<lparr>shRoot = demo_root fs, shIndex = ''index.html'', shSPAFallback = True, shStripPrefix = [], shCacheControl = []\<rparr>"

definition demo_content :: "unit content_server" where
  "demo_content r name t c w = Write c w"

theorem static_hides_dotfiles_witness:
  "static_ServeHTTP demo_content (demo_static [(''.env'', ''secret'')]) (demo_request\<lparr>rPath := ''/.env''\<rparr>) (demo_world ())
   = static_ServeHTTP demo_content (demo_static []) (demo_request\<lparr>rPath := ''/.env''\<rparr>) (demo_world ())"
proof -
  have "\<not> plain_name ''.env''" by code_simp
  then have "agree_plain (demo_root []) (demo_root [(''.env'', ''secret'')])"
    unfolding agree_plain_def demo_root_def by (metis (no_types, lifting) map_of_Cons_code root.select_convs)
  moreover have "index_ok ''index.html''" by code_simp
  ultimately show ?thesis
    using static_hides_dotfiles [of "demo_static []" "demo_root [(''.env'', ''secret'')]" demo_content]
    by (simp add: demo_static_def)
qed

text \<open>A client route of a single-page app reaches its shell: a path without extension that names no file is answered
  with the index, and never cached; a missing file with an extension is a 404.\<close>

theorem static_spa_fallback:
  fixes h :: "'st static_handler"
  assumes "rMethod r = ''GET''" "cleanRequestPath (rPath r) (shStripPrefix h) = Some rel" "rel \<noteq> []"
    and "rtStat (shRoot h) rel (ext w) = None" "rtOpen (shRoot h) rel (ext w) = None"
    and idx: "rtOpen (shRoot h) (shIndex h) (ext w) = Some f" "fStat f = Some fi" "\<not> fiIsDir fi" "Base (shIndex h) = shIndex h"
  shows "static_ServeHTTP sc h r w =
    (if shSPAFallback h \<and> Ext rel = []
     then Done (sc r (shIndex h) (fiModTime fi) (fContent f) (wSet ''ETag'' (etag fi) (wSet ''Cache-Control'' ''no-cache'' w)))
     else Done (NotFound w))"
  using assms by (simp add: static_ServeHTTP_def target_name_def serveFile_def)

theorem static_spa_fallback_witness:
  "static_ServeHTTP demo_content (demo_static [(''index.html'', ''app'')]) (demo_request\<lparr>rPath := ''/users/7''\<rparr>) (demo_world ()) =
   Done (Write ''app'' (wSet ''ETag'' (etag \<lparr>fiIsDir = False, fiSize = 3, fiModTime = 0\<rparr>) (wSet ''Cache-Control'' ''no-cache'' (demo_world ()))))"
proof -
  let ?h = "demo_static [(''index.html'', ''app'')]"
  have "cleanRequestPath ''/users/7'' [] = Some ''users/7''" "Base ''index.html'' = ''index.html''" "Ext ''users/7'' = []"
    by code_simp+
  then show ?thesis
    using static_spa_fallback [of "demo_request\<lparr>rPath := ''/users/7''\<rparr>" ?h "''users/7''" "demo_world ()"
        "\<lparr>fStat = Some \<lparr>fiIsDir = False, fiSize = 3, fiModTime = 0\<rparr>, fContent = ''app''\<rparr>" "\<lparr>fiIsDir = False, fiSize = 3, fiModTime = 0\<rparr>" demo_content]
    by (simp add: demo_static_def demo_root_def demo_request_def demo_content_def)
qed

end
