(* ===== verification/Entry_Point.thy ===== *)
theory Entry_Point
  imports Hog_Build Runtime Aggregate Static_Files
begin

text \<open>
  The two programs of the repository: the gateway (\<^verbatim>\<open>src/hog.go\<close>, \<^verbatim>\<open>src/cmd/hog/main.go\<close>) and the
  composer (\<^verbatim>\<open>src/cmd/hog-build/main.go\<close>), from their command lines to their exit codes, and the modules
  every gateway brings along (\<^verbatim>\<open>src/terminal/health.go\<close>, \<^verbatim>\<open>src/idp/register.go\<close>). Command lines
  are read by Go's \<open>flag\<close> package, which is modelled for the flags the programs declare. An argument list is
  \<open>os.Args\<close> without the name of the program. Cancellation by a signal is the \<open>Cancelled\<close> end of a run; the
  messages on standard error are left out.
\<close>

section \<open>The flag package\<close>

datatype flag_error =
    HelpRequested
  | BadFlagSyntax string
  | UndefinedFlag string
  | InvalidBool string string
  | NeedsArgument string
  | InvalidValue string string

text \<open>A flag is what setting it does to the parsed options; a boolean flag needs no argument.\<close>

datatype 'o flag = ValueFlag "string \<Rightarrow> 'o \<Rightarrow> 'o option" | BoolFlag "bool \<Rightarrow> 'o \<Rightarrow> 'o"

definition ParseBool :: "string \<Rightarrow> bool option" where
  "ParseBool s =
     (if s \<in> set [''1'', ''t'', ''T'', ''true'', ''TRUE'', ''True''] then Some True
      else if s \<in> set [''0'', ''f'', ''F'', ''false'', ''FALSE'', ''False''] then Some False
      else None)"

text \<open>A flag's name and the value after its first equals sign, which cannot be its first character.\<close>

definition flag_value :: "string \<Rightarrow> string \<times> string option" where
  "flag_value name =
     (case Cut (tl name) ''='' of None \<Rightarrow> (name, None) | Some (before, after) \<Rightarrow> (hd name # before, Some after))"

definition set_value :: "string \<Rightarrow> (string \<Rightarrow> 'o \<Rightarrow> 'o option) \<Rightarrow> string \<Rightarrow> string list \<Rightarrow> 'o
    \<Rightarrow> (flag_error, bool \<times> string list \<times> 'o) result" where
  "set_value name f v args opts =
     (case f v opts of None \<Rightarrow> Inl (InvalidValue v name) | Some o1 \<Rightarrow> Inr (True, args, o1))"

definition set_flag :: "(string, 'o flag) gomap \<Rightarrow> string \<Rightarrow> string option \<Rightarrow> string list \<Rightarrow> 'o
    \<Rightarrow> (flag_error, bool \<times> string list \<times> 'o) result" where
  "set_flag formal name val args opts =
     (case gm_get formal name of
        None \<Rightarrow> Inl (if name = ''help'' \<or> name = ''h'' then HelpRequested else UndefinedFlag name)
      | Some (BoolFlag f) \<Rightarrow>
          (case val of
             None \<Rightarrow> Inr (True, args, f True opts)
           | Some v \<Rightarrow> (case ParseBool v of None \<Rightarrow> Inl (InvalidBool v name) | Some b \<Rightarrow> Inr (True, args, f b opts)))
      | Some (ValueFlag f) \<Rightarrow>
          (case val of
             Some v \<Rightarrow> set_value name f v args opts
           | None \<Rightarrow>
               (case args of
                  [] \<Rightarrow> Inl (NeedsArgument name)
                | v # rest \<Rightarrow> set_value name f v rest opts)))"

text \<open>One argument; the flag in the result is false when the flags end here.\<close>

definition parseOne :: "(string, 'o flag) gomap \<Rightarrow> string list \<Rightarrow> 'o \<Rightarrow> (flag_error, bool \<times> string list \<times> 'o) result" where
  "parseOne formal args opts =
     (case args of
        [] \<Rightarrow> Inr (False, args, opts)
      | s # rest \<Rightarrow>
          if length s < 2 \<or> s ! 0 \<noteq> CHR ''-'' then Inr (False, args, opts)
          else if s = ''--'' then Inr (False, rest, opts)
          else
            let name = (if s ! 1 = CHR ''-'' then drop 2 s else drop 1 s) in
            if name ! 0 = CHR ''-'' \<or> name ! 0 = CHR ''='' then Inl (BadFlagSyntax s)
            else case flag_value name of (n, val) \<Rightarrow> set_flag formal n val rest opts)"

lemma set_flag_shorter: "set_flag formal n val args opts = Inr (b, args1, o1) \<Longrightarrow> length args1 \<le> length args"
  by (auto simp: set_flag_def set_value_def split: option.splits flag.splits list.splits if_splits)

lemma parseOne_shorter: "parseOne formal args opts = Inr (True, args1, o1) \<Longrightarrow> length args1 < length args"
  by (auto simp: parseOne_def Let_def less_Suc_eq_le dest!: set_flag_shorter split: list.splits if_splits prod.splits)

function parse_flags :: "(string, 'o flag) gomap \<Rightarrow> string list \<Rightarrow> 'o \<Rightarrow> (flag_error, 'o \<times> string list) result" where
  "parse_flags formal args opts =
     (case parseOne formal args opts of
        Inl e \<Rightarrow> Inl e
      | Inr (seen, args1, o1) \<Rightarrow> if seen then parse_flags formal args1 o1 else Inr (o1, args1))"
  by pat_completeness auto
termination
  by (relation "measure (\<lambda>(formal, args, opts). length args)") (auto dest!: parseOne_shorter)

declare parse_flags.simps [simp del]

text \<open>\<open>flag.Parse\<close> exits: with 0 after a request for help, with 2 on any other failure.\<close>

definition flag_exit :: "flag_error \<Rightarrow> nat" where
  "flag_exit e = (case e of HelpRequested \<Rightarrow> 0 | _ \<Rightarrow> 2)"

section \<open>Built-in modules\<close>

text \<open>Decoding an absent specification leaves the zero value.\<close>

definition raw_Decode :: "'a \<Rightarrow> ('n \<Rightarrow> (string, 'a) result) \<Rightarrow> 'n option \<Rightarrow> (string, 'a) result" where
  "raw_Decode zero dec cfg = (case cfg of None \<Rightarrow> Inr zero | Some n \<Rightarrow> dec n)"

definition zero_static :: static_config where
  "zero_static = \<lparr>scDir = [], scIndex = [], scSPAFallback = None, scStripPrefix = [], scCacheControl = []\<rparr>"

definition zero_proxy :: proxy_config where
  "zero_proxy = \<lparr>pcUpstream = [], pcStripPrefix = [], pcPreserveHost = False, pcForwardAccessToken = False,
     pcForwardCookies = False, pcForwardIdentity = False, pcTimeout = [], pcInsecureSkipVerify = False\<rparr>"

definition zero_api :: api_config where
  "zero_api = \<lparr>acTimeout = [], acBackends = []\<rparr>"

definition zero_oidc :: oidc_config where
  "zero_oidc = \<lparr>ocType = [], ocIssuer = [], ocClientID = [], ocClientSecret = [], ocRedirectURL = [],
     ocVerificationOnly = False, ocBearerAudience = [], ocBearer = None, ocScopes = [], ocPKCE = None\<rparr>"

text \<open>What the built-in modules use of the libraries: decoders, parsers, the file system, transports, the order in which
  concurrent backend calls complete, and the texts of their errors. \<open>bnStart\<close> is the outside world at start-up,
  which discovery asks.\<close>

record ('n, 'st) builtin_env =
  bnStatic :: "'n \<Rightarrow> (string, static_config) result"
  bnOpenRoot :: "string \<Rightarrow> (string, 'st root) result"
  bnContent :: "'st content_server"
  bnProxy :: "'n \<Rightarrow> (string, proxy_config) result"
  bnParseTarget :: "string \<Rightarrow> target_url option"
  bnParseDuration :: "string \<Rightarrow> (string, int) result"
  bnTransport :: "bool \<Rightarrow> int \<Rightarrow> 'st transport"
  bnApi :: "'n \<Rightarrow> (string, api_config) result"
  bnApiEnv :: api_env
  bnApiTransport :: "int \<Rightarrow> 'st api_transport"
  bnOrder :: "api_handler \<Rightarrow> request \<Rightarrow> 'st world \<Rightarrow> nat list"
  bnOidc :: "'n \<Rightarrow> (string, oidc_config) result"
  bnOidcLib :: "'st oidc_lib"
  bnParseURL :: "string \<Rightarrow> url option"
  bnStart :: 'st
  bnStaticText :: "string \<Rightarrow> static_error \<Rightarrow> string"
  bnProxyText :: "string \<Rightarrow> handler_error \<Rightarrow> string"
  bnApiText :: "string \<Rightarrow> api_error \<Rightarrow> string"
  bnOidcText :: "string \<Rightarrow> oidc_error \<Rightarrow> string"

type_synonym ('n, 'st) module_factory = "string \<Rightarrow> 'n option \<Rightarrow> (app_error, 'st module) result"

definition health_module :: "('n, 'st) module_factory" where
  "health_module name cfg = Inr (HandlerModule health_handler)"

definition static_module :: "('n, 'st) builtin_env \<Rightarrow> ('n, 'st) module_factory" where
  "static_module B name cfg =
     bindR (mapErr (FactoryErr \<circ> bnStaticText B name) (registerStatic (raw_Decode zero_static (bnStatic B)) (bnOpenRoot B) cfg)) (\<lambda>h.
     Inr (HandlerModule (static_ServeHTTP (bnContent B) h)))"

definition proxy_module :: "('n, 'st) builtin_env \<Rightarrow> ('n, 'st) module_factory" where
  "proxy_module B name cfg =
     bindR (mapErr (FactoryErr \<circ> bnProxyText B name)
       (registerProxy (raw_Decode zero_proxy (bnProxy B)) (bnParseTarget B) (bnParseDuration B) cfg)) (\<lambda>h.
     Inr (HandlerModule (proxy_ServeHTTP (bnTransport B) h)))"

definition api_module :: "('n, 'st) builtin_env \<Rightarrow> ('n, 'st) module_factory" where
  "api_module B name cfg =
     bindR (mapErr (FactoryErr \<circ> bnApiText B name)
       (registerAPI (raw_Decode zero_api (bnApi B)) (bnApiEnv B) (bnParseDuration B) cfg)) (\<lambda>h.
     Inr (HandlerModule (\<lambda>r w. api_ServeHTTP (bnApiEnv B) (bnApiTransport B) (bnOrder B h r w) h r w)))"

definition oidc_module :: "('n, 'st) builtin_env \<Rightarrow> ('n, 'st) module_factory" where
  "oidc_module B name cfg =
     bindR (mapErr (FactoryErr \<circ> bnOidcText B name)
       (fst (idp_factory (raw_Decode zero_oidc (bnOidc B)) (bnOidcLib B) (bnParseURL B) cfg (bnStart B)))) (\<lambda>i.
     Inr (IdpModule i))"

definition terminal_Register :: "('n, 'st) builtin_env \<Rightarrow> ('n, 'st) modules \<Rightarrow> (reg_error, ('n, 'st) modules) result" where
  "terminal_Register B reg = RegisterAll
     [(''TerminalHandler'', ''health'', health_module), (''TerminalHandler'', ''static'', static_module B),
      (''TerminalHandler'', ''reverse-proxy'', proxy_module B), (''TerminalHandler'', ''api'', api_module B)] reg"

definition idp_Register :: "('n, 'st) builtin_env \<Rightarrow> ('n, 'st) modules \<Rightarrow> (reg_error, ('n, 'st) modules) result" where
  "idp_Register B reg = Register ''IdP'' ''oidc'' (oidc_module B) reg"

section \<open>The gateway\<close>

text \<open>How a program ends: by exiting with a code (0 when main returns), or by a panic of the registry.\<close>

datatype program_end = Exited nat | RegistryPanic reg_error

text \<open>\<open>Run\<close>, called with the modules the plugins registered from their \<open>init\<close>.\<close>

definition hog_Run :: "('n, 'st) builtin_env \<Rightarrow> ('n, 'm, 'c) app_env \<Rightarrow> ('n, 'st) process \<Rightarrow> string \<Rightarrow> Runtime.event list
    \<Rightarrow> (reg_error, run_error option) result \<times> Runtime.event list" where
  "hog_Run B X P path h =
     (case bindR (terminal_Register B (prModules P)) (idp_Register B) of
        Inl e \<Rightarrow> (Inl e, h)
      | Inr reg \<Rightarrow> (case app_Run X (P\<lparr>prModules := reg\<rparr>) path h of (r, h1) \<Rightarrow> (Inr r, h1)))"

definition hog_flags :: "(string, string flag) gomap" where
  "hog_flags = [(''config'', ValueFlag (\<lambda>v opts. Some v))]"

text \<open>\<open>schema\<close> is the embedded schema, \<open>write\<close> the outcome of writing to standard output. The result is the
  end of the program, what it tried to write to standard output, and the events of the run.\<close>

definition hog_Main :: "string \<Rightarrow> (string \<Rightarrow> string option) \<Rightarrow> ('n, 'st) builtin_env \<Rightarrow> ('n, 'm, 'c) app_env \<Rightarrow> ('n, 'st) process
    \<Rightarrow> string list \<Rightarrow> program_end \<times> string list \<times> Runtime.event list" where
  "hog_Main schema write B X P args =
     (if args \<noteq> [] \<and> hd args = ''schema'' then
        (Exited (if write schema \<noteq> None then 1 else 0), [schema], [])
      else case parse_flags hog_flags args ''/etc/hog'' of
        Inl e \<Rightarrow> (Exited (flag_exit e), [], [])
      | Inr (cfgPath, rest) \<Rightarrow>
          (case hog_Run B X P cfgPath [] of
             (Inl e, h) \<Rightarrow> (RegistryPanic e, [], h)
           | (Inr (Some e), h) \<Rightarrow> (Exited 1, [], h)
           | (Inr None, h) \<Rightarrow> (Exited 0, [], h)))"

section \<open>The composer\<close>

record composer_flags =
  hfConfig :: string
  hfOptions :: build_options

definition set_option :: "(string \<Rightarrow> build_options \<Rightarrow> build_options) \<Rightarrow> composer_flags flag" where
  "set_option f = ValueFlag (\<lambda>v o1. Some (o1\<lparr>hfOptions := f v (hfOptions o1)\<rparr>))"

definition composer_formal :: "(string, composer_flags flag) gomap" where
  "composer_formal =
     [(''config'', ValueFlag (\<lambda>v o1. Some (o1\<lparr>hfConfig := v\<rparr>))),
      (''o'', set_option (\<lambda>v p. p\<lparr>boOutput := v\<rparr>)),
      (''hog-source'', set_option (\<lambda>v p. p\<lparr>boHogSource := v\<rparr>)),
      (''tags'', set_option (\<lambda>v p. p\<lparr>boTags := v\<rparr>)),
      (''go'', set_option (\<lambda>v p. p\<lparr>boGoBin := v\<rparr>)),
      (''keep'', BoolFlag (\<lambda>b o1. o1\<lparr>hfOptions := (hfOptions o1)\<lparr>boKeep := b\<rparr>\<rparr>)),
      (''replace'', ValueFlag (\<lambda>v o1. case replace_Set (boReplaces (hfOptions o1)) v of
           Inl e \<Rightarrow> None | Inr rs \<Rightarrow> Some (o1\<lparr>hfOptions := (hfOptions o1)\<lparr>boReplaces := rs\<rparr>\<rparr>)))]"

definition composer_defaults :: "string option \<Rightarrow> composer_flags" where
  "composer_defaults hogSource = \<lparr>hfConfig = [], hfOptions = \<lparr>boOutput = ''hog'',
     boHogSource = (case hogSource of None \<Rightarrow> [] | Some v \<Rightarrow> v), boReplaces = [], boTags = [], boGoBin = ''go'', boKeep = False\<rparr>\<rparr>"

definition composer_main :: "('n, 'm, 'c) app_env \<Rightarrow> 'n config_source \<Rightarrow> host \<Rightarrow> (nat \<Rightarrow> bool) \<Rightarrow> string list
    \<Rightarrow> nat \<times> Hog_Build.event list" where
  "composer_main X src H table args =
     (case parse_flags composer_formal args (composer_defaults (csEnv src ''HOG_SOURCE'')) of
        Inl e \<Rightarrow> (flag_exit e, [])
      | Inr (fl, rest) \<Rightarrow>
          if hfConfig fl = [] then (2, [])
          else if boHogSource (hfOptions fl) = [] then (2, [])
          else (case hb_Build X src H table (hfConfig fl) (hfOptions fl) [] of
                  (Some e, h) \<Rightarrow> (1, h)
                | (None, h) \<Rightarrow> (0, h)))"


section \<open>The modules of a gateway\<close>

definition builtin_module :: "('n, 'st) builtin_env \<Rightarrow> string \<Rightarrow> string \<Rightarrow> ('n, 'st) module_factory option" where
  "builtin_module B kind name =
     map_of [((''TerminalHandler'', ''health''), health_module), ((''TerminalHandler'', ''static''), static_module B),
             ((''TerminalHandler'', ''reverse-proxy''), proxy_module B), ((''TerminalHandler'', ''api''), api_module B),
             ((''IdP'', ''oidc''), oidc_module B)] (kind, name)"

definition builtin_list :: "('n, 'st) builtin_env \<Rightarrow> (string \<times> string \<times> ('n, 'st) module_factory) list" where
  "builtin_list B =
     [(''TerminalHandler'', ''health'', health_module), (''TerminalHandler'', ''static'', static_module B),
      (''TerminalHandler'', ''reverse-proxy'', proxy_module B), (''TerminalHandler'', ''api'', api_module B),
      (''IdP'', ''oidc'', oidc_module B)]"

lemma registers_list: "bindR (terminal_Register B reg) (idp_Register B) = RegisterAll (builtin_list B) reg"
  by (simp add: terminal_Register_def idp_Register_def RegisterAll_def builtin_list_def split: sum.splits)

lemma builtin_list_map: "map_of (map (\<lambda>(k, n, f). ((k, n), f)) (builtin_list B)) (k, n) = builtin_module B k n"
  by (simp add: builtin_list_def builtin_module_def)

lemma builtin_list_distinct: "distinct (map (\<lambda>(k, n, f). (k, n)) (builtin_list B))"
  by (simp add: builtin_list_def)

lemma builtin_module_iff: "builtin_module B k n \<noteq> None \<longleftrightarrow> (\<exists>f. (k, n, f) \<in> set (builtin_list B))"
  unfolding builtin_list_map [symmetric] map_of_eq_None_iff by force

lemma builtin_list_free:
  "(\<forall>(k, n, f) \<in> set (builtin_list B). Lookup reg k n = None) \<longleftrightarrow> \<not> (\<exists>k n. builtin_module B k n \<noteq> None \<and> Lookup reg k n \<noteq> None)"
  unfolding builtin_module_iff by auto

text \<open>C40. The modules of a running gateway are the built-in ones and those of its plugins. If a plugin has registered a module
  under the kind and name of a built-in one, start-up panics before anything happens; otherwise the gateway runs on a registry in
  which each of the five built-in modules is found under its name and every other name leads where the plugins put it.\<close>

theorem hog_Run_modules:
  "if \<exists>k n. builtin_module B k n \<noteq> None \<and> Lookup (prModules P) k n \<noteq> None
   then \<exists>e. hog_Run B X P path h = (Inl e, h)
   else \<exists>reg. hog_Run B X P path h = map_prod Inr (\<lambda>x. x) (app_Run X (P\<lparr>prModules := reg\<rparr>) path h)
     \<and> (\<forall>k n. Lookup reg k n = (case builtin_module B k n of Some f \<Rightarrow> Some f | None \<Rightarrow> Lookup (prModules P) k n))"
proof (cases "\<exists>k n. builtin_module B k n \<noteq> None \<and> Lookup (prModules P) k n \<noteq> None")
  case True
  then have "\<nexists>reg. RegisterAll (builtin_list B) (prModules P) = Inr reg"
    using hogreg.fold_register_ok [of "prModules P" "builtin_list B"] builtin_list_free [of B "prModules P"]
    unfolding RegisterAll_def by blast
  with True show ?thesis by (cases "RegisterAll (builtin_list B) (prModules P)") (auto simp: hog_Run_def registers_list)
next
  case False
  then obtain reg where reg: "RegisterAll (builtin_list B) (prModules P) = Inr reg"
    using hogreg.fold_register_ok [of "prModules P" "builtin_list B"] builtin_list_free [of B "prModules P"] builtin_list_distinct [of B]
    unfolding RegisterAll_def by blast
  have "Lookup reg k n = (case builtin_module B k n of Some f \<Rightarrow> Some f | None \<Rightarrow> Lookup (prModules P) k n)" for k n
    using hogreg.fold_register_find [OF reg [unfolded RegisterAll_def], of k n] by (simp add: builtin_list_map split: option.split)
  moreover have "hog_Run B X P path h = map_prod Inr (\<lambda>x. x) (app_Run X (P\<lparr>prModules := reg\<rparr>) path h)"
    by (simp add: hog_Run_def registers_list reg split: prod.split)
  ultimately have "\<exists>reg. hog_Run B X P path h = map_prod Inr (\<lambda>x. x) (app_Run X (P\<lparr>prModules := reg\<rparr>) path h)
     \<and> (\<forall>k n. Lookup reg k n = (case builtin_module B k n of Some f \<Rightarrow> Some f | None \<Rightarrow> Lookup (prModules P) k n))"
    by blast
  then show ?thesis by (simp only: if_not_P [OF False])
qed

section \<open>Command lines\<close>

lemma flag_value_plain: "CHR ''='' \<notin> set (tl name) \<Longrightarrow> flag_value name = (name, None)"
proof -
  assume "CHR ''='' \<notin> set (tl name)"
  then have "\<not> Contains (tl name) ''=''" by (simp add: Contains_char)
  then show ?thesis by (simp add: flag_value_def Cut_def Contains_def)
qed

text \<open>A name that can be given to a flag.\<close>

definition flag_name :: "string \<Rightarrow> bool" where
  "flag_name n \<longleftrightarrow> n \<noteq> [] \<and> hd n \<noteq> CHR ''-'' \<and> CHR ''='' \<notin> set n"

lemma parseOne_flag: "flag_name n \<Longrightarrow> parseOne formal ((''--'' @ n) # rest) opts = set_flag formal n None rest opts"
  by (cases n) (auto simp: flag_name_def parseOne_def flag_value_plain Let_def)

lemma parse_value:
  assumes "flag_name n" "gm_get formal n = Some (ValueFlag f)" "f v opts = Some o1"
  shows "parse_flags formal ((''--'' @ n) # v # rest) opts = parse_flags formal rest o1"
  using assms by (subst parse_flags.simps) (simp add: parseOne_flag set_flag_def set_value_def del: append_Cons append_Nil)

lemma parse_bool:
  assumes "flag_name n" "gm_get formal n = Some (BoolFlag f)"
  shows "parse_flags formal ((''--'' @ n) # rest) opts = parse_flags formal rest (f True opts)"
  using assms by (subst parse_flags.simps) (simp add: parseOne_flag set_flag_def del: append_Cons append_Nil)

lemma parse_end: "parse_flags formal [] opts = Inr (opts, [])"
  by (subst parse_flags.simps) (simp add: parseOne_def)

definition replace_args :: "replace list \<Rightarrow> string list" where
  "replace_args rs = concat (map (\<lambda>rp. [''--replace'', rpPath rp @ ''='' @ rpWith rp]) rs)"

definition command_line :: "string \<Rightarrow> build_options \<Rightarrow> string list" where
  "command_line cfg opts =
     [''--config'', cfg, ''--o'', boOutput opts, ''--hog-source'', boHogSource opts, ''--tags'', boTags opts, ''--go'', boGoBin opts]
     @ (if boKeep opts then [''--keep''] else []) @ replace_args (boReplaces opts)"

lemma formal_flags:
  "gm_get composer_formal ''config'' = Some (ValueFlag (\<lambda>v o1. Some (o1\<lparr>hfConfig := v\<rparr>)))"
  "gm_get composer_formal ''o'' = Some (set_option (\<lambda>v p. p\<lparr>boOutput := v\<rparr>))"
  "gm_get composer_formal ''hog-source'' = Some (set_option (\<lambda>v p. p\<lparr>boHogSource := v\<rparr>))"
  "gm_get composer_formal ''tags'' = Some (set_option (\<lambda>v p. p\<lparr>boTags := v\<rparr>))"
  "gm_get composer_formal ''go'' = Some (set_option (\<lambda>v p. p\<lparr>boGoBin := v\<rparr>))"
  "gm_get composer_formal ''keep'' = Some (BoolFlag (\<lambda>b o1. o1\<lparr>hfOptions := (hfOptions o1)\<lparr>boKeep := b\<rparr>\<rparr>))"
  "gm_get composer_formal ''replace'' = Some (ValueFlag (\<lambda>v o1. case replace_Set (boReplaces (hfOptions o1)) v of
           Inl e \<Rightarrow> None | Inr rs \<Rightarrow> Some (o1\<lparr>hfOptions := (hfOptions o1)\<lparr>boReplaces := rs\<rparr>\<rparr>)))"
  by (simp_all add: composer_formal_def)

lemma parse_option:
  assumes "flag_name n" "gm_get composer_formal n = Some (set_option f)"
  shows "parse_flags composer_formal ((''--'' @ n) # v # rest) fl = parse_flags composer_formal rest (fl\<lparr>hfOptions := f v (hfOptions fl)\<rparr>)"
  using assms by (intro parse_value) (auto simp: set_option_def)

lemma parse_replaces:
  assumes "\<forall>rp \<in> set rs. CHR ''='' \<notin> set (rpPath rp)"
  shows "parse_flags composer_formal (replace_args rs) fl = Inr (fl\<lparr>hfOptions := (hfOptions fl)\<lparr>boReplaces := boReplaces (hfOptions fl) @ rs\<rparr>\<rparr>, [])"
  using assms
proof (induction rs arbitrary: fl)
  case Nil
  then show ?case by (simp add: replace_args_def parse_end)
next
  case (Cons rp rs)
  have "replace_Set reps (rpPath rp @ CHR ''='' # rpWith rp) = Inr (reps @ [rp])" for reps
    using Cons.prems by (simp add: replace_Set_def Cut_fresh)
  then have "parse_flags composer_formal ((''--'' @ ''replace'') # (rpPath rp @ ''='' @ rpWith rp) # replace_args rs) fl
      = parse_flags composer_formal (replace_args rs) (fl\<lparr>hfOptions := (hfOptions fl)\<lparr>boReplaces := boReplaces (hfOptions fl) @ [rp]\<rparr>\<rparr>)"
    by (intro parse_value [OF _ formal_flags(7)]) (simp_all add: flag_name_def)
  with Cons show ?case by (simp add: replace_args_def)
qed

lemma parse_command_line:
  assumes "\<forall>rp \<in> set (boReplaces opts). CHR ''='' \<notin> set (rpPath rp)"
  shows "parse_flags composer_formal (command_line cfg opts) (composer_defaults env) = Inr (\<lparr>hfConfig = cfg, hfOptions = opts\<rparr>, [])"
proof -
  have names: "flag_name ''config''" "flag_name ''o''" "flag_name ''hog-source''" "flag_name ''tags''" "flag_name ''go''" "flag_name ''keep''"
    by (simp_all add: flag_name_def)
  have cl: "command_line cfg opts = (''--'' @ ''config'') # cfg # (''--'' @ ''o'') # boOutput opts # (''--'' @ ''hog-source'') # boHogSource opts
      # (''--'' @ ''tags'') # boTags opts # (''--'' @ ''go'') # boGoBin opts # (if boKeep opts then [''--'' @ ''keep''] else []) @ replace_args (boReplaces opts)"
    by (simp add: command_line_def)
  show ?thesis
    unfolding cl parse_value [OF names(1) formal_flags(1) refl] parse_option [OF names(2) formal_flags(2)] parse_option [OF names(3) formal_flags(3)]
      parse_option [OF names(4) formal_flags(4)] parse_option [OF names(5) formal_flags(5)]
    using parse_bool [OF names(6) formal_flags(6)] parse_replaces [OF assms] by (auto simp: composer_defaults_def)
qed

text \<open>The command line of the composer carries its options. For any configuration path and any options whose replaced import
  paths contain no equals sign, the flags written for them are read back as these options, whatever the values are (an empty
  string, one that starts with a dash) and whatever the environment names as the source; then the program builds with exactly
  these options and exits with 0 or 1 as the build succeeds or fails, and exits with 2 without any effect when the
  configuration or the source is missing.\<close>

theorem composer_command_line:
  assumes "\<forall>rp \<in> set (boReplaces opts). CHR ''='' \<notin> set (rpPath rp)"
  shows "composer_main X src H table (command_line cfg opts) =
    (if cfg = [] \<or> boHogSource opts = [] then (2, [])
     else case hb_Build X src H table cfg opts [] of (r, h) \<Rightarrow> (if r = None then 0 else 1, h))"
  using parse_command_line [OF assms, of cfg] by (auto simp: composer_main_def split: prod.split option.split)

definition demo_host :: host where
  "demo_host = \<lparr>haAbs = Inr, haTemp = (\<lambda>h. Inr ''/t''), haDo = (\<lambda>h e. None)\<rparr>"

lemma demo_plan: "build_plan demo_build_env demo_source demo_host ''c'' demo_options =
    Inr ([\<lparr>pgImportPath = ''a.b/p'', pgVersion = ''v1''\<rparr>], ''hog'', demo_options\<lparr>boGoBin := ''go''\<rparr>)"
proof -
  have "\<not> hasControl (boHogSource demo_options)"
    "\<not> list_ex (\<lambda>rp. hasControl (rpPath rp) \<or> hasControl (rpWith rp)) (boReplaces demo_options)" by code_simp+
  then show ?thesis
    by (simp add: build_plan_def demo_ReadManifest demo_host_def) (simp add: demo_options_def absReplaces_def hogModule_def)
qed

theorem composer_command_line_witness:
  "composer_main demo_build_env demo_source demo_host (\<lambda>r. True) (command_line ''c'' demo_options) =
     (0, [MkdirTemp] @ planned (\<lambda>r. True) (demo_options\<lparr>boGoBin := ''go''\<rparr>) ''hog'' [\<lparr>pgImportPath = ''a.b/p'', pgVersion = ''v1''\<rparr>] ''/t'' @ [RemoveAll ''/t''])"
proof -
  have r: "\<forall>rp \<in> set (boReplaces demo_options). CHR ''='' \<notin> set (rpPath rp)" by (simp add: demo_options_def)
  have ok: "all_ok demo_host es h" for es h by (induction es arbitrary: h) (simp_all add: demo_host_def)
  let ?d = "in_dir demo_host (\<lambda>r. True) (demo_options\<lparr>boGoBin := ''go''\<rparr>) ''hog'' [\<lparr>pgImportPath = ''a.b/p'', pgVersion = ''v1''\<rparr>] ''/t'' [MkdirTemp]"
  have "?d = (None, [MkdirTemp] @ planned (\<lambda>r. True) (demo_options\<lparr>boGoBin := ''go''\<rparr>) ''hog'' [\<lparr>pgImportPath = ''a.b/p'', pgVersion = ''v1''\<rparr>] ''/t'')"
    using implements_in_dir unfolding implements_def by (metis executed_all_ok ok prod.collapse)
  then have "hb_Build demo_build_env demo_source demo_host (\<lambda>r. True) ''c'' demo_options [] = (None, [MkdirTemp]
      @ planned (\<lambda>r. True) (demo_options\<lparr>boGoBin := ''go''\<rparr>) ''hog'' [\<lparr>pgImportPath = ''a.b/p'', pgVersion = ''v1''\<rparr>] ''/t'' @ [RemoveAll ''/t''])"
    by (simp add: hb_Build_def demo_plan) (simp add: demo_host_def demo_options_def)
  then show ?thesis using composer_command_line [OF r, of demo_build_env demo_source demo_host "\<lambda>r. True" "''c''"]
    by (simp add: demo_options_def)
qed

end
