(* ===== verification/Spec2Isabelle.thy ===== *)
theory Spec2Isabelle
  imports Keyed_Mutex Route_Safety Valkey_Store Entry_Point
begin

text \<open>
  A verification development for HOG (\<^verbatim>\<open>src\<close>), an application gateway written in Go: it serves static
  frontends, signs browsers in against an OpenID Connect provider, keeps their sessions, enforces access rules per route, and
  forwards requests to backends with the identity of the user. The theories follow the packages of the program; each opens
  with the files it translates, and definitions keep the names of the source.

  \<^bold>\<open>How the program is put together.\<close> \<open>hog_Main\<close> reads the command line; \<open>hog_Run\<close> adds the
  built-in modules to those the plugins registered and starts the run loop (\<open>app_Run\<close>), which loads and expands the
  configuration files, parses them into a typed configuration, sets up telemetry, builds one handler (\<open>app_Build\<close>) and
  serves it until it is cancelled. The handler is, from the outside in: removal of forwarding headers of untrusted peers,
  security headers and the cross-origin check, the tracing layer, and a mux of routes and sign-in endpoints. A route is a
  fixed skeleton of middlewares (recovery, request id, access log, session or Bearer gate, auth gate, authorization, identity
  projection), then the selected plugins, then, on routes that forward the identity, the gate that mints the assertion, then
  the terminal handler (static files, reverse proxy, API aggregation, health).

  \<^bold>\<open>How it is modelled.\<close> A handler is a function from a request and a world to an outcome, which is a new
  world or a panic with the world at that point; the world holds the response being written, the clock and the source of
  randomness (each reading consumes one), the access log and the state \<open>'st\<close> of everything outside (session store,
  identity provider, backends). A middleware maps handlers to handlers. A Go pair of a value and an error is a sum type with one
  constructor per error site. A Go map is an association list with a lookup function, integers are unbounded except where the
  width matters (addresses are words; durations and counters carry their bounds in the statements). Code that is not in the
  repository is an argument of the definitions that use it: the YAML and JSON decoders, AES-GCM, SHA-256 and Ed25519, the
  OpenID Connect, Rego, Valkey and OpenTelemetry libraries, the operating system, the Go toolchain, URL and address parsing, the
  pattern matching of the mux, case mapping and the table of printable characters. What a property needs of such an argument is
  a hypothesis of it (opening a sealed value gives it back under the same associated data and no other; a verified signature was
  made with the key; the store returns what was set until it expires; the verifier checks the audience it is told to), and its
  witness instantiates the argument.

  \<^bold>\<open>Theories.\<close>
  \<^item> Language and library: \<open>Hog_Prelude\<close> (results, Go maps, traversals and the rules that invert a successful one),
    \<open>Go_Strings\<close>, \<open>Go_Codec\<close>, \<open>Go_Any\<close>, \<open>Go_Path\<close>, \<open>Go_Url\<close>, and
    \<open>Http_Model\<close> for \<open>net/http\<close>: headers with canonical names, cookies, responses whose status is sent once.
  \<^item> Configuration (\<^verbatim>\<open>config\<close>, \<^verbatim>\<open>selector\<close>, \<^verbatim>\<open>registry\<close>,
    \<^verbatim>\<open>route\<close>): \<open>Config_Env\<close> shows that expansion replaces exactly the variables of a text and that
    loading reads the files in order; \<open>Selector\<close> gives the meaning of label selectors; \<open>Registry\<close> states the
    contract of the module registry as the locale \<open>module_registry\<close> and interprets it; \<open>Route\<close> resolves the
    effective access block of a route from its groups.
  \<^item> Chain (\<^verbatim>\<open>chain\<close>, \<^verbatim>\<open>security\<close>): \<open>Chain\<close> has the skeleton and the locale
    \<open>filter_mw\<close>, the contract of a middleware that either answers or hands on one request; every gate is an
    interpretation of it. \<open>Forwarded\<close> has trusted proxies, \<open>Security\<close> the cross-origin check.
  \<^item> Sessions (\<^verbatim>\<open>session\<close>): \<open>Passport\<close> and \<open>Session_Core\<close> (claims, groups, session data,
    fingerprint, configuration), \<open>Cookie_Codec\<close> (sealing, chunks), \<open>Session_Manager\<close> with the locale
    \<open>session_manager\<close> and the cookie manager, \<open>State_Manager\<close> with the server-side manager and its silent refresh,
    \<open>Valkey_Store\<close> for its store. \<open>Keyed_Mutex\<close> models the lock the refresh is serialised by as a step
    relation over all interleavings: it refines one lock per key that only its owner
    releases, leaks no entry, and drains.
  \<^item> Identity (\<^verbatim>\<open>auth\<close>, \<^verbatim>\<open>idp\<close>): \<open>Auth_Gates\<close>, \<open>Oidc\<close>, \<open>Login_Flow\<close>
    (login, callback, logout), \<open>Assertion\<close> (identity handed from one gateway to the next), \<open>Projection\<close>
    (identity headers).
  \<^item> Authorization and backends (\<^verbatim>\<open>authz\<close>, \<^verbatim>\<open>terminal\<close>): \<open>Authz\<close>, \<open>Backend\<close>
    (what a backend sees; the reverse proxy), \<open>Static_Files\<close>, \<open>Aggregate\<close>.
  \<^item> Operation (\<^verbatim>\<open>telemetry\<close>, \<^verbatim>\<open>app\<close>, \<^verbatim>\<open>gateway\<close>, \<^verbatim>\<open>hog.go\<close>,
    \<^verbatim>\<open>cmd\<close>, \<^verbatim>\<open>internal/hogbuild\<close>): \<open>Telemetry\<close> (configuration, access log), \<open>App\<close>
    (assembly), \<open>Route_Safety\<close> (what the gates of a route let through), \<open>Runtime\<close> (telemetry pipelines, run loop),
    \<open>Hog_Build\<close> (the composer of custom binaries), \<open>Entry_Point\<close> (the two programs, their command lines and the
    built-in modules).
  \<^item> This theory: the properties of the assembled gateway, over \<open>app_Build\<close>.

  \<^bold>\<open>What is shown.\<close> For the whole gateway, by comparing two builds of one configuration over different modules: a route's
  plugins and terminal handler only see requests its gates cleared, and a backend only receives assertions this
  gateway minted; cross-site writes and untrusted forwarding headers have no effect. For sign-in: no session without a login started in the same browser, each answer usable once, a complete login ends with a session.
  For sessions: what is issued is read back, what is read back is authentic, unexpired and bound to its client; refreshed tokens
  are stored, and a waiting request does not refresh again. For tokens and assertions: audience, nonce, subject and lifetime. For
  handlers: dot files are never served, path parameters cannot leave their segment, the answer of an aggregation does not depend on
  the order of its calls. For operation: nothing stays open after a run, the access log is independent of
  the built-in credential headers and of sensitive query parameters, a build runs
  exactly its plan, and the composer's command line round-trips.

  \<^bold>\<open>Termination.\<close> The loops of the source are structural recursions or functions with a proved measure (the rest of
  the input for scanners, the remaining arguments for flags), so every operation is total. The one bound is that of the loop that
  joins the chunks of a cookie: it runs for as many indices as there are chunks in the request, plus one, and the run of consecutive
  indices it follows cannot be longer (\<open>join_parts_enough\<close>). Waiting for a lock is the only unbounded behaviour and is a step relation; its liveness is proved by a measure
  that every step without a new acquisition decreases.

  \<^bold>\<open>Not modelled.\<close> The configuration schema is an embedded data file, which \<open>hog_Main\<close> takes as an argument.
  Log lines of the process other than the access log, error texts that only reach it, and span events of the gates are left
  out; so are streaming and connection upgrades of the reverse proxy, the connection pool settings of the transports, and the
  deadline of the graceful shutdown. The memory model is sequential per request: the session lock is the only place where requests
  share mutable state inside the process, and it is modelled concurrently. The end-to-end test fixtures
  (\<^verbatim>\<open>tests/e2e\<close>) are not part of the program.
\<close>

section \<open>The assembled gateway\<close>

text \<open>The layers of a gateway that was built: the edge layers around the mux, and the sign-in endpoints in it.\<close>

lemma app_Build_shape:
  assumes "app_Build X al otel other reg cfg g tel = Inr a"
  obtains trusted secCfg sec mux mux' where
    "apSession a = None \<or> \<not> IsVerificationOnly (apIdP a)"
    "ParseTrustedProxies (xParseAddr X) (xParsePrefix X) (gwTrustedProxies g) = Inr trusted"
    "security_Parse (xSecurity X) (gwSecurity g) = Inr secCfg"
    "security_Build (xCop X) secCfg = Inr sec"
    "mux' = mux \<and> (apIdP a = None \<or> apSession a = None)
       \<or> (\<exists>h. add_endpoints X cfg h mux = Inr mux' \<and> apIdP a = Some (hIdp h) \<and> apSession a = Some (hSess h))"
    "apHandler a = Forwarded (xParseAddr X) trusted (sec (otel (mux_ServeHTTP X other mux')))"
proof (rule app_Build_parts [OF assms])
  fix active idCfg sess issue authCfg pols trusted secCfg sec seen mux
  assume p: "\<not> (sess \<noteq> None \<and> IsVerificationOnly active)"
      "ParseTrustedProxies (xParseAddr X) (xParsePrefix X) (gwTrustedProxies g) = Inr trusted"
      "security_Parse (xSecurity X) (gwSecurity g) = Inr secCfg" "security_Build (xCop X) secCfg = Inr sec"
    and a: "mount_all X otel other cfg active sess idCfg authCfg trusted sec mux = Inr a"
  from a obtain mux' where e: "(case (active, sess) of
              (Some i, Some (mgr, sc)) \<Rightarrow>
                (case newSealer32 (scKey sc) of
                   None \<Rightarrow> Inl SessionKeyErr
                 | Some key \<Rightarrow> add_endpoints X cfg \<lparr>hIdp = i, hSess = mgr, hSealer = key, hCfg = authCfg, hScfg = sc, hIdCfg = idCfg\<rparr> mux)
            | _ \<Rightarrow> Inr mux) = Inr mux'"
    and a': "a = \<lparr>apHandler = Forwarded (xParseAddr X) trusted (sec (otel (mux_ServeHTTP X other mux'))), apIdP = active, apSession = map_option fst sess\<rparr>"
    unfolding mount_all_def bindR_eq_Inr by blast
  have x: "mux' = mux \<and> (active = None \<or> map_option fst sess = None)
      \<or> (\<exists>h. add_endpoints X cfg h mux = Inr mux' \<and> active = Some (hIdp h) \<and> map_option fst sess = Some (hSess h))"
    using e by (auto split: option.splits prod.splits)
  show thesis by (rule that [of trusted secCfg sec mux' mux]) (use p x in \<open>auto simp: a'\<close>)
qed

text \<open>C1. Nothing behind the gates of a route sees a request the gates did not clear. Take two builds of one configuration whose
  terminal handlers and plugins come from different modules. If, on every route, what the two put behind the gates agrees on
  the requests the route clears, the two gateways are the same handler: they answer every request alike. So what a plugin or a
  terminal handler would do with a request that is not cleared has no effect. A cleared request has a principal where the route
  requires one, is allowed by every policy named for the route or its groups, and carries the identity headers the projection
  wrote. Authentication counts as configured as soon as there is a session, an identity provider or accepted assertions.\<close>

theorem routes_enforce_gates:
  assumes "app_Build X al otel other reg cfg g tel = Inr a" "app_Build X al otel other reg' cfg g tel = Inr a'"
    and "same_modules [''IdP'', ''StateProvider''] reg reg'"
    and "ParseIdentity (xIdentity X) (xParseDuration X) (gwIdentity g) = Inr idCfg" "Compile (xPolicy X) (xOpa X) (cfPolicies cfg) = Inr m"
    and "\<And>rt res pols. rt \<in> set (cfRoutes cfg) \<Longrightarrow> Resolve (xLower X) rt (cfGroups cfg) = Inr res \<Longrightarrow>
      list_all2 (\<lambda>n p. gm_get m n = Some p) (rsAuthorize res) pols \<Longrightarrow>
      agree_on (cleared X (auth_configured cfg g idCfg) (groups_as idCfg) rt res pols)
        (behind_gates X reg cfg idCfg rt) (behind_gates X reg' cfg idCfg rt)"
  shows "apHandler a = apHandler a'"
proof -
  have "h = h'" if S: "shared_by X cfg g idCfg m S" and rt: "rt \<in> set (cfRoutes cfg)"
    and h: "build_route X reg cfg S rt = Inr h" "build_route X reg' cfg S rt = Inr h'" for S rt h h'
  proof -
    from S have i: "issue_gate X idCfg = Inr (bsIssue S)" and c: "bsPolicies S = m" "authActive S = auth_configured cfg g idCfg"
      "bsGroupsAs S = groups_as idCfg" by (simp_all add: shared_by_def)
    obtain res pols k where p: "Resolve (xLower X) rt (cfGroups cfg) = Inr res" "route_policies S (rtName rt) (rsAuthorize res) = Inr pols"
      and k: "behind_gates X reg cfg idCfg rt = Inr k" "h = Compose k (Skeleton (route_gates X S rt res pols) (Some (bsAccessLog S)))"
      using build_route_behind [OF h(1) i] by metis
    obtain k' where k': "behind_gates X reg' cfg idCfg rt = Inr k'" "h' = Compose k' (Skeleton (route_gates X S rt res pols) (Some (bsAccessLog S)))"
      using build_route_behind [OF h(2) i] p by (metis sum.inject(2))
    have "agree_on (cleared X (authActive S) (bsGroupsAs S) rt res pols) (behind_gates X reg cfg idCfg rt) (behind_gates X reg' cfg idCfg rt)"
      unfolding c by (rule assms(6) [OF rt p(1)]) (use route_policies_named [OF p(2)] c(1) in simp)
    then have "k r w = k' r w" if "cleared X (authActive S) (bsGroupsAs S) rt res pols r" for r w
      using that k(1) k'(1) by (simp add: agree_on_def)
    with route_policies_Nil [OF p(2)] show "h = h'" unfolding k(2) k'(2) by (rule gates_hide)
  qed
  from app_Build_same [OF assms(1-3) _ _ assms(4,5) this] show ?thesis by simp
qed

definition demo_guarded :: "unit handler" where
  "demo_guarded r w = (if FromContext r = None then Panicked ''no principal'' w else Done (Write ''secret'' w))"

text \<open>The identity block of the small gateway, and what the two registries have in common.\<close>

lemma demo_identity:
  obtains idc as ic i where "ParseIdentity (xIdentity demo_app_env) (xParseDuration demo_app_env) (gwIdentity demo_settings) = Inr idc"
    "idAssertion idc = Some as" "asIssue as = Some ic" "NewAssertionIssuer (aiName ic) (aiKeyID ic) (aiSeed ic) (aiTTL ic) = Inr i"
proof -
  obtain idc mw where i: "ParseIdentity (xIdentity demo_app_env) (xParseDuration demo_app_env) (gwIdentity demo_settings) = Inr idc"
    "issue_gate demo_app_env idc = Inr (Some (mw :: unit middleware))" using demo_ParseIdentity by blast
  from i(2) that [OF i(1)] show thesis by (auto simp: issue_gate_def bindR_eq_Inr split: option.splits)
qed

lemma demo_same_modules: "''TerminalHandler'' \<notin> set kinds \<Longrightarrow> same_modules kinds (demo_modules_of t) (demo_modules_of t')"
  by (auto simp: same_modules_def demo_modules_of_def Lookup_def kind_map_def)

theorem routes_enforce_gates_witness:
  "\<exists>(a :: unit app) a'. app_Build demo_app_env (\<lambda>c. reserved) reserved (\<lambda>r w. Done w) demo_modules demo_config demo_settings telemetry_Default = Inr a
     \<and> app_Build demo_app_env (\<lambda>c. reserved) reserved (\<lambda>r w. Done w) (demo_modules_of demo_guarded) demo_config demo_settings telemetry_Default = Inr a'
     \<and> apHandler a = apHandler a'"
proof -
  let ?build = "\<lambda>t. app_Build demo_app_env (\<lambda>c. reserved) reserved (\<lambda>r w. Done w) (demo_modules_of t) demo_config demo_settings telemetry_Default"
  obtain a a' where a: "?build (\<lambda>r w. Done (Write ''secret'' w)) = Inr a" "?build demo_guarded = Inr a'"
    using demo_app_Build by blast
  obtain idc as ic i where idc: "ParseIdentity (xIdentity demo_app_env) (xParseDuration demo_app_env) (gwIdentity demo_settings) = Inr idc"
    and ig: "idAssertion idc = Some as" "asIssue as = Some ic" "NewAssertionIssuer (aiName ic) (aiKeyID ic) (aiSeed ic) (aiTTL ic) = Inr i"
    by (rule demo_identity)
  let ?issue = "IssueAssertion (xJws demo_app_env) i (aiHeader ic) :: unit middleware"
  have m: "Matches empty_selector []" by code_simp
  have bg: "behind_gates demo_app_env (demo_modules_of t) demo_config idc (hd (cfRoutes demo_config)) = Inr (?issue t)" for t
    by (simp add: behind_gates_def buildTerminal_def demo_modules_of_def Build_def kind_map_def demo_config_def resolvePlugins_def build_plugin_def
        issue_gate_def ig m handlerForwardsIdentity_def reserved_def)
       (simp add: demo_app_env_def)
  have h: "hands_on (\<lambda>r. FromContext r \<noteq> None) (\<lambda>r. FromContext r \<noteq> None) ?issue"
    by (rule issueF.step_hands_on)
       (auto simp: issue_step_def Let_def FromContext_def mapHeader_def split: option.splits sum.splits)
  have g: "?issue (\<lambda>r w. Done (Write ''secret'' w)) r w = ?issue demo_guarded r w" if "FromContext r \<noteq> None" for r w
    by (rule hands_onD [OF h _ that]) (simp add: demo_guarded_def)
  have p: "Compile (xPolicy demo_app_env) (xOpa demo_app_env) (cfPolicies demo_config) = Inr []" by (simp add: Compile_def demo_config_def)
  have "apHandler a = apHandler a'"
  proof (rule routes_enforce_gates [OF a demo_same_modules idc p])
    fix rt res pols
    assume rt: "rt \<in> set (cfRoutes demo_config)" and res: "Resolve (xLower demo_app_env) rt (cfGroups demo_config) = Inr res"
    have rt: "rt = hd (cfRoutes demo_config)" using rt by (simp add: demo_config_def)
    with res demo_Resolve have q: "rsAuth res = ''required''" by (auto simp: demo_app_env_def demo_config_def)
    have "auth_configured demo_config demo_settings idc" by (simp add: auth_configured_def demo_settings_def)
    with q g show "agree_on (cleared demo_app_env (auth_configured demo_config demo_settings idc) (groups_as idc) rt res pols)
      (behind_gates demo_app_env demo_modules demo_config idc rt) (behind_gates demo_app_env (demo_modules_of demo_guarded) demo_config idc rt)"
      unfolding rt bg by (simp add: agree_on_def cleared_def)
  qed simp
  with a show ?thesis by blast
qed

text \<open>C4. Forwarding headers of an untrusted peer have no effect. Requests of a peer that is not a configured proxy, and that
  differ only in their X-Forwarded-*, X-Real-Ip and Forwarded headers, get the same answer, the same cookies, the same
  log and the same effect on every service, on every route and endpoint.\<close>

theorem app_ignores_untrusted_forwarding:
  assumes "app_Build X al otel other reg cfg g tel = Inr a"
    and "ParseTrustedProxies (xParseAddr X) (xParsePrefix X) (gwTrustedProxies g) = Inr tp" "\<not> peerTrusted (xParseAddr X) tp r"
    and "hDelAll forwardedHeaders h = hDelAll forwardedHeaders (rHeader r)"
  shows "apHandler a (r\<lparr>rHeader := h\<rparr>) w = apHandler a r w"
proof -
  obtain rest where a: "apHandler a = Forwarded (xParseAddr X) tp rest"
    using app_Build_shape [OF assms(1)] assms(2) by (metis sum.inject(2))
  have "peerTrusted (xParseAddr X) tp (r\<lparr>rHeader := h\<rparr>) = peerTrusted (xParseAddr X) tp r"
    by (simp add: peerTrusted_def cong: option.case_cong)
  with assms(3,4) show ?thesis by (simp add: a Forwarded_def mapHeader_def)
qed

theorem app_ignores_untrusted_forwarding_witness:
  "\<exists>a. app_Build demo_app_env (\<lambda>c. reserved) reserved (\<lambda>r w. Done w) demo_modules demo_config demo_settings telemetry_Default = Inr a
     \<and> apHandler a (demo_req [(''X-Forwarded-Proto'', [''https''])]) (demo_world ()) = apHandler a (demo_req []) (demo_world ())"
proof -
  obtain a where a: "app_Build demo_app_env (\<lambda>c. reserved) reserved (\<lambda>r w. Done w) demo_modules demo_config demo_settings telemetry_Default = Inr a"
    using demo_app_Build by blast
  let ?h = "[(''X-Forwarded-Proto'', [''https''])]"
  obtain tp where tp: "ParseTrustedProxies (xParseAddr demo_app_env) (xParsePrefix demo_app_env) (gwTrustedProxies demo_settings) = Inr tp"
    by (simp add: ParseTrustedProxies_def demo_settings_def)
  have "\<not> peerTrusted (xParseAddr demo_app_env) tp r" for r by (simp add: peerTrusted_def demo_app_env_def Let_def)
  moreover have "hDelAll forwardedHeaders ?h = hDelAll forwardedHeaders (rHeader (demo_req []))" by code_simp
  moreover have "demo_req ?h = (demo_req [])\<lparr>rHeader := ?h\<rparr>" by (simp add: demo_req_def)
  ultimately show ?thesis using a app_ignores_untrusted_forwarding [OF a tp] by metis
qed


text \<open>C3. Cross-site writes change nothing. Unless the check is switched off, a request a browser marks as cross-site and that may
  change state is answered 403 by the assembled gateway, on every route and every sign-in endpoint, without a cookie being
  set, without a log record and without any service being called. Bypass patterns are matched on method, host and path.\<close>

theorem app_stops_cross_site_writes:
  assumes "app_Build X al otel other reg cfg g tel = Inr a"
    and "security_Parse (xSecurity X) (gwSecurity g) = Inr sc" "deref (csEnabled (seCSRF sc)) True" "[] \<notin> set (csTrustedOrigins (seCSRF sc))"
    and "\<And>ps f r. coMatches (xCop X) ps (mapHeader f r) = coMatches (xCop X) ps r"
    and "cross_site_write (xCop X) (seCSRF sc) r" "wStatus (resp w) = None"
  shows "\<exists>w'. apHandler a r w = Done w' \<and> wStatus (resp w') = Some 403 \<and> wCookies (resp w') = wCookies (resp w)
    \<and> ext w' = ext w \<and> alog w' = alog w"
proof -
  obtain tp sec rest where sec: "security_Build (xCop X) sc = Inr sec" and a: "apHandler a = Forwarded (xParseAddr X) tp (sec rest)"
    using app_Build_shape [OF assms(1)] assms(2) by (metis sum.inject(2))
  from sec assms(3) obtain c where c: "build_cop (xCop X) (seCSRF sc) = Inr c"
    and mw: "sec = (\<lambda>next. headersHandler (seHeaders sc) (cop_Handler (xCop X) c next))"
    by (auto simp: security_Build_def bindR_eq_Inr)
  let ?r = "if peerTrusted (xParseAddr X) tp r then r else mapHeader (hDelAll forwardedHeaders) r"
  have keep: "CanonicalHeaderKey k \<notin> CanonicalHeaderKey ` set forwardedHeaders \<Longrightarrow> reqGet ?r k = reqGet r k" for k
    by (simp add: reqGet_def hGet_def mapHeader_def gm_get_hDelAll)
  have s: "reqGet ?r ''Sec-Fetch-Site'' = reqGet r ''Sec-Fetch-Site''" "reqGet ?r ''Origin'' = reqGet r ''Origin''"
    by (rule keep, code_simp)+
  have m: "rMethod ?r = rMethod r" "rHost ?r = rHost r" "coMatches (xCop X) ps ?r = coMatches (xCop X) ps r" for ps
    using assms(5) by (simp_all add: mapHeader_def)
  have "cross_site_write (xCop X) (seCSRF sc) ?r"
    using assms(6) unfolding cross_site_write_def s m .
  then obtain e where e: "cop_Check (xCop X) c ?r = Some e"
    using cop_Check_iff [OF c assms(4)] by blast
  have st: "wStatus (resp (security_headers (seHeaders sc) w)) = None" and ck: "wCookies (resp (security_headers (seHeaders sc) w)) = wCookies (resp w)"
    and ex: "ext (security_headers (seHeaders sc) w) = ext w" "alog (security_headers (seHeaders sc) w) = alog w"
    using assms(7) by (simp_all add: security_headers_def set_unless_empty_def Let_def wSet_def)
  have "apHandler a r w = Done (httpError (cop_message e) 403 (security_headers (seHeaders sc) w))"
    using e by (auto simp: a Forwarded_def mw headersHandler_def cop_Handler_def cop_step_def)
  then show ?thesis
    using httpError_status [OF st] ck ex by (simp add: httpError_def Write_def WriteHeader_def wSet_def wDel_def Let_def sendStatus_def split: option.splits)
qed


theorem app_stops_cross_site_writes_witness:
  "\<exists>a w'. app_Build demo_app_env (\<lambda>c. reserved) reserved (\<lambda>r w. Done w) demo_modules demo_config demo_settings telemetry_Default = Inr a
     \<and> apHandler a demo_cross_site (demo_world ()) = Done w' \<and> wStatus (resp w') = Some 403"
proof -
  obtain a where a: "app_Build demo_app_env (\<lambda>c. reserved) reserved (\<lambda>r w. Done w) demo_modules demo_config demo_settings telemetry_Default = Inr a"
    using demo_app_Build by blast
  have "security_Parse (xSecurity demo_app_env) (gwSecurity demo_settings) = Inr default_security"
    by (simp add: security_Parse_def demo_settings_def)
  moreover have "deref (csEnabled (seCSRF default_security)) True" "[] \<notin> set (csTrustedOrigins (seCSRF default_security))"
    "cross_site_write demo_cop_env (seCSRF default_security) demo_cross_site" "wStatus (resp (demo_world ())) = None"
    by code_simp+
  moreover have "xCop demo_app_env = demo_cop_env" "coMatches demo_cop_env ps (mapHeader f r) = coMatches demo_cop_env ps r" for ps f r
    by (simp_all add: demo_app_env_def demo_cop_env_def mapHeader_def)
  ultimately show ?thesis
    using app_stops_cross_site_writes [OF a, of default_security demo_cross_site "demo_world ()"] a by auto
qed

text \<open>A gateway that starts can run its login. When a session and the OpenID Connect connector are configured and the gateway
  was built, its login endpoint is mounted at the configured path and never panics, whatever the request: the combination
  with a connector that only verifies tokens, whose login would panic, is refused at start.\<close>

theorem login_never_panics:
  fixes L :: "'st oidc_lib"
  assumes "app_Build X al otel other reg cfg g tel = Inr a" "apSession a \<noteq> None" "apIdP a = Some (oidc_ops L pu oc)"
  shows "\<exists>tp sec mux h. apHandler a = Forwarded (xParseAddr X) tp (sec (otel (mux_ServeHTTP X other mux)))
    \<and> hIdp h = oidc_ops L pu oc \<and> (auLoginPath (hCfg h), Login (xLogin X) h) \<in> set mux
    \<and> (\<forall>r w. \<exists>w'. Login (xLogin X) h r w = Done w')"
proof -
  obtain trusted sec mux mux' where b: "apSession a = None \<or> \<not> IsVerificationOnly (apIdP a)"
      "mux' = mux \<and> (apIdP a = None \<or> apSession a = None)
       \<or> (\<exists>h. add_endpoints X cfg h mux = Inr mux' \<and> apIdP a = Some (hIdp h) \<and> apSession a = Some (hSess h))"
      "apHandler a = Forwarded (xParseAddr X) trusted (sec (otel (mux_ServeHTTP X other mux')))"
    using app_Build_shape [OF assms(1)] by metis
  with assms(2,3) obtain h where h: "add_endpoints X cfg h mux = Inr mux'" "hIdp h = oidc_ops L pu oc" by auto
  have v: "\<not> oiVerifyOnly oc" using b(1) assms(2,3) by (auto simp: IsVerificationOnly_def oidc_ops_def)
  have mem: "(auLoginPath (hCfg h), Login (xLogin X) h) \<in> set mux'"
    using h(1) by (auto simp: add_endpoints_def bindR_eq_Inr mux_Handle_Inr)
  have "\<exists>w'. Login (xLogin X) h r w = Done w'" for r w
    using v by (auto simp: Login_def h(2) oidc_ops_def oidc_AuthCodeURL_def Let_def split: prod.splits option.splits)
  then show ?thesis using b(3) h(2) mem by blast
qed

theorem login_never_panics_witness:
  "\<exists>(a :: unit app) h. app_Build demo_app_env (\<lambda>c. reserved) reserved (\<lambda>r w. Done w) demo_modules demo_config demo_settings telemetry_Default = Inr a
     \<and> apIdP a = Some (hIdp h) \<and> (\<forall>r w. \<exists>w'. Login (xLogin demo_app_env) h r w = Done w')"
proof -
  obtain a where a: "app_Build demo_app_env (\<lambda>c. reserved) reserved (\<lambda>r w. Done w) demo_modules demo_config demo_settings telemetry_Default = Inr a"
    and s: "apSession a \<noteq> None" and i: "apIdP a = Some (oidc_ops demo_oidc_lib Map.empty demo_oidc)"
    using demo_app_Build by blast
  from login_never_panics [OF a s i] i a show ?thesis by (metis (no_types, lifting))
qed

lemma minted_backend:
  assumes "minted_only J i header r" "header \<noteq> []" "assertion_apart r"
    and "gm_get (prepareBackendRequest opts r out) (CanonicalHeaderKey header) = Some vs"
  shows "\<exists>p t token. FromContext r = Some p \<and> Mint J i p t = Inr token \<and> vs = [token]"
proof -
  have n: "assertion_name r = header" using assms(1,2) by (simp add: minted_only_def assertion_name_def)
  with backend_assertion [OF assms(3), of opts out] assms(4) have "vs = [reqGet r header]" "reqGet r header \<noteq> []"
    by (auto split: if_splits)
  with assms(1) show ?thesis by (auto simp: minted_only_def reqGet_def hGet_def)
qed

text \<open>C2. A backend only receives identity assertions minted by this gateway. On a route whose handler forwards the identity, the
  terminal handler only sees requests whose assertion header is absent or was minted by the configured issuer for the principal of
  that request: two builds over the same plugins, whose terminal handlers agree on such requests, are the same gateway, whatever
  a client or a plugin put under that header. And the request such a handler prepares for the backend carries an assertion
  minted for that principal, or none.\<close>

theorem forwarded_identity_is_minted:
  assumes "app_Build X al otel other reg cfg g tel = Inr a" "app_Build X al otel other reg' cfg g tel = Inr a'"
    and "same_modules [''IdP'', ''StateProvider'', ''RequestPlugin'', ''ResponsePlugin''] reg reg'"
    and "ParseIdentity (xIdentity X) (xParseDuration X) (gwIdentity g) = Inr idCfg" "idAssertion idCfg = Some as" "asIssue as = Some ic"
    and "NewAssertionIssuer (aiName ic) (aiKeyID ic) (aiSeed ic) (aiTTL ic) = Inr i"
    and "header = (if aiHeader ic = [] then DefaultAssertionHeader else aiHeader ic)"
    and "\<And>rt forwards. rt \<in> set (cfRoutes cfg) \<Longrightarrow> handlerForwardsIdentity X (hsConfig (rtHandler rt)) = Inr forwards \<Longrightarrow>
      agree_on (\<lambda>r. forwards \<longrightarrow> minted_only (xJws X) i header r) (buildTerminal reg rt) (buildTerminal reg' rt)"
  shows "apHandler a = apHandler a'
    \<and> (\<forall>r opts out vs. minted_only (xJws X) i header r \<and> assertion_apart r
         \<and> gm_get (prepareBackendRequest opts r out) (CanonicalHeaderKey header) = Some vs \<longrightarrow>
         (\<exists>p t token. FromContext r = Some p \<and> Mint (xJws X) i p t = Inr token \<and> vs = [token]))"
proof
  from assms(1) obtain m where m: "Compile (xPolicy X) (xOpa X) (cfPolicies cfg) = Inr m" by (rule app_Build_parts)
  have "h = h'" if S: "shared_by X cfg g idCfg m S" and rt: "rt \<in> set (cfRoutes cfg)"
    and h: "build_route X reg cfg S rt = Inr h" "build_route X reg' cfg S rt = Inr h'" for S rt h h'
  proof -
    have bi: "bsIssue S = Some (IssueAssertion (xJws X) i (aiHeader ic))" using S assms(5-7) by (simp add: shared_by_def issue_gate_def)
    obtain t reqMW respMW res pols fwd where p: "buildTerminal reg rt = Inr t"
        "resolvePlugins reg ''RequestPlugin'' (cfRequestPlugins cfg) (rtLabels rt) = Inr reqMW"
        "resolvePlugins reg ''ResponsePlugin'' (cfResponsePlugins cfg) (rtLabels rt) = Inr respMW"
        "Resolve (xLower X) rt (cfGroups cfg) = Inr res" "route_policies S (rtName rt) (rsAuthorize res) = Inr pols"
        "handlerForwardsIdentity X (hsConfig (rtHandler rt)) = Inr fwd"
      and e: "h = route_chain S (route_gates X S rt res pols) (reqMW @ respMW @ (if fwd then [the (bsIssue S)] else [])) t"
      using build_route_shape [OF h(1)] by metis
    obtain t' where t': "buildTerminal reg' rt = Inr t'"
      and e': "h' = route_chain S (route_gates X S rt res pols) (reqMW @ respMW @ (if fwd then [the (bsIssue S)] else [])) t'"
      using build_route_shape [OF h(2)] p(2-6) resolvePlugins_same [OF assms(3)]
      by (smt (verit, del_insts) list.set_intros sum.inject(2))
    have t: "t r w = t' r w" if "fwd \<longrightarrow> minted_only (xJws X) i header r" for r w
      using assms(9) [OF rt p(6)] p(1) t' that by (simp add: agree_on_def)
    show "h = h'"
    proof (cases fwd)
      case True
      have "Compose t (ms @ [IssueAssertion (xJws X) i (aiHeader ic)]) = Compose t' (ms @ [IssueAssertion (xJws X) i (aiHeader ic)])" for ms
        by (rule Compose_hands_on [OF issue_hands_on]) (use True t assms(8) in auto)
      from this [of "Skeleton (route_gates X S rt res pols) (Some (bsAccessLog S)) @ reqMW @ respMW"] show ?thesis
        unfolding e e' route_chain_def by (simp add: True bi)
    next
      case False
      with t have "t = t'" by (simp add: fun_eq_iff)
      then show ?thesis by (simp add: e e')
    qed
  qed
  from app_Build_same [OF assms(1-3) _ _ assms(4) m this] show "apHandler a = apHandler a'" by simp
  have "header \<noteq> []" by (simp add: assms(8) DefaultAssertionHeader_def)
  then show "\<forall>r opts out vs. minted_only (xJws X) i header r \<and> assertion_apart r
         \<and> gm_get (prepareBackendRequest opts r out) (CanonicalHeaderKey header) = Some vs \<longrightarrow>
         (\<exists>p t token. FromContext r = Some p \<and> Mint (xJws X) i p t = Inr token \<and> vs = [token])"
    using minted_backend by blast
qed

definition demo_minted :: "string \<Rightarrow> unit handler" where
  "demo_minted header r w = (if reqGet r header = ''forged'' \<and> FromContext r = None then Panicked ''forged'' w else Done (Write ''secret'' w))"

theorem forwarded_identity_is_minted_witness:
  "\<exists>(a :: unit app) a' header. app_Build demo_app_env (\<lambda>c. reserved) reserved (\<lambda>r w. Done w) demo_modules demo_config demo_settings telemetry_Default = Inr a
     \<and> app_Build demo_app_env (\<lambda>c. reserved) reserved (\<lambda>r w. Done w) (demo_modules_of (demo_minted header)) demo_config demo_settings telemetry_Default = Inr a'
     \<and> header \<noteq> [] \<and> apHandler a = apHandler a'"
proof -
  let ?build = "\<lambda>t. app_Build demo_app_env (\<lambda>c. reserved) reserved (\<lambda>r w. Done w) (demo_modules_of t) demo_config demo_settings telemetry_Default"
  obtain idc as ic i where idc: "ParseIdentity (xIdentity demo_app_env) (xParseDuration demo_app_env) (gwIdentity demo_settings) = Inr idc"
    "idAssertion idc = Some as" "asIssue as = Some ic" "NewAssertionIssuer (aiName ic) (aiKeyID ic) (aiSeed ic) (aiTTL ic) = Inr i"
    by (rule demo_identity)
  let ?header = "if aiHeader ic = [] then DefaultAssertionHeader else aiHeader ic"
  obtain a a' where a: "?build (\<lambda>r w. Done (Write ''secret'' w)) = Inr a" "?build (demo_minted ?header) = Inr a'"
    using demo_app_Build by blast
  have b: "buildTerminal (demo_modules_of t) rt = Inr t" if "rt \<in> set (cfRoutes demo_config)" for t rt
    using that by (auto simp: demo_config_def buildTerminal_def demo_modules_of_def Build_def kind_map_def)
  have f: "handlerForwardsIdentity demo_app_env n = Inr True" for n by (simp add: handlerForwardsIdentity_def demo_app_env_def)
  have "apHandler a = apHandler a'"
  proof (rule conjunct1 [OF forwarded_identity_is_minted [OF a demo_same_modules idc refl]])
    fix rt forwards
    assume rt: "rt \<in> set (cfRoutes demo_config)" and "handlerForwardsIdentity demo_app_env (hsConfig (rtHandler rt)) = Inr forwards"
    then have "forwards" by (simp add: f)
    moreover have "\<not> (reqGet r ?header = ''forged'' \<and> FromContext r = None)" if "minted_only J i ?header r" for J r
      using that by (auto simp: minted_only_def reqGet_def hGet_def)
    ultimately show "agree_on (\<lambda>r. forwards \<longrightarrow> minted_only (xJws demo_app_env) i ?header r) (buildTerminal demo_modules rt)
        (buildTerminal (demo_modules_of (demo_minted ?header)) rt)"
      by (auto simp: agree_on_def b [OF rt] demo_minted_def)
  qed simp
  with a show ?thesis by (intro exI [of _ a] exI [of _ a'] exI [of _ ?header]) (simp add: DefaultAssertionHeader_def)
qed

end
